(* ===== verification/Prelude.thy ===== *)
theory Prelude
  imports Complex_Main "HOL-Library.Char_ord" "HOL-Library.List_Lexorder" "HOL-Library.Multiset"
begin

text \<open>
  Shared vocabulary of the development: results with errors as values, comparator based
  sorting (Go's sort.Slice and sort.SliceStable), the row operations of the SQL tables
  (update, count and select with a predicate) and the type synonyms of identifiers and
  instants.  Nothing in this theory is about one component only.
\<close>

section \<open>Types shared by the components\<close>

text \<open>
  A UUID is a number, the nil UUID is 0.  An instant is a number of nanoseconds since
  1970-01-01T00:00:00Z and a duration a number of nanoseconds, as in Go's time package.
\<close>

type_synonym uuid = nat
type_synonym instant = int
type_synonym duration = int

abbreviation (input) nil_uuid :: uuid where "nil_uuid \<equiv> 0"

definition second :: duration where "second = 1000000000"
definition minute :: duration where "minute = 60000000000"
definition hour :: duration where "hour = 3600000000000"

lemmas duration_defs = second_def minute_def hour_def

named_theorems const_defs "string constants of the source, unfolded to compare them"
named_theorems table_simps "how the table operations act on rows"

section \<open>Results: an error on the left, a value on the right\<close>

fun bindr :: "'e + 'a \<Rightarrow> ('a \<Rightarrow> 'e + 'b) \<Rightarrow> 'e + 'b" where
  "bindr (Inl e) f = Inl e"
| "bindr (Inr x) f = f x"

lemma bindr_Inr_iff [simp]: "bindr m f = Inr y \<longleftrightarrow> (\<exists>x. m = Inr x \<and> f x = Inr y)"
  by (cases m) auto

lemma bindr_Inl_iff: "bindr m f = Inl e \<longleftrightarrow> m = Inl e \<or> (\<exists>x. m = Inr x \<and> f x = Inl e)"
  by (cases m) auto

lemma bindr_cong [fundef_cong]:
  "m = m' \<Longrightarrow> (\<And>x. m' = Inr x \<Longrightarrow> f x = f' x) \<Longrightarrow> bindr m f = bindr m' f'"
  by (cases m') auto

text \<open>A Go loop that appends a fallible result per element and returns the first error.\<close>

fun map_res :: "('a \<Rightarrow> 'e + 'b) \<Rightarrow> 'a list \<Rightarrow> 'e + 'b list" where
  "map_res f [] = Inr []"
| "map_res f (x # xs) = bindr (f x) (\<lambda>y. bindr (map_res f xs) (\<lambda>ys. Inr (y # ys)))"

lemma map_res_Inr_iff: "map_res f xs = Inr ys \<longleftrightarrow> list_all2 (\<lambda>x y. f x = Inr y) xs ys"
  by (induction xs arbitrary: ys) (auto simp: list_all2_Cons1)

lemma map_res_length: "map_res f xs = Inr ys \<Longrightarrow> length ys = length xs"
  by (simp add: map_res_Inr_iff list_all2_lengthD)

lemma map_res_total: "(\<And>x. x \<in> set xs \<Longrightarrow> f x = Inr (g x)) \<Longrightarrow> map_res f xs = Inr (map g xs)"
  by (induction xs) auto

section \<open>Sorting with a comparator\<close>

text \<open>
  sort.Slice and sort.SliceStable take a strict comparison.  The model is the stable
  insertion sort; where the code calls the unstable sort.Slice the comparison decides
  every pair of distinct elements, and then every sorting algorithm returns the same list
  (lemma sort_by_perm).
\<close>

fun insert_by :: "('a \<Rightarrow> 'a \<Rightarrow> bool) \<Rightarrow> 'a \<Rightarrow> 'a list \<Rightarrow> 'a list" where
  "insert_by lt x [] = [x]"
| "insert_by lt x (y # ys) = (if lt y x then y # insert_by lt x ys else x # y # ys)"

fun sort_by :: "('a \<Rightarrow> 'a \<Rightarrow> bool) \<Rightarrow> 'a list \<Rightarrow> 'a list" where
  "sort_by lt [] = []"
| "sort_by lt (x # xs) = insert_by lt x (sort_by lt xs)"

lemma mset_insert_by [simp]: "mset (insert_by lt x xs) = add_mset x (mset xs)"
  by (induction xs) auto

lemma mset_sort_by [simp]: "mset (sort_by lt xs) = mset xs"
  by (induction xs) auto

lemma set_sort_by [simp]: "set (sort_by lt xs) = set xs"
  by (metis mset_sort_by set_mset_mset)

lemma set_insert_by [simp]: "set (insert_by lt x xs) = insert x (set xs)"
  by (induction xs) auto

lemma length_sort_by [simp]: "length (sort_by lt xs) = length xs"
  by (metis mset_sort_by size_mset)

lemma distinct_sort_by [simp]: "distinct (sort_by lt xs) = distinct xs"
  by (metis mset_sort_by mset_eq_imp_distinct_iff)

text \<open>The comparisons of the source are strict weak orders; these are the laws used.\<close>

definition weak_order :: "('a \<Rightarrow> 'a \<Rightarrow> bool) \<Rightarrow> bool" where
  "weak_order lt \<longleftrightarrow> (\<forall>x y. lt x y \<longrightarrow> \<not> lt y x) \<and> (\<forall>x y z. \<not> lt y x \<longrightarrow> \<not> lt z y \<longrightarrow> \<not> lt z x)"

lemma weak_order_asym: "weak_order lt \<Longrightarrow> lt x y \<Longrightarrow> \<not> lt y x"
  unfolding weak_order_def by blast

lemma weak_order_trans: "weak_order lt \<Longrightarrow> \<not> lt y x \<Longrightarrow> \<not> lt z y \<Longrightarrow> \<not> lt z x"
  unfolding weak_order_def by blast

lemma weak_orderI:
  "(\<And>x y. lt x y \<Longrightarrow> \<not> lt y x) \<Longrightarrow> (\<And>x y z. \<not> lt y x \<Longrightarrow> \<not> lt z y \<Longrightarrow> \<not> lt z x) \<Longrightarrow> weak_order lt"
  unfolding weak_order_def by blast

text \<open>ORDER BY a, b: the first column decides unless it is equal.\<close>

lemma weak_order_lex:
  assumes g: "weak_order g" and t: "\<And>x y. x \<noteq> y \<Longrightarrow> lt x y \<longleftrightarrow> \<not> lt y x" "\<And>x y z. lt x y \<Longrightarrow> lt y z \<Longrightarrow> lt x z"
    "\<And>x. \<not> lt x x"
  shows "weak_order (\<lambda>a b. if f a \<noteq> f b then lt (f a) (f b) else g a b)"
proof (rule weak_orderI)
  fix x y assume "if f x \<noteq> f y then lt (f x) (f y) else g x y"
  then show "\<not> (if f y \<noteq> f x then lt (f y) (f x) else g y x)"
    using t(1)[of "f x" "f y"] weak_order_asym[OF g] by (auto split: if_splits)
next
  fix x y z assume a: "\<not> (if f y \<noteq> f x then lt (f y) (f x) else g y x)" "\<not> (if f z \<noteq> f y then lt (f z) (f y) else g z y)"
  show "\<not> (if f z \<noteq> f x then lt (f z) (f x) else g z x)"
  proof (cases "f x = f y"; cases "f y = f z")
    assume "f x = f y" "f y = f z"
    then show ?thesis using a weak_order_trans[OF g, of y x z] by auto
  next
    assume "f x \<noteq> f y" "f y \<noteq> f z"
    then have "lt (f x) (f z)" using a t(1)[of "f x" "f y"] t(1)[of "f y" "f z"] t(2) by auto
    then show ?thesis using t(2)[of "f x" "f z" "f x"] t(3) by auto
  next
    assume e: "f x = f y" "f y \<noteq> f z"
    then show ?thesis using a(2) by auto
  next
    assume e: "f x \<noteq> f y" "f y = f z"
    then show ?thesis using a(1) by auto
  qed
qed

lemma sorted_insert_by:
  assumes "weak_order lt" "sorted_wrt (\<lambda>x y. \<not> lt y x) xs"
  shows "sorted_wrt (\<lambda>x y. \<not> lt y x) (insert_by lt x xs)"
  using assms(2)
proof (induction xs)
  case (Cons y ys)
  show ?case
  proof (cases "lt y x")
    case True
    then have "\<not> lt x y" by (rule weak_order_asym[OF assms(1)])
    with True Cons show ?thesis by simp
  next
    case False
    have "\<not> lt z x" if "z \<in> set ys" for z
      using False that Cons.prems weak_order_trans[OF assms(1), of y x z] by simp
    with False Cons.prems show ?thesis by simp
  qed
qed simp

lemma sorted_sort_by: "weak_order lt \<Longrightarrow> sorted_wrt (\<lambda>x y. \<not> lt y x) (sort_by lt xs)"
  by (induction xs) (simp_all add: sorted_insert_by)

lemma sorted_wrt_mset_unique:
  assumes "mset xs = mset ys" "sorted_wrt le xs" "sorted_wrt le ys"
    and "\<And>x y. x \<in> set xs \<Longrightarrow> y \<in> set xs \<Longrightarrow> le x y \<Longrightarrow> le y x \<Longrightarrow> x = y"
  shows "xs = ys"
  using assms
proof (induction xs arbitrary: ys)
  case (Cons x xs)
  then obtain y ys' where ys: "ys = y # ys'" by (cases ys) auto
  have mem: "set (x # xs) = set ys" using Cons.prems(1) by (metis set_mset_mset)
  have "x = y"
  proof (rule ccontr)
    assume ne: "x \<noteq> y"
    with mem ys have "y \<in> set xs" "x \<in> set ys'" by auto
    with Cons.prems(2,3) ys have "le x y" "le y x" by auto
    with Cons.prems(4) mem ys ne show False by auto
  qed
  with Cons.prems ys have "xs = ys'"
    by (intro Cons.IH) auto
  with \<open>x = y\<close> ys show ?case by simp
qed simp

lemma sort_by_perm:
  assumes "weak_order lt" "mset xs = mset ys"
    and "\<And>x y. x \<in> set xs \<Longrightarrow> y \<in> set xs \<Longrightarrow> \<not> lt x y \<Longrightarrow> \<not> lt y x \<Longrightarrow> x = y"
  shows "sort_by lt xs = sort_by lt ys"
  using assms(2,3) sorted_sort_by[OF assms(1)]
  by (intro sorted_wrt_mset_unique[where le = "\<lambda>x y. \<not> lt y x"]) auto

lemma insert_by_sorted_id:
  "sorted_wrt (\<lambda>x y. \<not> lt y x) (x # xs) \<Longrightarrow> insert_by lt x xs = x # xs"
  by (cases xs) auto

lemma sort_by_id: "sorted_wrt (\<lambda>x y. \<not> lt y x) xs \<Longrightarrow> sort_by lt xs = xs"
  by (induction xs) (auto simp: insert_by_sorted_id)

section \<open>Rows of a table\<close>

definition update_where :: "('r \<Rightarrow> bool) \<Rightarrow> ('r \<Rightarrow> 'r) \<Rightarrow> 'r list \<Rightarrow> 'r list" where
  "update_where p f rows = map (\<lambda>r. if p r then f r else r) rows"

definition count_where :: "('r \<Rightarrow> bool) \<Rightarrow> 'r list \<Rightarrow> nat" where
  "count_where p rows = length (filter p rows)"

lemma length_update_where [table_simps]: "length (update_where p f rows) = length rows"
  by (simp add: update_where_def)

lemma set_update_where [table_simps]:
  "set (update_where p f rows) = (\<lambda>r. if p r then f r else r) ` set rows"
  by (simp add: update_where_def)

lemma map_update_where:
  "(\<And>r. r \<in> set rows \<Longrightarrow> p r \<Longrightarrow> g (f r) = g r) \<Longrightarrow> map g (update_where p f rows) = map g rows"
  by (simp add: update_where_def)

lemma update_where_none:
  "(\<And>r. r \<in> set rows \<Longrightarrow> \<not> p r) \<Longrightarrow> update_where p f rows = rows"
  by (simp add: update_where_def map_idI)

lemma count_where_0_iff: "count_where p rows = 0 \<longleftrightarrow> (\<forall>r \<in> set rows. \<not> p r)"
  by (simp add: count_where_def filter_empty_conv)

lemma count_where_pos_iff: "0 < count_where p rows \<longleftrightarrow> (\<exists>r \<in> set rows. p r)"
  by (metis count_where_0_iff gr0I less_numeral_extra(3))

lemma count_where_Nil [simp]: "count_where p [] = 0"
  by (simp add: count_where_def)

lemma count_where_Cons [simp]:
  "count_where p (r # rows) = (if p r then Suc (count_where p rows) else count_where p rows)"
  by (simp add: count_where_def)

lemma count_where_append [simp]:
  "count_where p (xs @ ys) = count_where p xs + count_where p ys"
  by (simp add: count_where_def)

lemma count_where_mono:
  "(\<And>r. r \<in> set rows \<Longrightarrow> p r \<Longrightarrow> q r) \<Longrightarrow> count_where p rows \<le> count_where q rows"
  by (induction rows) auto

lemma count_where_update_le:
  "(\<And>r. r \<in> set rows \<Longrightarrow> p r \<Longrightarrow> q (f r) \<Longrightarrow> q r) \<Longrightarrow>
   count_where q (update_where p f rows) \<le> count_where q rows"
  by (induction rows) (auto simp: update_where_def)

lemma count_where_update_eq:
  "(\<And>r. r \<in> set rows \<Longrightarrow> p r \<Longrightarrow> q (f r) = q r) \<Longrightarrow>
   count_where q (update_where p f rows) = count_where q rows"
  by (induction rows) (auto simp: update_where_def)

text \<open>A statement that names one row by its primary key changes at most one count.\<close>

lemma count_where_update_key:
  assumes "distinct (map key rows)" "\<And>r. p r \<Longrightarrow> key r = k"
  shows "count_where q (update_where p f rows) \<le> Suc (count_where q rows)"
  using assms
proof (induction rows)
  case (Cons r rows)
  show ?case
  proof (cases "p r")
    case True
    then have "\<And>s. s \<in> set rows \<Longrightarrow> \<not> p s"
      using Cons.prems by (metis distinct.simps(2) image_eqI list.simps(9) set_map)
    then have "update_where p f rows = rows" by (rule update_where_none)
    then show ?thesis by (auto simp: update_where_def)
  next
    case False
    with Cons show ?thesis by (auto simp: update_where_def)
  qed
qed (simp add: update_where_def)

lemma count_where_key:
  assumes "distinct (map key rows)" "\<And>r. p r \<Longrightarrow> key r = k"
  shows "count_where p rows \<le> 1"
proof -
  have "distinct (map key (filter p rows))" using assms(1) by (rule distinct_map_filter)
  moreover have "set (map key (filter p rows)) \<subseteq> {k}" using assms(2) by auto
  ultimately have "length (map key (filter p rows)) \<le> 1"
    by (metis card_mono distinct_card finite.intros(1) finite_insert is_singletonI is_singleton_altdef)
  then show ?thesis by (simp add: count_where_def)
qed

text \<open>SELECT ... ORDER BY ... LIMIT 1: the first row of the sorted, filtered table.\<close>

definition select_first :: "('r \<Rightarrow> 'r \<Rightarrow> bool) \<Rightarrow> ('r \<Rightarrow> bool) \<Rightarrow> 'r list \<Rightarrow> 'r option" where
  "select_first lt p rows = (case sort_by lt (filter p rows) of [] \<Rightarrow> None | r # _ \<Rightarrow> Some r)"

lemma select_first_Some: "select_first lt p rows = Some r \<Longrightarrow> r \<in> set rows \<and> p r"
proof -
  assume "select_first lt p rows = Some r"
  then obtain rest where "sort_by lt (filter p rows) = r # rest"
    by (auto simp: select_first_def split: list.splits)
  then have "r \<in> set (sort_by lt (filter p rows))"
    by (metis list.set_intros(1))
  then show ?thesis by simp
qed

lemma select_first_None: "select_first lt p rows = None \<longleftrightarrow> (\<forall>r \<in> set rows. \<not> p r)"
proof -
  have "select_first lt p rows = None \<longleftrightarrow> sort_by lt (filter p rows) = []"
    by (auto simp: select_first_def split: list.splits)
  also have "... \<longleftrightarrow> filter p rows = []"
    by (metis length_0_conv length_sort_by)
  finally show ?thesis by (simp add: filter_empty_conv)
qed

lemma select_first_least:
  assumes "weak_order lt" "select_first lt p rows = Some r" "s \<in> set rows" "p s"
  shows "\<not> lt s r"
proof -
  obtain rest where s: "sort_by lt (filter p rows) = r # rest"
    using assms(2) by (auto simp: select_first_def split: list.splits)
  have "s \<in> set (sort_by lt (filter p rows))" using assms(3,4) by simp
  then have "s \<in> set (r # rest)" using s by simp
  moreover have "sorted_wrt (\<lambda>x y. \<not> lt y x) (r # rest)"
    using sorted_sort_by[OF assms(1), of "filter p rows"] s by simp
  ultimately show ?thesis using weak_order_asym[OF assms(1)] by auto
qed

section \<open>Optional values\<close>

definition opt_rel :: "('a \<Rightarrow> bool) \<Rightarrow> 'a option \<Rightarrow> bool" where
  "opt_rel p x = (case x of None \<Rightarrow> False | Some y \<Rightarrow> p y)"

lemma opt_rel_simps [simp]: "opt_rel p None = False" "opt_rel p (Some y) = p y"
  by (simp_all add: opt_rel_def)

lemma opt_rel_iff: "opt_rel p x \<longleftrightarrow> (\<exists>y. x = Some y \<and> p y)"
  by (cases x) auto

definition coalesce :: "'a option \<Rightarrow> 'a \<Rightarrow> 'a" where
  "coalesce x d = (case x of None \<Rightarrow> d | Some y \<Rightarrow> y)"

lemma coalesce_simps [simp]: "coalesce None d = d" "coalesce (Some y) d = y"
  by (simp_all add: coalesce_def)

end
