(* ===== verification/Text.thy ===== *)
theory Text
  imports Prelude
begin

text \<open>
  Byte strings as Go sees them.  A Go string is a sequence of bytes and a character of
  this theory is a byte, so len is length and the comparison of strings is the
  lexicographic order of the bytes.  The theory holds the parts of strings and strconv
  the components use (TrimSpace, HasPrefix, ReplaceAll with a one byte needle, Itoa,
  zero padded numbers) and their round trips.
\<close>

section \<open>Decimal digits\<close>

definition digit_char :: "nat \<Rightarrow> char" where "digit_char n = char_of (48 + n)"
definition is_digit :: "char \<Rightarrow> bool" where
  "is_digit c \<longleftrightarrow> 48 \<le> (of_char c :: nat) \<and> (of_char c :: nat) \<le> 57"
definition digit_val :: "char \<Rightarrow> nat" where "digit_val c = of_char c - 48"

lemma digit_char_props:
  assumes "n < 10"
  shows is_digit_digit_char: "is_digit (digit_char n)"
    and digit_val_digit_char: "digit_val (digit_char n) = n"
  using assms by (simp_all add: digit_char_def is_digit_def digit_val_def of_char_of)

lemma digit_val_less: "is_digit c \<Longrightarrow> digit_val c < 10"
  by (auto simp: is_digit_def digit_val_def)

lemma digit_char_digit_val: "is_digit c \<Longrightarrow> digit_char (digit_val c) = c"
  by (simp add: is_digit_def digit_val_def digit_char_def)

fun nat_str :: "nat \<Rightarrow> string" where
  "nat_str n = (if n < 10 then [digit_char n] else nat_str (n div 10) @ [digit_char (n mod 10)])"

declare nat_str.simps [simp del]

definition int_str :: "int \<Rightarrow> string" where
  "int_str i = (if i < 0 then CHR ''-'' # nat_str (nat (- i)) else nat_str (nat i))"

definition digits_val :: "string \<Rightarrow> nat" where
  "digits_val s = foldl (\<lambda>a c. 10 * a + digit_val c) 0 s"

lemma digits_val_Nil [simp]: "digits_val [] = 0"
  by (simp add: digits_val_def)

lemma digits_val_snoc [simp]: "digits_val (s @ [c]) = 10 * digits_val s + digit_val c"
  by (simp add: digits_val_def)

lemma digits_val_append: "digits_val (s @ t) = digits_val s * 10 ^ length t + digits_val t"
proof (induction t rule: rev_induct)
  case (snoc c t)
  have "digits_val (s @ t @ [c]) = digits_val ((s @ t) @ [c])" by simp
  with snoc show ?case by (simp only: digits_val_snoc) (simp add: algebra_simps)
qed simp

lemma digits_val_Cons: "digits_val (c # t) = digit_val c * 10 ^ length t + digits_val t"
  using digits_val_append[of "[c]" t] by (simp add: digits_val_def)

lemma digits_val_less: "list_all is_digit s \<Longrightarrow> digits_val s < 10 ^ length s"
proof (induction s rule: rev_induct)
  case (snoc c s)
  then have "digits_val s < 10 ^ length s" "digit_val c < 10" by (simp_all add: digit_val_less)
  then show ?case by simp
qed simp

lemma nat_str_digits: "list_all is_digit (nat_str n)"
proof (induction n rule: nat_str.induct)
  case (1 n)
  then show ?case
    by (subst nat_str.simps) (auto intro: is_digit_digit_char)
qed

lemma nat_str_nonempty [simp]: "nat_str n \<noteq> []"
  by (subst nat_str.simps) simp

lemma digits_val_nat_str [simp]: "digits_val (nat_str n) = n"
proof (induction n rule: nat_str.induct)
  case (1 n)
  show ?case
  proof (cases "n < 10")
    case True
    then show ?thesis
      by (subst nat_str.simps) (simp add: digits_val_def digit_val_digit_char)
  next
    case False
    with 1 have "digits_val (nat_str (n div 10)) = n div 10" by simp
    then have "digits_val (nat_str (n div 10) @ [digit_char (n mod 10)]) = n"
      by (simp only: digits_val_snoc) (simp add: digit_val_digit_char)
    with False show ?thesis by (simp add: nat_str.simps[of n])
  qed
qed

lemma nat_str_inj: "nat_str m = nat_str n \<longleftrightarrow> m = n"
  by (metis digits_val_nat_str)

section \<open>Numbers of a fixed width\<close>

text \<open>time.Format pads a field with zeros on the left up to its width.\<close>

definition pad0 :: "nat \<Rightarrow> nat \<Rightarrow> string" where
  "pad0 w n = replicate (w - length (nat_str n)) CHR ''0'' @ nat_str n"

fun fix_digits :: "nat \<Rightarrow> nat \<Rightarrow> string" where
  "fix_digits 0 n = []"
| "fix_digits (Suc w) n = fix_digits w (n div 10) @ [digit_char (n mod 10)]"

lemma length_fix_digits [simp]: "length (fix_digits w n) = w"
  by (induction w arbitrary: n) auto

lemma fix_digits_digits: "list_all is_digit (fix_digits w n)"
  by (induction w arbitrary: n) (auto intro: is_digit_digit_char)

lemma digits_val_fix_digits: "digits_val (fix_digits w n) = n mod 10 ^ w"
proof (induction w arbitrary: n)
  case (Suc w)
  have "digits_val (fix_digits (Suc w) n) = 10 * (n div 10 mod 10 ^ w) + n mod 10"
    by (simp add: Suc.IH digit_val_digit_char)
  also have "... = n mod 10 ^ Suc w"
    by (simp add: mod_mult2_eq)
  finally show ?case .
qed simp

lemma digit_char_0: "digit_char 0 = CHR ''0''"
  by code_simp

lemma fix_digits_0: "fix_digits w 0 = replicate w CHR ''0''"
  by (induction w) (simp_all add: digit_char_0 replicate_append_same)

lemma nat_str_length: "n < 10 ^ w \<Longrightarrow> 0 < w \<Longrightarrow> length (nat_str n) \<le> w"
proof (induction n arbitrary: w rule: nat_str.induct)
  case (1 n)
  show ?case
  proof (cases "n < 10")
    case True
    with 1(3) show ?thesis by (simp add: nat_str.simps[of n])
  next
    case False
    with 1(2,3) obtain v where w: "w = Suc v" "0 < v"
      by (cases w; cases "w - 1") auto
    with 1(2) have "n div 10 < 10 ^ v" by (simp add: less_mult_imp_div_less mult.commute)
    with 1(1) False w have "length (nat_str (n div 10)) \<le> v" by blast
    with False w show ?thesis by (simp add: nat_str.simps[of n])
  qed
qed

lemma fix_digits_pad:
  "length (nat_str n) \<le> w \<Longrightarrow>
   fix_digits w n = replicate (w - length (nat_str n)) CHR ''0'' @ nat_str n"
proof (induction n arbitrary: w rule: nat_str.induct)
  case (1 n)
  have "0 < w" using 1(2) nat_str_nonempty[of n] by (cases w) auto
  then obtain v where w: "w = Suc v" by (cases w) auto
  show ?case
  proof (cases "n < 10")
    case True
    then have "nat_str n = [digit_char n]" by (simp add: nat_str.simps[of n])
    with True w show ?thesis by (simp add: fix_digits_0)
  next
    case False
    then have s: "nat_str n = nat_str (n div 10) @ [digit_char (n mod 10)]"
      by (simp add: nat_str.simps[of n])
    with 1(2) w have "length (nat_str (n div 10)) \<le> v" by simp
    from 1(1)[OF False this] show ?thesis by (simp add: w s)
  qed
qed

lemma pad0_fix: "n < 10 ^ w \<Longrightarrow> 0 < w \<Longrightarrow> pad0 w n = fix_digits w n"
  by (simp add: pad0_def fix_digits_pad nat_str_length)

lemma fix_digits_digits_val: "list_all is_digit s \<Longrightarrow> fix_digits (length s) (digits_val s) = s"
proof (induction s rule: rev_induct)
  case (snoc c s)
  then have "digit_val c < 10" by (simp add: digit_val_less)
  with snoc show ?case by (simp add: digit_char_digit_val)
qed simp

section \<open>The order of strings\<close>

lemma append_less_iff:
  fixes xs ys :: "'a::linorder list"
  assumes "length xs = length ys"
  shows "xs @ us < ys @ vs \<longleftrightarrow> xs < ys \<or> xs = ys \<and> us < vs"
  using assms by (induction xs ys rule: list_induct2) auto

lemma digit_char_less: "m < n \<Longrightarrow> n < 10 \<Longrightarrow> digit_char m < digit_char n"
  by (simp add: digit_char_def less_char_def of_char_of)

lemma fix_digits_mono: "m < n \<Longrightarrow> n < 10 ^ w \<Longrightarrow> fix_digits w m < fix_digits w n"
proof (induction w arbitrary: m n)
  case (Suc w)
  have d: "m div 10 < n div 10 \<or> m div 10 = n div 10 \<and> m mod 10 < n mod 10"
  proof -
    have "m div 10 \<le> n div 10" using Suc.prems(1) by (simp add: div_le_mono)
    moreover have "m mod 10 < n mod 10" if "m div 10 = n div 10"
      using that Suc.prems(1) by (metis div_mult_mod_eq add_less_cancel_left)
    ultimately show ?thesis by linarith
  qed
  have "n div 10 < 10 ^ w" using Suc.prems(2) by (simp add: less_mult_imp_div_less mult.commute)
  with d Suc.IH have
    "fix_digits w (m div 10) < fix_digits w (n div 10) \<or>
     m div 10 = n div 10 \<and> digit_char (m mod 10) < digit_char (n mod 10)"
    by (auto simp: digit_char_less)
  then show ?case by (auto simp: append_less_iff)
qed simp

section \<open>White space\<close>

text \<open>
  strings.TrimSpace removes the code points of unicode.White_Space at both ends; these are
  their UTF-8 encodings.
\<close>

definition utf8 :: "nat list \<Rightarrow> string" where "utf8 bs = map char_of bs"

definition spaces :: "string list" where
  "spaces = map utf8 ([[9], [10], [11], [12], [13], [32], [194, 133], [194, 160],
     [225, 154, 128]] @ map (\<lambda>b. [226, 128, b]) [128, 129, 130, 131, 132, 133, 134, 135, 136, 137,
     138, 168, 169, 175] @ [[226, 129, 159], [227, 128, 128]])"

definition starts_with :: "string \<Rightarrow> string \<Rightarrow> bool" where
  "starts_with p s \<longleftrightarrow> take (length p) s = p"

definition strip_one :: "string list \<Rightarrow> string \<Rightarrow> string option" where
  "strip_one ws s = (case filter (\<lambda>w. starts_with w s) ws of
     [] \<Rightarrow> None | w # _ \<Rightarrow> Some (drop (length w) s))"

lemma strip_one_shorter:
  assumes "strip_one ws s = Some t" "[] \<notin> set ws"
  shows "length t < length s"
proof -
  obtain w rest where f: "filter (\<lambda>w. starts_with w s) ws = w # rest" and t: "t = drop (length w) s"
    using assms(1) by (auto simp: strip_one_def split: list.splits)
  have "w \<in> set (filter (\<lambda>w. starts_with w s) ws)" using f by simp
  then have "take (length w) s = w" "w \<noteq> []" using assms(2) by (auto simp: starts_with_def)
  then show ?thesis using t by (metis append_take_drop_id length_append length_greater_0_conv less_add_same_cancel2)
qed

function trim_with :: "string list \<Rightarrow> string \<Rightarrow> string" where
  "trim_with ws s = (if [] \<in> set ws then s else
     (case strip_one ws s of None \<Rightarrow> s | Some t \<Rightarrow> trim_with ws t))"
  by pat_completeness auto
termination
  by (relation "measure (\<lambda>(ws, s). length s)") (auto simp: strip_one_shorter)

declare trim_with.simps [simp del]

definition trim_left :: "string \<Rightarrow> string" where "trim_left s = trim_with spaces s"
definition trim_right :: "string \<Rightarrow> string" where
  "trim_right s = rev (trim_with (map rev spaces) (rev s))"
definition trim_space :: "string \<Rightarrow> string" where "trim_space s = trim_right (trim_left s)"

lemma spaces_nonempty: "[] \<notin> set spaces" "[] \<notin> set (map rev spaces)"
  by (auto simp: spaces_def utf8_def)

lemma trim_with_fix: "[] \<notin> set ws \<Longrightarrow> strip_one ws (trim_with ws s) = None"
proof (induction ws s rule: trim_with.induct)
  case (1 ws s)
  then show ?case by (cases "strip_one ws s") (auto simp: trim_with.simps[of ws s])
qed

lemma trim_with_id: "strip_one ws s = None \<Longrightarrow> trim_with ws s = s"
  by (simp add: trim_with.simps[of ws s])

lemma trim_with_suffix: "\<exists>p. s = p @ trim_with ws s"
proof (induction ws s rule: trim_with.induct)
  case (1 ws s)
  show ?case
  proof (cases "[] \<in> set ws \<or> strip_one ws s = None")
    case False
    then obtain t where t: "strip_one ws s = Some t" by auto
    with 1 False obtain p where "t = p @ trim_with ws t" by blast
    moreover have "\<exists>w::string. t = drop (length w) s"
    proof (cases "filter (\<lambda>w. starts_with w s) ws")
      case Nil
      with t show ?thesis by (simp add: strip_one_def)
    next
      case (Cons w rest)
      with t have "t = drop (length w) s" by (simp add: strip_one_def)
      then show ?thesis by (rule exI)
    qed
    then obtain w :: string where "s = take (length w) s @ t" by (metis append_take_drop_id)
    moreover from False t have "trim_with ws s = trim_with ws t"
      by (simp add: trim_with.simps[of ws s])
    ultimately have "s = (take (length w) s @ p) @ trim_with ws s" by (metis append_assoc)
    then show ?thesis by blast
  qed (auto simp: trim_with.simps[of ws s])
qed

lemma strip_one_None_prefix:
  assumes "strip_one ws (s @ t) = None" shows "strip_one ws s = None"
proof -
  have "\<not> starts_with w s" if "w \<in> set ws" for w
  proof
    assume "starts_with w s"
    then have "starts_with w (s @ t)"
      by (metis length_take min_def nat_le_linear starts_with_def take_all take_append append_Nil2 diff_is_0_eq take0)
    moreover have "\<not> starts_with w (s @ t)"
      using assms that by (auto simp: strip_one_def filter_empty_conv split: list.splits)
    ultimately show False by contradiction
  qed
  then show ?thesis by (simp add: strip_one_def)
qed

lemma trim_space_idem [simp]: "trim_space (trim_space s) = trim_space s"
proof -
  let ?l = "trim_left s" and ?r = "trim_space s"
  obtain p where "rev ?l = p @ trim_with (map rev spaces) (rev ?l)"
    using trim_with_suffix by blast
  then have "?l = ?r @ rev p"
    by (metis rev_append rev_rev_ident trim_right_def trim_space_def)
  then have "strip_one spaces (?r @ rev p) = None"
    by (metis spaces_nonempty(1) trim_left_def trim_with_fix)
  then have "trim_left ?r = ?r"
    by (simp add: strip_one_None_prefix trim_left_def trim_with_id)
  moreover have "trim_right ?r = ?r"
    by (simp only: trim_right_def trim_space_def rev_rev_ident
        trim_with_id[OF trim_with_fix[OF spaces_nonempty(2)]])
  ultimately show ?thesis by (simp add: trim_space_def)
qed

lemma length_trim_space: "length (trim_space s) \<le> length s"
proof -
  have l: "length (trim_with ws t) \<le> length t" for ws t
    using trim_with_suffix[of t ws] by (metis length_append le_add2)
  show ?thesis
    using l[of spaces s] l[of "map rev spaces" "rev (trim_left s)"]
    by (simp add: trim_space_def trim_left_def trim_right_def)
qed

section \<open>Evaluation\<close>

text \<open>Numbers are evaluated on integers, without counting.\<close>

definition int_digit :: "int \<Rightarrow> char" where
  "int_digit i = (if i = 1 then CHR ''1'' else if i = 2 then CHR ''2'' else if i = 3 then CHR ''3'' else if i = 4 then CHR ''4''
     else if i = 5 then CHR ''5'' else if i = 6 then CHR ''6'' else if i = 7 then CHR ''7'' else if i = 8 then CHR ''8''
     else if i = 9 then CHR ''9'' else CHR ''0'')"

function pos_str :: "int \<Rightarrow> string" where
  "pos_str i = (if i < 10 then [int_digit i] else pos_str (i div 10) @ [int_digit (i mod 10)])"
  by pat_completeness auto
termination by (relation "measure nat") auto

declare pos_str.simps [simp del]

lemma int_digit_nat: "n < 10 \<Longrightarrow> digit_char n = int_digit (int n)"
proof -
  assume "n < 10"
  then have "n \<in> set [0, 1, 2, 3, 4, 5, 6, 7, 8, 9]" by auto
  moreover have "list_all (\<lambda>n. digit_char n = int_digit (int n)) [0, 1, 2, 3, 4, 5, 6, 7, 8, 9]" by code_simp
  ultimately show ?thesis by (simp only: list_all_iff)
qed

lemma nat_str_int: "nat_str n = pos_str (int n)"
proof (induction n rule: nat_str.induct)
  case (1 n)
  then show ?case
    by (subst nat_str.simps, subst pos_str.simps) (simp add: int_digit_nat zdiv_int zmod_int)
qed

lemma nat_str_code [code_unfold]: "nat_str (nat i) = pos_str (max 0 i)"
  by (simp add: nat_str_int)

lemma pad0_code [code_unfold]: "pad0 w (nat i) = (let t = pos_str (max 0 i) in replicate (w - length t) CHR ''0'' @ t)"
  by (simp add: nat_str_int pad0_def Let_def)

definition digit_int :: "char \<Rightarrow> int" where "digit_int c = max 0 (of_char c - 48)"

definition digits_int :: "string \<Rightarrow> int" where "digits_int s = foldl (\<lambda>a c. 10 * a + digit_int c) 0 s"

lemma int_of_char: "int (of_char c) = of_char c"
  by (cases c) simp

lemma digits_val_code [code_unfold]: "int (digits_val s) = digits_int s"
  by (induction s rule: rev_induct)
    (auto simp: digits_int_def digit_int_def digit_val_def simp flip: int_of_char)

lemma is_digit_code [code]: "is_digit c \<longleftrightarrow> 48 \<le> (of_char c :: int) \<and> (of_char c :: int) \<le> 57"
  by (simp add: is_digit_def flip: int_of_char)

lemma spaces_code [code]: "spaces = [
     [CHR 0x09], [CHR 0x0A], [CHR 0x0B], [CHR 0x0C], [CHR 0x0D], [CHR 0x20],
     [CHR 0xC2, CHR 0x85], [CHR 0xC2, CHR 0xA0], [CHR 0xE1, CHR 0x9A, CHR 0x80], [CHR 0xE2, CHR 0x80, CHR 0x80], [CHR 0xE2, CHR 0x80, CHR 0x81], [CHR 0xE2, CHR 0x80, CHR 0x82],
     [CHR 0xE2, CHR 0x80, CHR 0x83], [CHR 0xE2, CHR 0x80, CHR 0x84], [CHR 0xE2, CHR 0x80, CHR 0x85], [CHR 0xE2, CHR 0x80, CHR 0x86], [CHR 0xE2, CHR 0x80, CHR 0x87], [CHR 0xE2, CHR 0x80, CHR 0x88],
     [CHR 0xE2, CHR 0x80, CHR 0x89], [CHR 0xE2, CHR 0x80, CHR 0x8A], [CHR 0xE2, CHR 0x80, CHR 0xA8], [CHR 0xE2, CHR 0x80, CHR 0xA9], [CHR 0xE2, CHR 0x80, CHR 0xAF], [CHR 0xE2, CHR 0x81, CHR 0x9F],
     [CHR 0xE3, CHR 0x80, CHR 0x80]]"
  by (simp add: spaces_def utf8_def char_of_def bit_Suc_0_iff)

end
