(* ===== verification/Calendar.thy ===== *)
theory Calendar
  imports Text
begin

text \<open>
  The part of Go's time package the program uses.  A calendar day is the number of days
  since 0001-01-01 (a Monday), an instant a number of nanoseconds since the Unix epoch, and
  a location the offset in nanoseconds that it adds to UTC: the only locations the program
  accepts are UTC and Asia/Bangkok, which is seven hours ahead of UTC with no daylight saving
  time.  time.Date normalises an overflowing month or day, AddDate is built on it, and
  time.DateOnly is the layout 2006-01-02, whose order as a string is the order of the days
  (date_format_less_iff).
\<close>

section \<open>The Gregorian calendar\<close>

type_synonym day = int
type_synonym location = int

definition is_leap :: "int \<Rightarrow> bool" where
  "is_leap y \<longleftrightarrow> 4 dvd y \<and> (\<not> 100 dvd y \<or> 400 dvd y)"

definition days_before_year :: "int \<Rightarrow> int" where
  "days_before_year y = 365 * (y - 1) + (y - 1) div 4 - (y - 1) div 100 + (y - 1) div 400"

definition days_before_month :: "bool \<Rightarrow> int \<Rightarrow> int" where
  "days_before_month leap m = (let l = (if leap then 1 else 0) in
     if m \<le> 1 then 0 else if m = 2 then 31 else if m = 3 then 59 + l else if m = 4 then 90 + l
     else if m = 5 then 120 + l else if m = 6 then 151 + l else if m = 7 then 181 + l
     else if m = 8 then 212 + l else if m = 9 then 243 + l else if m = 10 then 273 + l
     else if m = 11 then 304 + l else if m = 12 then 334 + l else 365 + l)"

definition days_in_month :: "bool \<Rightarrow> int \<Rightarrow> int" where
  "days_in_month leap m = days_before_month leap (m + 1) - days_before_month leap m"

definition civil_day :: "int \<Rightarrow> int \<Rightarrow> int \<Rightarrow> day" where
  "civil_day y m d = days_before_year y + days_before_month (is_leap y) m + (d - 1)"

definition year_of :: "day \<Rightarrow> int" where
  "year_of n = (let y = (400 * n) div 146097 + 1 in
     if n < days_before_year y then y - 1
     else if days_before_year (y + 1) \<le> n then y + 1 else y)"

definition month_of_yday :: "bool \<Rightarrow> int \<Rightarrow> int" where
  "month_of_yday leap n = (let l = (if leap then 1 else 0) in
     if n < 31 then 1 else if n < 59 + l then 2 else if n < 90 + l then 3
     else if n < 120 + l then 4 else if n < 151 + l then 5 else if n < 181 + l then 6
     else if n < 212 + l then 7 else if n < 243 + l then 8 else if n < 273 + l then 9
     else if n < 304 + l then 10 else if n < 334 + l then 11 else 12)"

definition yday_of :: "day \<Rightarrow> int" where "yday_of n = n - days_before_year (year_of n)"
definition month_of :: "day \<Rightarrow> int" where
  "month_of n = month_of_yday (is_leap (year_of n)) (yday_of n)"
definition mday_of :: "day \<Rightarrow> int" where
  "mday_of n = yday_of n - days_before_month (is_leap (year_of n)) (month_of n) + 1"

text \<open>time.Weekday numbers the days from Sunday = 0; day 0 is a Monday.\<close>

definition weekday :: "day \<Rightarrow> int" where "weekday n = (n + 1) mod 7"

lemma div_pred:
  fixes y k :: int
  assumes "0 < k" shows "y div k = (y - 1) div k + (if k dvd y then 1 else 0)"
proof (cases "k dvd y")
  case True
  then obtain m where m: "y = k * m" by blast
  have "(k * m - 1) div k = m - 1"
    using assms by (intro int_div_pos_eq[where r = "k - 1"]) (simp_all add: algebra_simps)
  with True m assms show ?thesis by simp
next
  case False
  then have "y mod k \<noteq> 0" by (simp add: mod_eq_0_iff_dvd)
  moreover have "0 \<le> y mod k" "y mod k < k" using assms by simp_all
  ultimately have "(y - 1) div k = y div k"
    by (intro int_div_pos_eq[where r = "y mod k - 1"]) (auto simp: algebra_simps)
  with False show ?thesis by simp
qed

lemma leap_sum:
  fixes a b c :: int
  assumes "a' = a + (if P then 1 else 0)" "b' = b + (if Q then 1 else 0)" "c' = c + (if R then 1 else 0)"
    and "R \<Longrightarrow> Q" "Q \<Longrightarrow> P"
  shows "365 * y + a' - b' + c' = 365 * (y - 1) + a - b + c + (if P \<and> (\<not> Q \<or> R) then 366 else 365)"
  using assms by (cases P; cases Q; cases R) auto

lemma days_before_year_step:
  "days_before_year (y + 1) = days_before_year y + (if is_leap y then 366 else 365)"
proof -
  have d4: "y div 4 = (y - 1) div 4 + (if 4 dvd y then 1 else 0)"
    and d100: "y div 100 = (y - 1) div 100 + (if 100 dvd y then 1 else 0)"
    and d400: "y div 400 = (y - 1) div 400 + (if 400 dvd y then 1 else 0)"
    by (rule div_pred, simp)+
  have "(100::int) dvd 400" "(4::int) dvd 100" by simp_all
  then have imp: "400 dvd y \<Longrightarrow> 100 dvd y" "100 dvd y \<Longrightarrow> 4 dvd y" by (blast intro: dvd_trans)+
  show ?thesis
    unfolding days_before_year_def is_leap_def add_diff_cancel_right'
    by (rule leap_sum[OF d4 d100 d400 imp])
qed

lemma days_before_year_less: "x < y \<Longrightarrow> days_before_year x + 365 \<le> days_before_year y"
proof (induction y rule: int_gr_induct[where k = x])
  case (step y)
  then show ?case by (simp add: days_before_year_step)
qed (simp_all add: days_before_year_step)

lemma days_before_year_mono: "x \<le> y \<Longrightarrow> days_before_year x \<le> days_before_year y"
  using days_before_year_less[of x y] by (cases "x = y") auto

lemma year_of_bounds: "days_before_year (year_of n) \<le> n \<and> n < days_before_year (year_of n + 1)"
proof -
  define y where "y = (400 * n) div 146097 + 1"
  have q: "146097 * (y - 1) \<le> 400 * n" "400 * n < 146097 * y"
  proof -
    define q r where "q = (400 * n) div 146097" and "r = (400 * n) mod 146097"
    have "y - 1 = q" by (simp add: y_def q_def)
    moreover have "146097 * q + r = 400 * n" unfolding q_def r_def by (rule mult_div_mod_eq)
    moreover have "0 \<le> r" "r < 146097" by (simp_all add: r_def)
    ultimately show "146097 * (y - 1) \<le> 400 * n" "400 * n < 146097 * y" by (simp_all add: algebra_simps)
  qed
  have lo: "days_before_year (y - 1) \<le> n"
  proof -
    have "4 * ((y - 2) div 4) \<le> y - 2" "100 * ((y - 2) div 100) > y - 102"
      "400 * ((y - 2) div 400) \<le> y - 2" by linarith+
    then show ?thesis using q by (simp add: days_before_year_def)
  qed
  have hi: "n < days_before_year (y + 2)"
  proof -
    have "4 * ((y + 1) div 4) > y + 1 - 4" "100 * ((y + 1) div 100) \<le> y + 1"
      "400 * ((y + 1) div 400) > y + 1 - 400" by linarith+
    then show ?thesis using q by (simp add: days_before_year_def)
  qed
  have "year_of n = (if n < days_before_year y then y - 1
     else if days_before_year (y + 1) \<le> n then y + 1 else y)"
    by (simp add: year_of_def y_def Let_def)
  with lo hi show ?thesis by (auto simp: add.commute)
qed

lemma year_of_unique:
  assumes "days_before_year y \<le> n" "n < days_before_year (y + 1)"
  shows "year_of n = y"
proof (rule ccontr)
  assume "year_of n \<noteq> y"
  then consider "year_of n + 1 \<le> y" | "y + 1 \<le> year_of n" by linarith
  then show False
    using assms year_of_bounds[of n] days_before_year_mono by cases fastforce+
qed

lemma yday_of_bounds: "0 \<le> yday_of n \<and> yday_of n < (if is_leap (year_of n) then 366 else 365)"
  using year_of_bounds[of n] by (simp add: yday_of_def days_before_year_step)

lemma month_bounds: "1 \<le> month_of n \<and> month_of n \<le> 12"
  by (simp add: month_of_def month_of_yday_def Let_def)

lemma month_of_yday_span:
  assumes "0 \<le> n" "n < (if l then 366 else 365)"
  shows "days_before_month l (month_of_yday l n) \<le> n \<and> n < days_before_month l (month_of_yday l n + 1)"
  using assms by (cases l) (simp_all add: month_of_yday_def days_before_month_def)

lemma mday_bounds: "1 \<le> mday_of n \<and> mday_of n \<le> days_in_month (is_leap (year_of n)) (month_of n)"
  using month_of_yday_span[of "yday_of n" "is_leap (year_of n)"] yday_of_bounds[of n]
  by (simp add: mday_of_def month_of_def days_in_month_def)

lemma civil_day_of: "civil_day (year_of n) (month_of n) (mday_of n) = n"
  by (simp add: civil_day_def mday_of_def yday_of_def)

definition valid_civil :: "int \<Rightarrow> int \<Rightarrow> int \<Rightarrow> bool" where
  "valid_civil y m d \<longleftrightarrow> 1 \<le> m \<and> m \<le> 12 \<and> 1 \<le> d \<and> d \<le> days_in_month (is_leap y) m"

lemma valid_civil_of: "valid_civil (year_of n) (month_of n) (mday_of n)"
  using month_bounds[of n] mday_bounds[of n] by (simp add: valid_civil_def)

lemma month_cases:
  assumes "1 \<le> (m::int)" "m \<le> 12"
  shows "m = 1 \<or> m = 2 \<or> m = 3 \<or> m = 4 \<or> m = 5 \<or> m = 6 \<or> m = 7 \<or> m = 8 \<or> m = 9 \<or> m = 10 \<or> m = 11 \<or> m = 12"
  using assms by presburger

lemma yday_of_month:
  assumes "valid_civil y m d"
  shows "0 \<le> days_before_month (is_leap y) m + (d - 1)"
    and "days_before_month (is_leap y) m + (d - 1) < (if is_leap y then 366 else 365)"
    and "month_of_yday (is_leap y) (days_before_month (is_leap y) m + (d - 1)) = m"
proof -
  have "0 \<le> days_before_month l m + (d - 1) \<and> days_before_month l m + (d - 1) < (if l then 366 else 365) \<and>
      month_of_yday l (days_before_month l m + (d - 1)) = m"
    if "1 \<le> m" "m \<le> 12" "1 \<le> d" "d \<le> days_in_month l m" for l
    using month_cases[OF that(1,2)] that(3,4)
    by (cases l; elim disjE; hypsubst)
       (simp_all add: days_in_month_def days_before_month_def month_of_yday_def)
  then show "0 \<le> days_before_month (is_leap y) m + (d - 1)"
    and "days_before_month (is_leap y) m + (d - 1) < (if is_leap y then 366 else 365)"
    and "month_of_yday (is_leap y) (days_before_month (is_leap y) m + (d - 1)) = m"
    using assms unfolding valid_civil_def by blast+
qed

lemma civil_of_day:
  assumes "valid_civil y m d"
  shows "year_of (civil_day y m d) = y" "month_of (civil_day y m d) = m" "mday_of (civil_day y m d) = d"
proof -
  note b = yday_of_month[OF assms]
  show y: "year_of (civil_day y m d) = y"
    using b(1,2) by (intro year_of_unique) (simp_all add: civil_day_def days_before_year_step)
  then have yd: "yday_of (civil_day y m d) = days_before_month (is_leap y) m + (d - 1)"
    by (simp add: yday_of_def civil_day_def)
  then show m: "month_of (civil_day y m d) = m"
    using b(3) y by (simp add: month_of_def)
  show "mday_of (civil_day y m d) = d" by (simp add: mday_of_def y yd m)
qed

lemma days_before_month_step: "days_before_month l m \<le> days_before_month l (m + 1)"
  by (cases "m \<in> {1,2,3,4,5,6,7,8,9,10,11,12}") (auto simp: days_before_month_def)

lemma days_before_month_mono: "b < b' \<Longrightarrow> days_before_month l (b + 1) \<le> days_before_month l b'"
proof (induction b' rule: int_gr_induct[where k = b])
  case (step i)
  then show ?case using days_before_month_step[of l i] by simp
qed simp

lemma civil_day_less_iff:
  assumes "valid_civil y m d" "valid_civil y' m' d'"
  shows "civil_day y m d < civil_day y' m' d' \<longleftrightarrow> y < y' \<or> y = y' \<and> (m < m' \<or> m = m' \<and> d < d')"
proof -
  have lt: "civil_day a b c < civil_day a' b' c'"
    if "valid_civil a b c" "valid_civil a' b' c'" "a < a' \<or> a = a' \<and> (b < b' \<or> b = b' \<and> c < c')"
    for a b c a' b' c'
    using that(3)
  proof (elim disjE conjE)
    assume "a < a'"
    then have "days_before_year (a + 1) \<le> days_before_year a'" by (simp add: days_before_year_mono)
    then show ?thesis
      using yday_of_month(2)[OF that(1)] yday_of_month(1)[OF that(2)]
      by (simp add: civil_day_def days_before_year_step split: if_splits)
  next
    assume "a = a'" "b < b'"
    then have "days_before_month (is_leap a) (b + 1) \<le> days_before_month (is_leap a) b'"
      using days_before_month_mono[of b b'] by simp
    moreover have "c \<le> days_before_month (is_leap a) (b + 1) - days_before_month (is_leap a) b" "1 \<le> c'"
      using that(1,2) by (simp_all add: valid_civil_def days_in_month_def)
    ultimately show ?thesis using \<open>a = a'\<close> by (simp add: civil_day_def)
  qed (simp add: civil_day_def)
  have irr: "\<not> civil_day y m d < civil_day y m d" by simp
  show ?thesis
  proof
    assume less: "civil_day y m d < civil_day y' m' d'"
    show "y < y' \<or> y = y' \<and> (m < m' \<or> m = m' \<and> d < d')"
    proof (rule ccontr)
      assume "\<not> ?thesis"
      then have "y' < y \<or> y' = y \<and> (m' < m \<or> m' = m \<and> d' < d) \<or> y' = y \<and> m' = m \<and> d' = d" by auto
      then show False using lt[OF assms(2,1)] less by (elim disjE) auto
    qed
  qed (rule lt[OF assms])
qed

section \<open>time.Date, AddDate and durations\<close>

definition go_date :: "int \<Rightarrow> int \<Rightarrow> int \<Rightarrow> day" where
  "go_date y m d = civil_day (y + (m - 1) div 12) ((m - 1) mod 12 + 1) 1 + (d - 1)"

definition add_date :: "day \<Rightarrow> int \<Rightarrow> int \<Rightarrow> int \<Rightarrow> day" where
  "add_date n years months days = go_date (year_of n + years) (month_of n + months) (mday_of n + days)"

lemma go_date_valid: "1 \<le> m \<Longrightarrow> m \<le> 12 \<Longrightarrow> go_date y m d = civil_day y m d"
  by (simp add: go_date_def civil_day_def div_pos_pos_trivial)

lemma go_date_of [simp]: "go_date (year_of n) (month_of n) (mday_of n) = n"
  using month_bounds[of n] by (simp add: go_date_valid civil_day_of)

lemma add_date_days [simp]: "add_date n 0 0 k = n + k"
proof -
  have "go_date (year_of n) (month_of n) (mday_of n + k) = go_date (year_of n) (month_of n) (mday_of n) + k"
    by (simp add: go_date_def)
  then show ?thesis by (simp add: add_date_def)
qed

text \<open>
  to.Sub(from) of two midnights is a whole number of days, saturated at the largest
  duration, 9223372036854775807 nanoseconds: 106751 whole days after the division by 24
  hours and the truncation of int(...).
\<close>

definition days_between :: "day \<Rightarrow> day \<Rightarrow> int" where
  "days_between from to = max (-106751) (min 106751 (to - from))"

definition day_ns :: int where "day_ns = 86400000000000"
definition epoch_day :: day where "epoch_day = 719162"

definition local_day :: "location \<Rightarrow> instant \<Rightarrow> day" where
  "local_day loc t = (t + loc) div day_ns + epoch_day"

text \<open>Nanoseconds since local midnight, and time.Date with a clock time in a location.\<close>

definition local_clock :: "location \<Rightarrow> instant \<Rightarrow> int" where
  "local_clock loc t = (t + loc) mod day_ns"

definition local_instant :: "location \<Rightarrow> day \<Rightarrow> int \<Rightarrow> instant" where
  "local_instant loc n clock = (n - epoch_day) * day_ns + clock - loc"

lemma local_instant_inverse:
  assumes "0 \<le> clock" "clock < day_ns"
  shows "local_day loc (local_instant loc n clock) = n"
    and "local_clock loc (local_instant loc n clock) = clock"
proof -
  have "(n - epoch_day) * day_ns + clock - loc + loc = clock + (n - epoch_day) * day_ns" by simp
  moreover have "(clock + (n - epoch_day) * day_ns) div day_ns = n - epoch_day"
    "(clock + (n - epoch_day) * day_ns) mod day_ns = clock"
    using assms by simp_all
  ultimately show "local_day loc (local_instant loc n clock) = n"
    and "local_clock loc (local_instant loc n clock) = clock"
    by (simp_all only: local_day_def local_clock_def local_instant_def)
qed

lemma local_instant_of: "local_instant loc (local_day loc t) (local_clock loc t) = t"
  by (simp add: local_day_def local_clock_def local_instant_def)

lemma local_clock_bounds: "0 \<le> local_clock loc t \<and> local_clock loc t < day_ns"
  by (simp add: local_clock_def day_ns_def)

definition utc :: location where "utc = 0"
definition bangkok :: location where "bangkok = 25200000000000"

definition load_location :: "string \<Rightarrow> location option" where
  "load_location name = (if name = ''Asia/Bangkok'' then Some bangkok
     else if name = ''UTC'' \<or> name = '''' then Some utc else None)"

section \<open>The layout 2006-01-02\<close>

definition format_date :: "day \<Rightarrow> string" where
  "format_date n = (let y = year_of n in
     (if y < 0 then ''-'' @ pad0 4 (nat (- y)) else pad0 4 (nat y))
     @ ''-'' @ pad0 2 (nat (month_of n)) @ ''-'' @ pad0 2 (nat (mday_of n)))"

definition parse_date :: "string \<Rightarrow> day option" where
  "parse_date s = (
     let y = take 4 s; m = take 2 (drop 5 s); d = take 2 (drop 8 s);
         yv = int (digits_val y); mv = int (digits_val m); dv = int (digits_val d)
     in if length s = 10 \<and> list_all is_digit (y @ m @ d) \<and> s ! 4 = CHR ''-'' \<and> s ! 7 = CHR ''-''
           \<and> valid_civil yv mv dv
        then Some (civil_day yv mv dv) else None)"

definition date_in_range :: "day \<Rightarrow> bool" where
  "date_in_range n \<longleftrightarrow> 0 \<le> year_of n \<and> year_of n \<le> 9999"

lemma days_in_month_le: "1 \<le> m \<Longrightarrow> m \<le> 12 \<Longrightarrow> days_in_month l m \<le> 31"
  using month_cases[of m] by (auto simp: days_in_month_def days_before_month_def Let_def)

lemma format_date_fix:
  assumes "date_in_range n"
  shows "format_date n = fix_digits 4 (nat (year_of n)) @ ''-'' @
     fix_digits 2 (nat (month_of n)) @ ''-'' @ fix_digits 2 (nat (mday_of n))"
proof -
  have "mday_of n \<le> 31"
    using mday_bounds[of n] month_bounds[of n] days_in_month_le by (meson order_trans)
  then have "nat (year_of n) < 10 ^ 4" "nat (month_of n) < 10 ^ 2" "nat (mday_of n) < 10 ^ 2"
    using assms month_bounds[of n] mday_bounds[of n] by (auto simp: date_in_range_def)
  then show ?thesis
    using assms by (simp add: format_date_def date_in_range_def pad0_fix Let_def)
qed

lemma fields_bounds:
  assumes "date_in_range n"
  shows "nat (year_of n) < 10 ^ 4" "nat (month_of n) < 10 ^ 2" "nat (mday_of n) < 10 ^ 2"
proof -
  have "mday_of n \<le> 31"
    using mday_bounds[of n] month_bounds[of n] days_in_month_le by (meson order_trans)
  then show "nat (year_of n) < 10 ^ 4" "nat (month_of n) < 10 ^ 2" "nat (mday_of n) < 10 ^ 2"
    using assms month_bounds[of n] mday_bounds[of n] by (auto simp: date_in_range_def)
qed

lemma length_format_date: "date_in_range n \<Longrightarrow> length (format_date n) = 10"
  by (simp add: format_date_fix)

lemma date_fields:
  assumes "length y = 4" "length m = 2" "length d = 2"
  shows "take 4 (y @ ''-'' @ m @ ''-'' @ d) = y" "take 2 (drop 5 (y @ ''-'' @ m @ ''-'' @ d)) = m"
    "take 2 (drop 8 (y @ ''-'' @ m @ ''-'' @ d)) = d" "(y @ ''-'' @ m @ ''-'' @ d) ! 4 = CHR ''-''"
    "(y @ ''-'' @ m @ ''-'' @ d) ! 7 = CHR ''-''" "length (y @ ''-'' @ m @ ''-'' @ d) = 10"
  using assms by (simp_all add: nth_append numeral_eq_Suc)

lemma parse_format_date [simp]:
  assumes "date_in_range n" shows "parse_date (format_date n) = Some n"
proof -
  let ?y = "fix_digits 4 (nat (year_of n))" and ?m = "fix_digits 2 (nat (month_of n))"
    and ?d = "fix_digits 2 (nat (mday_of n))"
  have v: "int (digits_val ?y) = year_of n" "int (digits_val ?m) = month_of n" "int (digits_val ?d) = mday_of n"
    using fields_bounds[OF assms] assms month_bounds[of n] mday_bounds[of n]
    by (simp_all add: digits_val_fix_digits date_in_range_def del: fix_digits.simps)
  have dig: "list_all is_digit (?y @ ?m @ ?d)"
    by (simp add: fix_digits_digits del: fix_digits.simps)
  note f = date_fields[OF length_fix_digits length_fix_digits length_fix_digits]
  show ?thesis
    unfolding format_date_fix[OF assms] parse_date_def Let_def f v
    using dig valid_civil_of[of n] civil_day_of[of n] by simp
qed

lemma parse_date_Some:
  assumes "parse_date s = Some n"
  shows "date_in_range n" "format_date n = s"
proof -
  define y m d where "y = take 4 s" and "m = take 2 (drop 5 s)" and "d = take 2 (drop 8 s)"
  have c: "length s = 10" "list_all is_digit y" "list_all is_digit m" "list_all is_digit d"
    "s ! 4 = CHR ''-''" "s ! 7 = CHR ''-''"
    "valid_civil (int (digits_val y)) (int (digits_val m)) (int (digits_val d))"
    "n = civil_day (int (digits_val y)) (int (digits_val m)) (int (digits_val d))"
    using assms by (auto simp: parse_date_def Let_def y_def m_def d_def split: if_splits)
  have len: "length y = 4" "length m = 2" "length d = 2"
    using c(1) by (simp_all add: y_def m_def d_def)
  have n: "year_of n = int (digits_val y)" "month_of n = int (digits_val m)" "mday_of n = int (digits_val d)"
    using civil_of_day[OF c(7)] c(8) by simp_all
  have "digits_val y < 10 ^ 4" using digits_val_less[OF c(2)] len by simp
  then show r: "date_in_range n" using n by (simp add: date_in_range_def)
  have s: "s = y @ ''-'' @ m @ ''-'' @ d"
  proof (rule nth_equalityI)
    show "length s = length (y @ ''-'' @ m @ ''-'' @ d)" using c(1) len by simp
    fix i assume "i < length s"
    then have "i = 0 \<or> i = 1 \<or> i = 2 \<or> i = 3 \<or> i = 4 \<or> i = 5 \<or> i = 6 \<or> i = 7 \<or> i = 8 \<or> i = 9"
      using c(1) by presburger
    then show "s ! i = (y @ ''-'' @ m @ ''-'' @ d) ! i"
      using c(1,5,6) by (elim disjE) (simp_all add: y_def m_def d_def nth_append)
  qed
  show "format_date n = s"
    unfolding format_date_fix[OF r] n nat_int s
    using fix_digits_digits_val[OF c(2)] fix_digits_digits_val[OF c(3)] fix_digits_digits_val[OF c(4)] len
    by simp
qed

text \<open>Comparing formatted dates as strings compares the days.\<close>

lemma format_date_mono:
  assumes "date_in_range a" "date_in_range b" "a < b"
  shows "format_date a < format_date b"
proof -
  have "civil_day (year_of a) (month_of a) (mday_of a) < civil_day (year_of b) (month_of b) (mday_of b)"
    using assms(3) by (simp add: civil_day_of)
  then have lt: "year_of a < year_of b \<or> year_of a = year_of b \<and>
      (month_of a < month_of b \<or> month_of a = month_of b \<and> mday_of a < mday_of b)"
    by (simp add: civil_day_less_iff valid_civil_of)
  note fb = fields_bounds[OF assms(2)]
  have pos: "0 \<le> year_of a" "1 \<le> month_of a" "1 \<le> mday_of a"
    using assms(1) month_bounds[of a] mday_bounds[of a] by (auto simp: date_in_range_def)
  have Y: "year_of a < year_of b \<Longrightarrow> fix_digits 4 (nat (year_of a)) < fix_digits 4 (nat (year_of b))"
    and M: "month_of a < month_of b \<Longrightarrow> fix_digits 2 (nat (month_of a)) < fix_digits 2 (nat (month_of b))"
    and D: "mday_of a < mday_of b \<Longrightarrow> fix_digits 2 (nat (mday_of a)) < fix_digits 2 (nat (mday_of b))"
    using fb pos by (simp_all add: fix_digits_mono del: fix_digits.simps)
  from lt show ?thesis
    unfolding format_date_fix[OF assms(1)] format_date_fix[OF assms(2)]
    by (elim disjE conjE)
       (simp_all add: append_less_iff Y M D del: fix_digits.simps)
qed

lemma format_date_less_iff:
  "date_in_range a \<Longrightarrow> date_in_range b \<Longrightarrow> format_date a < format_date b \<longleftrightarrow> a < b"
  by (metis format_date_mono less_asym' less_irrefl linorder_cases)

lemma format_date_eq_iff:
  "date_in_range a \<Longrightarrow> date_in_range b \<Longrightarrow> format_date a = format_date b \<longleftrightarrow> a = b"
  by (metis option.inject parse_format_date)

lemma format_date_le_iff:
  "date_in_range a \<Longrightarrow> date_in_range b \<Longrightarrow> format_date a \<le> format_date b \<longleftrightarrow> a \<le> b"
  by (metis format_date_less_iff linorder_not_less)

end
