(* ===== verification/Catalog.thy ===== *)
theory Catalog
  imports Calendar
begin

text \<open>
  The report catalogue (src/internal/report/catalog.go): the ten approved report keys, their
  parameter kind, timeouts, refresh class and metrics, and the enumerations of run.go that the
  later theories share.  Thai labels are the UTF-8 bytes of the source.
\<close>

section \<open>Keys and enumerations\<close>

text \<open>
  Key is a string type in Go; a value outside the catalogue is kept as OtherKey, so that the
  checks for an approved key are real checks.
\<close>

datatype key = SalesGoodsServices | PurchaseGoodsPayables | GrossProfitByProduct
  | GrossProfitByARCustomer | StockBalance | StockReorder | ARCustomerMovement | ARDebtReceipt
  | CashBankReceipts | CashBankPayments | OtherKey string

fun key_string :: "key \<Rightarrow> string" where
  "key_string SalesGoodsServices = ''sales_goods_services''"
| "key_string PurchaseGoodsPayables = ''purchase_goods_payables''"
| "key_string GrossProfitByProduct = ''gross_profit_by_product''"
| "key_string GrossProfitByARCustomer = ''gross_profit_by_ar_customer''"
| "key_string StockBalance = ''stock_balance''"
| "key_string StockReorder = ''stock_reorder''"
| "key_string ARCustomerMovement = ''ar_customer_movement''"
| "key_string ARDebtReceipt = ''ar_debt_receipt''"
| "key_string CashBankReceipts = ''cash_bank_receipts''"
| "key_string CashBankPayments = ''cash_bank_payments''"
| "key_string (OtherKey s) = s"

datatype parameter_kind = DateRange | AsOfDate | CurrentOnly | OtherParameterKind string

datatype refresh_class = RefreshFast | RefreshStandard | RefreshHeavy | OtherRefreshClass string

definition default_refresh_interval :: "refresh_class \<Rightarrow> duration" where
  "default_refresh_interval class = (case class of
     RefreshFast \<Rightarrow> 5 * minute
   | RefreshStandard \<Rightarrow> 15 * minute
   | RefreshHeavy \<Rightarrow> 30 * minute
   | OtherRefreshClass _ \<Rightarrow> 0)"

record metric =
  metric_key :: string
  metric_label :: string

datatype definition_status = StatusActive | StatusDeprecated | OtherStatus string

record report_definition =
  def_key :: key
  def_version :: string
  def_label :: string
  def_category :: string
  def_category_label :: string
  def_status :: definition_status
  def_sensitive :: bool
  def_parameter_kind :: parameter_kind
  def_line_metrics :: "metric list"
  def_summary_timeout :: duration
  def_detail_timeout :: duration
  def_summary_total_timeout :: duration
  def_detail_total_timeout :: duration
  def_max_rows :: int
  def_max_range_days :: int
  def_refresh_class :: refresh_class
  def_minimum_refresh_interval :: duration
  def_chunk_safe :: bool

section \<open>The catalogue\<close>

definition category_label :: "string \<Rightarrow> string" where
  "category_label category = (
     if category = ''SALES'' then (utf8 [224, 184, 130, 224, 184, 178, 224, 184, 162])
     else if category = ''PURCHASE'' then (utf8 [224, 184, 139, 224, 184, 183, 224, 185, 137, 224, 184, 173])
     else if category = ''GROSS_PROFIT'' then (utf8 [224, 184, 129, 224, 184, 179, 224, 185, 132, 224, 184, 163, 224, 184, 130, 224, 184, 177, 224, 185, 137, 224, 184, 153, 224, 184, 149, 224, 185, 137, 224, 184, 153])
     else if category = ''INVENTORY'' then (utf8 [224, 184, 170, 224, 184, 180, 224, 184, 153, 224, 184, 132, 224, 185, 137, 224, 184, 178, 224, 184, 132, 224, 184, 135, 224, 184, 132, 224, 184, 165, 224, 184, 177, 224, 184, 135])
     else if category = ''AR'' then (utf8 [224, 184, 165, 224, 184, 185, 224, 184, 129, 224, 184, 171, 224, 184, 153, 224, 184, 181, 224, 185, 137])
     else if category = ''CASH_BANK'' then (utf8 [224, 185, 128, 224, 184, 135, 224, 184, 180, 224, 184, 153, 224, 184, 170, 224, 184, 148, 224, 185, 129, 224, 184, 165, 224, 184, 176, 224, 184, 152, 224, 184, 153, 224, 184, 178, 224, 184, 132, 224, 184, 178, 224, 184, 163])
     else '''')"

definition refresh_class_of :: "key \<Rightarrow> refresh_class" where
  "refresh_class_of k = (
     if k = SalesGoodsServices \<or> k = ARDebtReceipt \<or> k = CashBankReceipts \<or> k = CashBankPayments
     then RefreshFast
     else if k = StockBalance \<or> k = ARCustomerMovement then RefreshHeavy
     else RefreshStandard)"

definition report_def :: "key \<Rightarrow> string \<Rightarrow> string \<Rightarrow> bool \<Rightarrow> parameter_kind \<Rightarrow>
    string \<Rightarrow> string \<Rightarrow> string \<Rightarrow> string \<Rightarrow> report_definition" where
  "report_def k label category sensitive kind key1 label1 key2 label2 = (
     let class = refresh_class_of k in
     \<lparr> def_key = k,
       def_version = ''1.0.0'',
       def_label = label,
       def_category = category,
       def_category_label = category_label category,
       def_status = StatusActive,
       def_sensitive = sensitive,
       def_parameter_kind = kind,
       def_line_metrics = [\<lparr>metric_key = key1, metric_label = label1\<rparr>,
                           \<lparr>metric_key = key2, metric_label = label2\<rparr>],
       def_summary_timeout = (if class = RefreshHeavy then 5 * minute else 30 * second),
       def_detail_timeout = 120 * second,
       def_summary_total_timeout = (if class = RefreshHeavy then 5 * minute else 60 * second),
       def_detail_total_timeout = 120 * second,
       def_max_rows = 200000,
       def_max_range_days = 366,
       def_refresh_class = class,
       def_minimum_refresh_interval = default_refresh_interval class,
       def_chunk_safe = (k = StockBalance \<or> k = ARCustomerMovement) \<rparr>)"

definition ordered_definitions :: "report_definition list" where
  "ordered_definitions = [
     report_def SalesGoodsServices (utf8 [224, 184, 163, 224, 184, 178, 224, 184, 162, 224, 184, 135, 224, 184, 178, 224, 184, 153, 224, 184, 130, 224, 184, 178, 224, 184, 162, 224, 184, 170, 224, 184, 180, 224, 184, 153, 224, 184, 132, 224, 185, 137, 224, 184, 178, 224, 185, 129, 224, 184, 165, 224, 184, 176, 224, 184, 154, 224, 184, 163, 224, 184, 180, 224, 184, 129, 224, 184, 178, 224, 184, 163]) ''SALES'' False DateRange
       ''document_count'' (utf8 [224, 185, 128, 224, 184, 173, 224, 184, 129, 224, 184, 170, 224, 184, 178, 224, 184, 163]) ''total_amount'' (utf8 [224, 184, 162, 224, 184, 173, 224, 184, 148, 224, 184, 130, 224, 184, 178, 224, 184, 162]),
     report_def PurchaseGoodsPayables (utf8 [224, 184, 163, 224, 184, 178, 224, 184, 162, 224, 184, 135, 224, 184, 178, 224, 184, 153, 224, 184, 139, 224, 184, 183, 224, 185, 137, 224, 184, 173, 224, 184, 170, 224, 184, 180, 224, 184, 153, 224, 184, 132, 224, 185, 137, 224, 184, 178, 224, 185, 129, 224, 184, 165, 224, 184, 176, 224, 184, 149, 224, 184, 177, 224, 185, 137, 224, 184, 135, 224, 184, 171, 224, 184, 153, 224, 184, 181, 224, 185, 137]) ''PURCHASE'' True DateRange
       ''document_count'' (utf8 [224, 185, 128, 224, 184, 173, 224, 184, 129, 224, 184, 170, 224, 184, 178, 224, 184, 163]) ''total_amount'' (utf8 [224, 184, 162, 224, 184, 173, 224, 184, 148, 224, 184, 139, 224, 184, 183, 224, 185, 137, 224, 184, 173]),
     report_def GrossProfitByProduct (utf8 [224, 184, 129, 224, 184, 179, 224, 185, 132, 224, 184, 163, 224, 184, 130, 224, 184, 177, 224, 185, 137, 224, 184, 153, 224, 184, 149, 224, 185, 137, 224, 184, 153, 224, 184, 149, 224, 184, 178, 224, 184, 161, 224, 184, 170, 224, 184, 180, 224, 184, 153, 224, 184, 132, 224, 185, 137, 224, 184, 178]) ''GROSS_PROFIT'' True DateRange
       ''gross_profit_amount'' (utf8 [224, 184, 129, 224, 184, 179, 224, 185, 132, 224, 184, 163, 224, 184, 130, 224, 184, 177, 224, 185, 137, 224, 184, 153, 224, 184, 149, 224, 185, 137, 224, 184, 153]) ''gross_margin_percent'' (utf8 [224, 184, 173, 224, 184, 177, 224, 184, 149, 224, 184, 163, 224, 184, 178, 224, 184, 129, 224, 184, 179, 224, 185, 132, 224, 184, 163]),
     report_def GrossProfitByARCustomer (utf8 [224, 184, 129, 224, 184, 179, 224, 185, 132, 224, 184, 163, 224, 184, 130, 224, 184, 177, 224, 185, 137, 224, 184, 153, 224, 184, 149, 224, 185, 137, 224, 184, 153, 224, 184, 149, 224, 184, 178, 224, 184, 161, 224, 184, 165, 224, 184, 185, 224, 184, 129, 224, 184, 171, 224, 184, 153, 224, 184, 181, 224, 185, 137]) ''GROSS_PROFIT'' True DateRange
       ''gross_profit_amount'' (utf8 [224, 184, 129, 224, 184, 179, 224, 185, 132, 224, 184, 163, 224, 184, 130, 224, 184, 177, 224, 185, 137, 224, 184, 153, 224, 184, 149, 224, 185, 137, 224, 184, 153]) ''gross_margin_percent'' (utf8 [224, 184, 173, 224, 184, 177, 224, 184, 149, 224, 184, 163, 224, 184, 178, 224, 184, 129, 224, 184, 179, 224, 185, 132, 224, 184, 163]),
     report_def StockBalance (utf8 [224, 184, 163, 224, 184, 178, 224, 184, 162, 224, 184, 135, 224, 184, 178, 224, 184, 153, 224, 184, 170, 224, 184, 149, 224, 185, 135, 224, 184, 173, 224, 184, 129, 224, 184, 132, 224, 184, 135, 224, 185, 128, 224, 184, 171, 224, 184, 165, 224, 184, 183, 224, 184, 173]) ''INVENTORY'' True AsOfDate
       ''item_count'' (utf8 [224, 184, 170, 224, 184, 180, 224, 184, 153, 224, 184, 132, 224, 185, 137, 224, 184, 178]) ''balance_amount'' (utf8 [224, 184, 161, 224, 184, 185, 224, 184, 165, 224, 184, 132, 224, 185, 136, 224, 184, 178, 224, 184, 132, 224, 184, 135, 224, 185, 128, 224, 184, 171, 224, 184, 165, 224, 184, 183, 224, 184, 173]),
     report_def StockReorder (utf8 [224, 184, 163, 224, 184, 178, 224, 184, 162, 224, 184, 135, 224, 184, 178, 224, 184, 153, 224, 184, 170, 224, 184, 180, 224, 184, 153, 224, 184, 132, 224, 185, 137, 224, 184, 178, 224, 184, 150, 224, 184, 182, 224, 184, 135, 224, 184, 136, 224, 184, 184, 224, 184, 148, 224, 184, 170, 224, 184, 177, 224, 185, 136, 224, 184, 135, 224, 184, 139, 224, 184, 183, 224, 185, 137, 224, 184, 173]) ''INVENTORY'' False CurrentOnly
       ''reorder_item_count'' (utf8 [224, 184, 170, 224, 184, 180, 224, 184, 153, 224, 184, 132, 224, 185, 137, 224, 184, 178, 224, 184, 149, 224, 185, 137, 224, 184, 173, 224, 184, 135, 224, 184, 170, 224, 184, 177, 224, 185, 136, 224, 184, 135]) ''shortage_qty'' (utf8 [224, 184, 136, 224, 184, 179, 224, 184, 153, 224, 184, 167, 224, 184, 153, 224, 184, 130, 224, 184, 178, 224, 184, 148]),
     report_def ARCustomerMovement (utf8 [224, 184, 163, 224, 184, 178, 224, 184, 162, 224, 184, 135, 224, 184, 178, 224, 184, 153, 224, 184, 132, 224, 184, 167, 224, 184, 178, 224, 184, 161, 224, 185, 128, 224, 184, 132, 224, 184, 165, 224, 184, 183, 224, 185, 136, 224, 184, 173, 224, 184, 153, 224, 185, 132, 224, 184, 171, 224, 184, 167, 224, 184, 165, 224, 184, 185, 224, 184, 129, 224, 184, 171, 224, 184, 153, 224, 184, 181, 224, 185, 137]) ''AR'' True AsOfDate
       ''customer_count'' (utf8 [224, 184, 165, 224, 184, 185, 224, 184, 129, 224, 184, 171, 224, 184, 153, 224, 184, 181, 224, 185, 137]) ''net_movement_amount'' (utf8 [224, 184, 162, 224, 184, 173, 224, 184, 148, 224, 185, 128, 224, 184, 132, 224, 184, 165, 224, 184, 183, 224, 185, 136, 224, 184, 173, 224, 184, 153, 224, 185, 132, 224, 184, 171, 224, 184, 167, 224, 184, 170, 224, 184, 184, 224, 184, 151, 224, 184, 152, 224, 184, 180]),
     report_def ARDebtReceipt (utf8 [224, 184, 163, 224, 184, 178, 224, 184, 162, 224, 184, 135, 224, 184, 178, 224, 184, 153, 224, 184, 163, 224, 184, 177, 224, 184, 154, 224, 184, 138, 224, 184, 179, 224, 184, 163, 224, 184, 176, 224, 184, 171, 224, 184, 153, 224, 184, 181, 224, 185, 137]) ''AR'' True DateRange
       ''receipt_count'' (utf8 [224, 185, 128, 224, 184, 173, 224, 184, 129, 224, 184, 170, 224, 184, 178, 224, 184, 163]) ''total_received_amount'' (utf8 [224, 184, 162, 224, 184, 173, 224, 184, 148, 224, 184, 163, 224, 184, 177, 224, 184, 154, 224, 184, 138, 224, 184, 179, 224, 184, 163, 224, 184, 176]),
     report_def CashBankReceipts (utf8 [224, 184, 163, 224, 184, 178, 224, 184, 162, 224, 184, 135, 224, 184, 178, 224, 184, 153, 224, 184, 163, 224, 184, 177, 224, 184, 154, 224, 185, 128, 224, 184, 135, 224, 184, 180, 224, 184, 153]) ''CASH_BANK'' True DateRange
       ''document_count'' (utf8 [224, 185, 128, 224, 184, 173, 224, 184, 129, 224, 184, 170, 224, 184, 178, 224, 184, 163]) ''total_amount'' (utf8 [224, 184, 162, 224, 184, 173, 224, 184, 148, 224, 184, 163, 224, 184, 177, 224, 184, 154, 224, 185, 128, 224, 184, 135, 224, 184, 180, 224, 184, 153]),
     report_def CashBankPayments (utf8 [224, 184, 163, 224, 184, 178, 224, 184, 162, 224, 184, 135, 224, 184, 178, 224, 184, 153, 224, 184, 136, 224, 185, 136, 224, 184, 178, 224, 184, 162, 224, 185, 128, 224, 184, 135, 224, 184, 180, 224, 184, 153]) ''CASH_BANK'' True DateRange
       ''document_count'' (utf8 [224, 185, 128, 224, 184, 173, 224, 184, 129, 224, 184, 170, 224, 184, 178, 224, 184, 163]) ''total_amount'' (utf8 [224, 184, 162, 224, 184, 173, 224, 184, 148, 224, 184, 136, 224, 185, 136, 224, 184, 178, 224, 184, 162, 224, 185, 128, 224, 184, 135, 224, 184, 180, 224, 184, 153])]"

definition definitions_by_key :: "key \<rightharpoonup> report_definition" where
  "definitions_by_key = fold (\<lambda>d m. m(def_key d \<mapsto> d)) ordered_definitions Map.empty"

definition definition_for :: "key \<Rightarrow> report_definition option" where
  "definition_for k = definitions_by_key k"

definition keys :: "key list" where "keys = map def_key ordered_definitions"

definition can_select :: "report_definition \<Rightarrow> bool \<Rightarrow> bool" where
  "can_select d already_selected \<longleftrightarrow>
     def_status d = StatusActive \<or> def_status d = StatusDeprecated \<and> already_selected"

lemma report_def_simps [simp]:
  "def_key (report_def k l c s p a b x y) = k"
  "def_chunk_safe (report_def k l c s p a b x y) \<longleftrightarrow> k = StockBalance \<or> k = ARCustomerMovement"
  "def_max_rows (report_def k l c s p a b x y) = 200000"
  "def_max_range_days (report_def k l c s p a b x y) = 366"
  "def_status (report_def k l c s p a b x y) = StatusActive"
  "def_parameter_kind (report_def k l c s p a b x y) = p"
  "def_refresh_class (report_def k l c s p a b x y) = refresh_class_of k"
  "def_label (report_def k l c s p a b x y) = l"
  "def_line_metrics (report_def k l c s p a b x y) =
     [\<lparr>metric_key = a, metric_label = b\<rparr>, \<lparr>metric_key = x, metric_label = y\<rparr>]"
  "def_version (report_def k l c s p a b x y) = ''1.0.0''"
  by (simp_all add: report_def_def Let_def)

lemma keys_eq: "keys = [SalesGoodsServices, PurchaseGoodsPayables, GrossProfitByProduct,
    GrossProfitByARCustomer, StockBalance, StockReorder, ARCustomerMovement, ARDebtReceipt,
    CashBankReceipts, CashBankPayments]"
  by (simp add: keys_def ordered_definitions_def)

lemma fold_by_key: "fold (\<lambda>d m. m(def_key d \<mapsto> d)) ds m k = Some d \<Longrightarrow>
    d \<in> set ds \<and> def_key d = k \<or> m k = Some d"
proof (induction ds arbitrary: m)
  case (Cons e ds)
  from Cons.IH[of "m(def_key e \<mapsto> e)"] Cons.prems show ?case by (auto split: if_splits)
qed simp

lemma fold_by_key_None: "fold (\<lambda>d m. m(def_key d \<mapsto> d)) ds m k = None \<longleftrightarrow>
    k \<notin> def_key ` set ds \<and> m k = None"
  by (induction ds arbitrary: m) (auto split: if_splits)

lemma definition_for_in: "definition_for k = Some d \<Longrightarrow> d \<in> set ordered_definitions"
  and definition_for_key: "definition_for k = Some d \<Longrightarrow> def_key d = k"
  unfolding definition_for_def definitions_by_key_def by (auto dest: fold_by_key)

lemma definition_for_None: "definition_for k = None \<longleftrightarrow> k \<notin> set keys"
  by (simp add: definition_for_def definitions_by_key_def fold_by_key_None keys_def)

lemma definition_for_iff: "(\<exists>d. definition_for k = Some d) \<longleftrightarrow> k \<in> set keys"
  using definition_for_None[of k] by auto

lemma definition_bounds:
  assumes "definition_for k = Some d"
  shows "def_max_rows d = 200000" "def_max_range_days d = 366" "def_status d = StatusActive"
    "length (def_line_metrics d) = 2"
  using definition_for_in[OF assms]
  by (auto simp: ordered_definitions_def)

lemma chunk_safe_iff:
  "definition_for k = Some d \<Longrightarrow> def_chunk_safe d \<longleftrightarrow> k = StockBalance \<or> k = ARCustomerMovement"
proof -
  have "\<forall>d \<in> set ordered_definitions.
      def_chunk_safe d \<longleftrightarrow> def_key d = StockBalance \<or> def_key d = ARCustomerMovement"
    by (simp add: ordered_definitions_def)
  then show "definition_for k = Some d \<Longrightarrow> def_chunk_safe d \<longleftrightarrow> k = StockBalance \<or> k = ARCustomerMovement"
    using definition_for_in definition_for_key by blast
qed

section \<open>Enumerations of a run (run.go)\<close>

datatype source = SourceDashboard | SourceSchedule | SourceBackground | OtherSource string

text \<open>ResultKindUnset is the empty string, which Enqueue reads as DETAIL.\<close>

datatype result_kind = ResultKindUnset | ResultDetail | ResultSummary | OtherResultKind string

datatype execution_strategy = ExecutionUnset | ExecutionDirect | ExecutionChunked

datatype source_consistency = ConsistencyUnset | ConsistencyStatement | ConsistencySerialWindow
  | ConsistencyChunkWindow

datatype progress_phase = ProgressQueued | ProgressConnecting | ProgressQueryingCurrent
  | ProgressQueryingComparison | ProgressBuildingDashboard | ProgressSavingResult
  | ProgressWaitingRetry | ProgressCompleted

datatype run_status = StatusQueued | StatusClaimed | StatusRunning | StatusSucceeded
  | StatusFailed | StatusCancelled | StatusExpired

datatype run_error = ErrRunNotFound | ErrNoQueuedRun | ErrRunLeaseLost | ErrRunConcurrencyLimit
  | ErrRunCircuitOpen | ErrRunIdempotencyConflict | ErrRunRowsExpired | ErrRunForbidden
  | ErrRunNotCancellable | ErrRun string

section \<open>Periods (period.go)\<close>

datatype preset = Yesterday | TodayToNow | MonthToDate | AsOfRun | Custom | OtherPreset string

record period =
  preset :: preset
  date_from :: string
  date_to :: string

end
