(* ===== verification/Period.thy ===== *)
theory Period
  imports Catalog
begin

text \<open>
  Report periods: ResolvePeriod (report/period.go), ResolveComparisonPeriod
  (report/comparison_period.go), and the schedule's period policy with ResolveEffectivePeriod
  (schedule/period_policy.go).  A missing location is None, a missing custom date None.
\<close>

section \<open>ResolvePeriod\<close>

datatype period_error = TimezoneRequired | CustomNeedsDates | CustomFromInvalid | CustomToInvalid
  | CustomToBeforeFrom | CustomRangeTooLong | PresetInvalid
  | ComparisonFromInvalid | ComparisonToInvalid | ComparisonToBeforeFrom | SingleDayRange
  | ComparisonPresetInvalid | PeriodValidation string string

definition mk_period :: "preset \<Rightarrow> day \<Rightarrow> day \<Rightarrow> period" where
  "mk_period p f t = \<lparr>preset = p, date_from = format_date f, date_to = format_date t\<rparr>"

lemma mk_period_simps [simp]:
  "preset (mk_period p f t) = p" "date_from (mk_period p f t) = format_date f"
  "date_to (mk_period p f t) = format_date t"
  by (simp_all add: mk_period_def)

definition resolve_custom :: "string option \<Rightarrow> string option \<Rightarrow> period_error + (day \<times> day)" where
  "resolve_custom custom_from custom_to = (case (custom_from, custom_to) of
     (Some cf, Some ct) \<Rightarrow> (case parse_date cf of
         None \<Rightarrow> Inl CustomFromInvalid
       | Some f \<Rightarrow> (case parse_date ct of
           None \<Rightarrow> Inl CustomToInvalid
         | Some t \<Rightarrow> if t < f then Inl CustomToBeforeFrom
                    else if days_between f t + 1 > 366 then Inl CustomRangeTooLong
                    else Inr (f, t)))
   | _ \<Rightarrow> Inl CustomNeedsDates)"

definition resolve_period :: "preset \<Rightarrow> location option \<Rightarrow> instant \<Rightarrow> string option \<Rightarrow> string option
    \<Rightarrow> period_error + period" where
  "resolve_period p loc run_at custom_from custom_to = (case loc of
     None \<Rightarrow> Inl TimezoneRequired
   | Some l \<Rightarrow> (let today = local_day l run_at in
       bindr (case p of
           Yesterday \<Rightarrow> Inr (add_date today 0 0 (-1), add_date today 0 0 (-1))
         | TodayToNow \<Rightarrow> Inr (today, today)
         | AsOfRun \<Rightarrow> Inr (today, today)
         | MonthToDate \<Rightarrow> Inr (go_date (year_of today) (month_of today) 1, today)
         | Custom \<Rightarrow> resolve_custom custom_from custom_to
         | OtherPreset _ \<Rightarrow> Inl PresetInvalid)
         (\<lambda>(f, t). Inr (mk_period p f t))))"

section \<open>ResolveComparisonPeriod\<close>

definition comparison_bounds :: "preset \<Rightarrow> day \<Rightarrow> day \<Rightarrow> period_error + (day \<times> day)" where
  "comparison_bounds p f t = (case p of
     MonthToDate \<Rightarrow> (let month_end = add_date f 0 0 (-1);
                        target = (if mday_of t > mday_of month_end then mday_of month_end else mday_of t)
                    in Inr (add_date f 0 (-1) 0,
                            go_date (year_of month_end) (month_of month_end) target))
   | Custom \<Rightarrow> (let days = days_between f t + 1; last = add_date f 0 0 (-1)
               in Inr (add_date last 0 0 (- (days - 1)), last))
   | OtherPreset _ \<Rightarrow> Inl ComparisonPresetInvalid
   | _ \<Rightarrow> if f \<noteq> t then Inl SingleDayRange
         else Inr (add_date f 0 0 (-1), add_date f 0 0 (-1)))"

definition resolve_comparison_period :: "period \<Rightarrow> period_error + period" where
  "resolve_comparison_period p = (case parse_date (date_from p) of
     None \<Rightarrow> Inl ComparisonFromInvalid
   | Some f \<Rightarrow> (case parse_date (date_to p) of
       None \<Rightarrow> Inl ComparisonToInvalid
     | Some t \<Rightarrow> if t < f then Inl ComparisonToBeforeFrom
                else bindr (comparison_bounds (preset p) f t)
                       (\<lambda>(cf, ct). Inr (mk_period Custom cf ct))))"

section \<open>The period policy of schedules\<close>

record period_policy =
  pol_enabled :: bool
  pol_tenants :: "uuid list"

definition new_period_policy :: "bool \<Rightarrow> uuid list \<Rightarrow> period_policy" where
  "new_period_policy enabled tenants =
     \<lparr>pol_enabled = enabled, pol_tenants = filter (\<lambda>t. t \<noteq> nil_uuid) tenants\<rparr>"

definition enabled_for :: "period_policy \<Rightarrow> uuid \<Rightarrow> bool" where
  "enabled_for policy tenant = (if \<not> pol_enabled policy then False
     else if pol_tenants policy = [] then True
     else tenant \<in> set (pol_tenants policy))"

definition effective_preset :: "preset \<Rightarrow> parameter_kind \<Rightarrow> period_error + preset" where
  "effective_preset p mode = (case mode of
     DateRange \<Rightarrow> Inr (if p = AsOfRun then TodayToNow else p)
   | AsOfDate \<Rightarrow> Inr (if p \<noteq> Yesterday then AsOfRun else p)
   | CurrentOnly \<Rightarrow> Inr AsOfRun
   | OtherParameterKind _ \<Rightarrow> Inl (PeriodValidation ''periodMode'' ''INVALID_PERIOD_MODE''))"

definition resolve_effective_period :: "preset \<Rightarrow> parameter_kind \<Rightarrow> location option \<Rightarrow> instant
    \<Rightarrow> period_error + period" where
  "resolve_effective_period p mode loc run_at =
     bindr (effective_preset p mode) (\<lambda>e. resolve_period e loc run_at None None)"

text \<open>
  PeriodPolicy.Resolve returns the period and, through the deferred call of the observer, the
  label of the outcome.
\<close>

definition policy_resolve :: "period_policy \<Rightarrow> uuid \<Rightarrow> preset \<Rightarrow> parameter_kind \<Rightarrow> location option
    \<Rightarrow> instant \<Rightarrow> (period_error + period) \<times> string" where
  "policy_resolve policy tenant p mode loc run_at = (
     let smart = enabled_for policy tenant;
         res = (if \<not> smart then resolve_period p loc run_at None None
                else resolve_effective_period p mode loc run_at)
     in (res, if isl res then ''ERROR'' else if smart then ''SMART'' else ''LEGACY''))"

section \<open>Facts about days used below\<close>

lemma days_between_small: "f \<le> t \<Longrightarrow> days_between f t + 1 \<le> 366 \<Longrightarrow> days_between f t = t - f"
  by (auto simp: days_between_def min_def max_def split: if_splits)

lemma month_start: "go_date (year_of n) (month_of n) 1 = n - (mday_of n - 1)"
proof -
  have "go_date (year_of n) (month_of n) 1 = civil_day (year_of n) (month_of n) 1"
    using month_bounds[of n] by (simp add: go_date_valid)
  also have "... = civil_day (year_of n) (month_of n) (mday_of n) - (mday_of n - 1)"
    by (simp add: civil_day_def)
  finally show ?thesis by (simp add: civil_day_of)
qed

lemma mday_le_31: "mday_of n \<le> 31"
  using mday_bounds[of n] month_bounds[of n] days_in_month_le by (meson order_trans)

lemma valid_civil_first: "1 \<le> m \<Longrightarrow> m \<le> 12 \<Longrightarrow> valid_civil y m 1"
  using month_cases[of m] by (auto simp: valid_civil_def days_in_month_def days_before_month_def)

text \<open>The day before the first of a month is the last of the month before it.\<close>

lemma previous_month:
  assumes "mday_of f = 1"
  shows "add_date f 0 (-1) 0 = go_date (year_of (f - 1)) (month_of (f - 1)) 1"
    and "mday_of (f - 1) = days_in_month (is_leap (year_of (f - 1))) (month_of (f - 1))"
proof -
  define y m where "y = year_of f" and "m = month_of f"
  have f: "f = civil_day y m 1" using civil_day_of[of f] assms by (simp add: y_def m_def)
  have mb: "1 \<le> m" "m \<le> 12" using month_bounds[of f] by (simp_all add: m_def)
  define y' m' where "y' = (if m = 1 then y - 1 else y)" and "m' = (if m = 1 then 12 else m - 1)"
  have m': "1 \<le> m'" "m' \<le> 12" using mb by (auto simp: m'_def)
  have len: "1 \<le> days_in_month (is_leap y') m'"
    using valid_civil_first[OF m', of y'] by (simp add: valid_civil_def)
  have prev: "f - 1 = civil_day y' m' (days_in_month (is_leap y') m')"
  proof (cases "m = 1")
    case True
    have "days_before_year y = days_before_year (y - 1) + (if is_leap (y - 1) then 366 else 365)"
      using days_before_year_step[of "y - 1"] by simp
    with True show ?thesis
      by (simp add: f y'_def m'_def civil_day_def days_in_month_def days_before_month_def)
  next
    case False
    then show ?thesis
      by (simp add: f y'_def m'_def civil_day_def days_in_month_def)
  qed
  have v: "valid_civil y' m' (days_in_month (is_leap y') m')"
    using m' len by (simp add: valid_civil_def)
  have c: "year_of (f - 1) = y'" "month_of (f - 1) = m'" "mday_of (f - 1) = days_in_month (is_leap y') m'"
    using civil_of_day[OF v] prev by simp_all
  show "mday_of (f - 1) = days_in_month (is_leap (year_of (f - 1))) (month_of (f - 1))"
    by (simp add: c)
  have "add_date f 0 (-1) 0 = go_date y (m - 1) 1"
    by (simp add: add_date_def y_def m_def assms)
  also have "... = civil_day y' m' 1"
  proof (cases "m = 1")
    case True
    then show ?thesis by (simp add: go_date_def y'_def m'_def)
  next
    case False
    with mb have "0 \<le> m - 2" "m - 2 < 12" by simp_all
    with False show ?thesis by (simp add: go_date_def y'_def m'_def div_pos_pos_trivial)
  qed
  finally show "add_date f 0 (-1) 0 = go_date (year_of (f - 1)) (month_of (f - 1)) 1"
    using m' by (simp add: c go_date_valid)
qed

lemma days_before_year_unique_mono: "a \<le> b \<Longrightarrow> year_of a \<le> year_of b"
proof (rule ccontr)
  assume "a \<le> b" "\<not> year_of a \<le> year_of b"
  then have "days_before_year (year_of b + 1) \<le> days_before_year (year_of a)"
    by (simp add: days_before_year_mono)
  then show False using year_of_bounds[of a] year_of_bounds[of b] \<open>a \<le> b\<close> by linarith
qed

lemma date_in_range_between: "date_in_range a \<Longrightarrow> date_in_range c \<Longrightarrow> a \<le> b \<Longrightarrow> b \<le> c \<Longrightarrow> date_in_range b"
  unfolding date_in_range_def
  by (meson days_before_year_unique_mono order_trans)

lemma month_start_fields:
  "year_of (go_date (year_of n) (month_of n) 1) = year_of n"
  "month_of (go_date (year_of n) (month_of n) 1) = month_of n"
  "mday_of (go_date (year_of n) (month_of n) 1) = 1"
  using month_bounds[of n] civil_of_day[OF valid_civil_first[of "month_of n" "year_of n"]]
  by (simp_all add: go_date_valid)

lemma month_start_le: "go_date (year_of n) (month_of n) 1 \<le> n" "n \<le> go_date (year_of n) (month_of n) 1 + 30"
  using mday_bounds[of n] mday_le_31[of n] by (simp_all add: month_start)

lemma month_start_in_range: "date_in_range n \<Longrightarrow> date_in_range (go_date (year_of n) (month_of n) 1)"
  by (simp add: date_in_range_def month_start_fields)

lemma resolve_custom_Inr:
  "resolve_custom cf ct = Inr (f, t) \<longleftrightarrow>
     (\<exists>a b. cf = Some a \<and> ct = Some b \<and> parse_date a = Some f \<and> parse_date b = Some t
            \<and> f \<le> t \<and> days_between f t + 1 \<le> 366)"
  by (auto simp: resolve_custom_def split: option.splits)

text \<open>What ResolvePeriod returns, by preset, as days.\<close>

definition period_days :: "preset \<Rightarrow> day \<Rightarrow> day \<Rightarrow> day \<Rightarrow> bool" where
  "period_days p today f t \<longleftrightarrow> (case p of
     Yesterday \<Rightarrow> f = today - 1 \<and> t = today - 1
   | TodayToNow \<Rightarrow> f = today \<and> t = today
   | AsOfRun \<Rightarrow> f = today \<and> t = today
   | MonthToDate \<Rightarrow> mday_of f = 1 \<and> month_of f = month_of today \<and> year_of f = year_of today \<and> t = today
   | Custom \<Rightarrow> t - f < 366
   | OtherPreset _ \<Rightarrow> False)"

lemma resolve_period_mk:
  assumes "resolve_period p loc run_at cf ct = Inr per" "loc = Some l"
    "date_in_range (local_day l run_at - 1)" "date_in_range (local_day l run_at)"
  obtains f t where "per = mk_period p f t" "f \<le> t" "t - f < 366"
    "date_in_range f" "date_in_range t" "period_days p (local_day l run_at) f t"
proof (cases p)
  case Custom
  then obtain f t where "per = mk_period p f t" "resolve_custom cf ct = Inr (f, t)"
    using assms(1,2) by (auto simp: resolve_period_def Let_def)
  then obtain a b where ab: "parse_date a = Some f" "parse_date b = Some t" "f \<le> t" "days_between f t + 1 \<le> 366"
    by (auto simp: resolve_custom_Inr)
  with days_between_small have "t - f < 366" by fastforce
  with that ab \<open>per = mk_period p f t\<close> parse_date_Some(1) Custom show ?thesis
    by (simp add: period_days_def)
next
  case MonthToDate
  with assms that[of "go_date (year_of (local_day l run_at)) (month_of (local_day l run_at)) 1"
      "local_day l run_at"] month_start_le[of "local_day l run_at"]
  show ?thesis
    by (simp add: resolve_period_def Let_def month_start_in_range period_days_def month_start_fields)
qed (use assms that in \<open>auto simp: resolve_period_def Let_def period_days_def\<close>)

section \<open>Properties\<close>

text \<open>C18: a period that ResolvePeriod returns is two valid dates in order (also as strings),
  at most 366 days apart, and is the one the preset names in the local calendar of the run.\<close>

theorem resolve_period_days:
  assumes "resolve_period p (Some loc) run_at cf ct = Inr per"
    and "date_in_range (local_day loc run_at - 1)" "date_in_range (local_day loc run_at)"
  shows "\<exists>f t. parse_date (date_from per) = Some f \<and> parse_date (date_to per) = Some t \<and> f \<le> t
           \<and> t - f < 366 \<and> date_from per \<le> date_to per \<and> preset per = p
           \<and> period_days p (local_day loc run_at) f t"
proof -
  obtain f t where "per = mk_period p f t" "f \<le> t" "t - f < 366" "date_in_range f" "date_in_range t"
    "period_days p (local_day loc run_at) f t"
    by (rule resolve_period_mk[OF assms(1) refl assms(2,3)])
  then show ?thesis
    by (intro exI[of _ f] exI[of _ t]) (simp add: format_date_le_iff)
qed

lemma comparison_month:
  assumes "mday_of f = 1"
  obtains a b where "comparison_bounds MonthToDate f t = Inr (a, b)" "a \<le> b" "b < f" "f - 31 \<le> a"
    "mday_of a = 1" "month_of a = month_of (f - 1)" "year_of a = year_of (f - 1)"
    "mday_of b = min (mday_of t) (mday_of (f - 1))"
    "month_of b = month_of (f - 1)" "year_of b = year_of (f - 1)"
proof -
  define e where "e = f - 1"
  define b where "b = go_date (year_of e) (month_of e) (if mday_of t > mday_of e then mday_of e else mday_of t)"
  define a where "a = go_date (year_of e) (month_of e) 1"
  have ab: "comparison_bounds MonthToDate f t = Inr (a, b)"
    using previous_month(1)[OF assms(1)] by (simp add: comparison_bounds_def Let_def a_def b_def e_def)
  have v: "valid_civil (year_of e) (month_of e) (min (mday_of t) (mday_of e))"
    using valid_civil_of[of e] mday_bounds[of t] mday_bounds[of e] by (auto simp: valid_civil_def)
  have b: "b = civil_day (year_of e) (month_of e) (min (mday_of t) (mday_of e))"
    using month_bounds[of e] by (simp add: b_def go_date_valid min_def)
  note bf = civil_of_day[OF v, folded b]
  have e: "civil_day (year_of e) (month_of e) (mday_of e) = e" by (simp add: civil_day_of)
  have a: "a = civil_day (year_of e) (month_of e) 1"
    using month_bounds[of e] by (simp add: a_def go_date_valid)
  have "b \<le> civil_day (year_of e) (month_of e) (mday_of e)"
    by (simp add: b civil_day_def)
  then have "b < f" by (simp only: e) (simp add: e_def)
  moreover have "a \<le> b" using mday_bounds[of t] mday_bounds[of e] by (simp add: a b civil_day_def)
  moreover have "f - 31 \<le> a" using month_start_le(2)[of e] by (simp add: a_def e_def)
  ultimately show thesis
    using ab bf by (intro that[of a b]) (simp_all add: a_def e_def month_start_fields)
qed

text \<open>C19: the comparison period of a resolved period always exists; it ends before the period
  begins, and it is the previous day, the equally long range just before, or for a month to date
  the previous month up to the same day of the month (or its last).\<close>

theorem comparison_period_correct:
  assumes "resolve_period p (Some loc) run_at cf ct = Inr per"
    and "date_in_range (local_day loc run_at - 1)" "date_in_range (local_day loc run_at)"
    and "parse_date (date_from per) = Some f" "date_in_range (f - 366)"
  shows "\<exists>t a b. parse_date (date_to per) = Some t
    \<and> resolve_comparison_period per = Inr \<lparr>preset = Custom, date_from = format_date a, date_to = format_date b\<rparr>
    \<and> parse_date (format_date a) = Some a \<and> parse_date (format_date b) = Some b \<and> a \<le> b \<and> b < f
    \<and> (if p = MonthToDate
       then mday_of a = 1 \<and> month_of a = month_of (f - 1) \<and> year_of a = year_of (f - 1)
          \<and> month_of b = month_of a \<and> year_of b = year_of a \<and> mday_of b = min (mday_of t) (mday_of (f - 1))
       else b = f - 1 \<and> b - a = t - f)"
proof -
  obtain f' t where per: "per = mk_period p f' t" and ft: "f' \<le> t" "t - f' < 366"
    "date_in_range f'" "date_in_range t" "period_days p (local_day loc run_at) f' t"
    by (rule resolve_period_mk[OF assms(1) refl assms(2,3)])
  with assms(4) have [simp]: "f' = f" by simp
  have inr: "date_in_range n" if "f - 366 \<le> n" "n < f" for n
    using date_in_range_between[OF assms(5) ft(3)] that by simp
  have res: "resolve_comparison_period per = bindr (comparison_bounds p f t) (\<lambda>(cf, ct). Inr (mk_period Custom cf ct))"
    using per ft by (simp add: resolve_comparison_period_def)
  show ?thesis
  proof (cases "p = MonthToDate")
    case True
    with ft(5) have m: "mday_of f = 1" by (simp add: period_days_def)
    obtain a b where c: "comparison_bounds MonthToDate f t = Inr (a, b)" "a \<le> b" "b < f" "f - 31 \<le> a"
      "mday_of a = 1" "month_of a = month_of (f - 1)" "year_of a = year_of (f - 1)"
      "mday_of b = min (mday_of t) (mday_of (f - 1))"
      "month_of b = month_of (f - 1)" "year_of b = year_of (f - 1)"
      by (rule comparison_month[OF m])
    have "resolve_comparison_period per = Inr \<lparr>preset = Custom, date_from = format_date a, date_to = format_date b\<rparr>"
      using True res c(1) by (simp add: mk_period_def)
    moreover have "parse_date (date_to per) = Some t" using per ft by simp
    moreover have "parse_date (format_date a) = Some a" "parse_date (format_date b) = Some b"
      using c inr by simp_all
    ultimately show ?thesis using True c by (intro exI[of _ t] exI[of _ a] exI[of _ b]) simp
  next
    case False
    have "days_between f t = t - f" using ft(1,2) by (simp add: days_between_def)
    moreover have "p = Custom \<or> f = t \<and> (p = Yesterday \<or> p = TodayToNow \<or> p = AsOfRun)"
      using ft(5) False by (cases p) (auto simp: period_days_def)
    ultimately have "comparison_bounds p f t = Inr (f - 1 - (t - f), f - 1)"
      by (elim disjE conjE) (simp_all add: comparison_bounds_def Let_def)
    then show ?thesis
      using False res ft per inr
      by (intro exI[of _ t] exI[of _ "f - 1 - (t - f)"] exI[of _ "f - 1"] conjI)
         (simp_all add: mk_period_def)
  qed
qed

text \<open>under the smart policy an AS_OF_DATE or CURRENT_ONLY report always gets a single day:
  yesterday when an AS_OF_DATE report is scheduled for yesterday, the day of the run otherwise.\<close>

theorem effective_period_single_day:
  assumes "mode = AsOfDate \<or> mode = CurrentOnly"
  shows "resolve_effective_period p mode (Some loc) run_at =
    (let day = (if mode = AsOfDate \<and> p = Yesterday then local_day loc run_at - 1 else local_day loc run_at)
     in Inr \<lparr>preset = (if mode = AsOfDate \<and> p = Yesterday then Yesterday else AsOfRun),
             date_from = format_date day, date_to = format_date day\<rparr>)"
  using assms
  by (auto simp: resolve_effective_period_def effective_preset_def resolve_period_def mk_period_def Let_def)

lemma witness_days: "local_day bangkok 1773543600000000000 = 739689"
    "go_date (year_of 739689) (month_of 739689) 1 = 739675"
    "date_in_range 739688" "date_in_range 739689" "date_in_range 739675" "date_in_range (739675 - 366)"
  by code_simp+
lemma witness_period: "resolve_period MonthToDate (Some bangkok) 1773543600000000000 None None
    = Inr (mk_period MonthToDate 739675 739689)"
  by (simp add: resolve_period_def witness_days)

theorem resolve_period_days_witness:
  "\<exists>f t. parse_date (date_from (mk_period MonthToDate 739675 739689)) = Some f
     \<and> parse_date (date_to (mk_period MonthToDate 739675 739689)) = Some t \<and> f \<le> t
     \<and> period_days MonthToDate 739689 f t"
  using resolve_period_days[OF witness_period] witness_days by auto

theorem comparison_period_correct_witness:
  "\<exists>a b. resolve_comparison_period (mk_period MonthToDate 739675 739689)
      = Inr \<lparr>preset = Custom, date_from = format_date a, date_to = format_date b\<rparr>
     \<and> a \<le> b \<and> b < 739675 \<and> mday_of a = 1 \<and> mday_of b = min (mday_of 739689) (mday_of 739674)"
  using comparison_period_correct[OF witness_period, of 739675] witness_days by auto

theorem effective_period_single_day_witness:
  "resolve_effective_period MonthToDate AsOfDate (Some bangkok) 1773543600000000000
     = Inr \<lparr>preset = AsOfRun, date_from = format_date 739689, date_to = format_date 739689\<rparr>"
  using effective_period_single_day[of AsOfDate MonthToDate bangkok 1773543600000000000] witness_days by simp

end
