(* ===== verification/Dashboard_Data.thy ===== *)
theory Dashboard_Data
  imports Catalog
begin

text \<open>
  The dashboard document (report/dashboard.go): KPIs with their comparison to the previous
  period, and visualizations.  The Unset constructors are the empty strings of the zero values.
\<close>

datatype metric_unit = UnitUnset | UnitTHB | UnitCount | UnitPercent | UnitQuantity | UnitRatio

datatype comparison_availability = AvailabilityUnset | ComparisonAvailable | ComparisonUnavailable

datatype comparison_direction = DirectionUnset | DirectionUp | DirectionDown | DirectionSame

record metric_comparison =
  cmp_availability :: comparison_availability
  cmp_previous_value :: string
  cmp_delta :: string
  cmp_percent :: string
  cmp_direction :: comparison_direction

record dashboard_metric =
  kpi_key :: string
  kpi_label :: string
  kpi_value :: string
  kpi_unit :: metric_unit
  kpi_comparison :: metric_comparison

datatype visualization_intent = IntentUnset | IntentTrend | IntentRanking | IntentComposition
  | IntentException

record visualization_series =
  ser_key :: string
  ser_label :: string
  ser_values :: "string list"
  ser_point_labels :: "string list"

record dashboard_visualization =
  vis_key :: string
  vis_title :: string
  vis_intent :: visualization_intent
  vis_unit :: metric_unit
  vis_categories :: "string list"
  vis_series :: "visualization_series list"
  vis_note :: string

record dashboard_quality =
  qual_status :: string
  qual_warnings :: "string list"

record dashboard =
  dash_report_key :: key
  dash_version :: string
  dash_period :: period
  dash_comparison_period :: period
  dash_timezone :: string
  dash_generated_at :: "instant option"
  dash_kpis :: "dashboard_metric list"
  dash_visualizations :: "dashboard_visualization list"
  dash_quality :: dashboard_quality

text \<open>The zero value DashboardVisualization{}, which the builders return for nothing to show.\<close>

definition empty_visualization :: dashboard_visualization where
  "empty_visualization = \<lparr>vis_key = '''', vis_title = '''', vis_intent = IntentUnset,
     vis_unit = UnitUnset, vis_categories = [], vis_series = [], vis_note = ''''\<rparr>"

end
