(* ===== verification/Decimal.thy ===== *)
theory Decimal
  imports Text
begin

text \<open>
  Decimal texts (report/summary.go): the regular expression and limits of decimal, which reads a
  text into a rational (math/big.Rat), FloatString and money, which print a rational with a fixed
  number of digits, and integerText.  The round trips at the end say that what the program prints
  it reads back, up to half a unit of the last digit.
\<close>

section \<open>Reading\<close>

definition maximum_decimal_text_length :: nat where "maximum_decimal_text_length = 256"
definition maximum_decimal_exponent :: int where "maximum_decimal_exponent = 10000"

datatype decimal_error = DecimalTooLong | NotADecimal | DecimalExponentLimit

text \<open>
  The groups of decimalPattern: the sign, the digits before the point, the digits after it
  (empty when there is no point) and the exponent text (empty when there is none).  The pattern is
  deterministic: digits are read as far as they go.
\<close>

record decimal_match =
  dm_neg :: bool
  dm_int :: string
  dm_frac :: string
  dm_exp :: string

definition match_exponent :: "string \<Rightarrow> string option" where
  "match_exponent s = (case s of
     [] \<Rightarrow> Some []
   | c # t \<Rightarrow> if c = CHR ''e'' \<or> c = CHR ''E''
       then (let d = (case t of [] \<Rightarrow> [] | x # u \<Rightarrow> if x = CHR ''+'' \<or> x = CHR ''-'' then u else t)
             in if d \<noteq> [] \<and> list_all is_digit d then Some t else None)
       else None)"

definition match_fraction :: "string \<Rightarrow> (string \<times> string) option" where
  "match_fraction s = (case s of
     [] \<Rightarrow> Some ([], [])
   | c # t \<Rightarrow> if c = CHR ''.''
       then (let f = takeWhile is_digit t
             in if f = [] then None else Some (f, dropWhile is_digit t))
       else Some ([], s))"

definition decimal_pattern :: "string \<Rightarrow> decimal_match option" where
  "decimal_pattern s = (
     let neg = (case s of [] \<Rightarrow> False | c # _ \<Rightarrow> c = CHR ''-'');
         body = (if neg then tl s else s);
         i = takeWhile is_digit body
     in if i = [] then None
        else (case match_fraction (dropWhile is_digit body) of
            None \<Rightarrow> None
          | Some (f, rest) \<Rightarrow> (case match_exponent rest of
              None \<Rightarrow> None
            | Some e \<Rightarrow> Some \<lparr>dm_neg = neg, dm_int = i, dm_frac = f, dm_exp = e\<rparr>)))"

text \<open>A signed decimal integer, without and with the range of a 64 bit int (strconv.Atoi).\<close>

definition signed_val :: "string \<Rightarrow> int" where
  "signed_val s = (case s of [] \<Rightarrow> 0
     | c # t \<Rightarrow> if c = CHR ''-'' then - int (digits_val t)
               else if c = CHR ''+'' then int (digits_val t) else int (digits_val s))"

definition atoi :: "string \<Rightarrow> int option" where
  "atoi s = (let d = (case s of [] \<Rightarrow> [] | c # t \<Rightarrow> if c = CHR ''-'' \<or> c = CHR ''+'' then t else s)
     in if d \<noteq> [] \<and> list_all is_digit d \<and> - (2 ^ 63) \<le> signed_val s \<and> signed_val s < 2 ^ 63
        then Some (signed_val s) else None)"

definition pow10 :: "int \<Rightarrow> rat" where
  "pow10 k = (if 0 \<le> k then 10 ^ nat k else 1 / 10 ^ nat (- k))"

text \<open>big.Rat.SetString on a text of the pattern: coefficient times a power of ten.\<close>

definition decimal_value :: "decimal_match \<Rightarrow> rat" where
  "decimal_value m = (
     (if dm_neg m then - 1 else 1) * of_nat (digits_val (dm_int m @ dm_frac m))
     * pow10 (signed_val (dm_exp m) - int (length (dm_frac m))))"

definition decimal :: "string \<Rightarrow> decimal_error + rat" where
  "decimal s = (if s = [] then Inr 0
     else if length s > maximum_decimal_text_length then Inl DecimalTooLong
     else (case decimal_pattern s of
         None \<Rightarrow> Inl NotADecimal
       | Some m \<Rightarrow>
           if list_all (\<lambda>c. c = CHR ''0'') (dm_int m @ dm_frac m) then Inr 0
           else if dm_exp m \<noteq> [] \<and> (signed_val (dm_exp m) < - maximum_decimal_exponent
                                      \<or> signed_val (dm_exp m) > maximum_decimal_exponent)
           then Inl DecimalExponentLimit
           else Inr (decimal_value m)))"

section \<open>Printing\<close>

text \<open>
  big.Rat.FloatString: the absolute value rounded half up to prec digits, with the sign of the
  number in front (a small negative number prints as -0.00).
\<close>

definition rounded :: "nat \<Rightarrow> rat \<Rightarrow> nat" where
  "rounded prec x = nat \<lfloor>\<bar>x\<bar> * 10 ^ prec + 1 / 2\<rfloor>"

definition float_string :: "nat \<Rightarrow> rat \<Rightarrow> string" where
  "float_string prec x = (let n = rounded prec x in
     (if x < 0 then ''-'' else '''') @ nat_str (n div 10 ^ prec)
     @ (if prec = 0 then [] else CHR ''.'' # fix_digits prec (n mod 10 ^ prec)))"

definition money :: "rat \<Rightarrow> string" where "money x = float_string 2 x"

definition rat_trunc :: "rat \<Rightarrow> int" where
  "rat_trunc x = (if x < 0 then - \<lfloor>- x\<rfloor> else \<lfloor>x\<rfloor>)"

definition integer_text :: "string \<Rightarrow> string" where
  "integer_text s = (case decimal s of Inl _ \<Rightarrow> s | Inr x \<Rightarrow> int_str (rat_trunc x))"

section \<open>Matching what was printed\<close>

lemma takeWhile_digits: "list_all is_digit d \<Longrightarrow> (case rest of [] \<Rightarrow> True | c # _ \<Rightarrow> \<not> is_digit c) \<Longrightarrow>
    takeWhile is_digit (d @ rest) = d \<and> dropWhile is_digit (d @ rest) = rest"
  by (induction d) (auto split: list.splits)

lemma not_digit_punct [simp]:
  "\<not> is_digit CHR ''.''" "\<not> is_digit CHR ''-''" "\<not> is_digit CHR ''e''" "\<not> is_digit CHR ''E''" "\<not> is_digit CHR ''+''"
  by (simp_all add: is_digit_def)

lemma digit_not_punct: "is_digit c \<Longrightarrow> c \<noteq> CHR ''-'' \<and> c \<noteq> CHR ''+'' \<and> c \<noteq> CHR ''.''"
  by (auto simp: is_digit_def)

lemma pattern_unsigned:
  assumes "list_all is_digit i" "i \<noteq> []" "list_all is_digit f"
  shows "decimal_pattern (s @ i @ (if f = [] then [] else CHR ''.'' # f)) =
    (if s = '''' \<or> s = ''-'' then Some \<lparr>dm_neg = (s \<noteq> ''''), dm_int = i, dm_frac = f, dm_exp = ''''\<rparr>
     else decimal_pattern (s @ i @ (if f = [] then [] else CHR ''.'' # f)))"
proof -
  let ?r = "if f = [] then [] else CHR ''.'' # f"
  have tw: "takeWhile is_digit (i @ ?r) = i" "dropWhile is_digit (i @ ?r) = ?r"
    using takeWhile_digits[OF assms(1), of ?r] by auto
  have fr: "match_fraction ?r = Some (f, [])"
    using takeWhile_digits[OF assms(3), of "[]"] by (cases f) (simp_all add: match_fraction_def Let_def)
  obtain c t where i: "i = c # t" using assms(2) by (cases i) auto
  then have "c \<noteq> CHR ''-''" using assms(1) digit_not_punct by auto
  then show ?thesis
    using tw fr i by (simp add: decimal_pattern_def Let_def match_exponent_def)
qed

lemma all_zero_iff: "list_all is_digit s \<Longrightarrow> list_all (\<lambda>c. c = CHR ''0'') s \<longleftrightarrow> digits_val s = 0"
proof (induction s rule: rev_induct)
  case (snoc c s)
  have "digit_val c = 0 \<longleftrightarrow> c = CHR ''0''" if "is_digit c"
  proof -
    have "digit_val (CHR ''0'') = 0" by (simp add: digit_val_def)
    moreover have "c = CHR ''0''" if "digit_val c = 0"
      using digit_char_digit_val[OF \<open>is_digit c\<close>] that by (simp add: digit_char_0)
    ultimately show ?thesis by auto
  qed
  with snoc show ?case by auto
qed simp

text \<open>The value of a number printed with a sign, an integer part and a fixed number of digits.\<close>

lemma decimal_fixed:
  assumes "s = '''' \<or> s = ''-''" "list_all is_digit i" "i \<noteq> []" "list_all is_digit f"
    and "length (s @ i @ (if f = [] then [] else CHR ''.'' # f)) \<le> 256"
  shows "decimal (s @ i @ (if f = [] then [] else CHR ''.'' # f)) =
    Inr ((if s = '''' then 1 else - 1) * of_nat (digits_val (i @ f)) / 10 ^ length f)"
proof -
  have p: "decimal_pattern (s @ i @ (if f = [] then [] else CHR ''.'' # f)) =
      Some \<lparr>dm_neg = (s \<noteq> ''''), dm_int = i, dm_frac = f, dm_exp = ''''\<rparr>"
    using pattern_unsigned[OF assms(2-4), of s] assms(1) by auto
  have ne: "s @ i @ (if f = [] then [] else CHR ''.'' # f) \<noteq> []" using assms(3) by simp
  have z: "list_all (\<lambda>c. c = CHR ''0'') (i @ f) \<longleftrightarrow> digits_val (i @ f) = 0"
    using assms(2,4) by (intro all_zero_iff) simp
  show ?thesis
    using p ne z assms(5)
    by (auto simp: decimal_def decimal_value_def signed_val_def pow10_def maximum_decimal_text_length_def)
qed

lemma float_string_decimal:
  assumes "length (float_string prec x) \<le> 256"
  shows "decimal (float_string prec x) =
    Inr ((if x < 0 then - 1 else 1) * of_nat (rounded prec x) / 10 ^ prec)"
proof -
  define n where "n = rounded prec x"
  define i where "i = nat_str (n div 10 ^ prec)"
  define f where "f = fix_digits prec (n mod 10 ^ prec)"
  define s :: string where "s = (if x < 0 then ''-'' else '''')"
  have fs: "float_string prec x = s @ i @ (if f = [] then [] else CHR ''.'' # f)"
    by (auto simp: float_string_def n_def i_def f_def s_def Let_def simp flip: length_0_conv)
  have dig: "list_all is_digit i" "i \<noteq> []" "list_all is_digit f"
    by (simp_all add: i_def f_def nat_str_digits fix_digits_digits)
  have val: "digits_val (i @ f) = n"
    unfolding i_def f_def digits_val_append digits_val_fix_digits length_fix_digits digits_val_nat_str
      mod_mod_trivial by (rule div_mult_mod_eq)
  have "decimal (float_string prec x) = Inr ((if s = '''' then 1 else - 1) * of_nat (digits_val (i @ f)) / 10 ^ length f)"
    unfolding fs
    by (rule decimal_fixed) (use dig assms fs in \<open>auto simp: s_def\<close>)
  then have "decimal (float_string prec x) = Inr ((if s = '''' then 1 else - 1) * of_nat n / 10 ^ prec)"
    unfolding val by (simp add: f_def)
  then show ?thesis by (simp add: n_def s_def)
qed

lemma rounded_error: "\<bar>of_nat (rounded prec x) / 10 ^ prec - \<bar>x\<bar>\<bar> \<le> 1 / (2 * 10 ^ prec)"
proof -
  define k :: rat where "k = 10 ^ prec"
  have k: "0 < k" by (simp add: k_def)
  define z where "z = \<bar>x\<bar> * k + 1 / 2"
  have "0 \<le> z" using k by (simp add: z_def)
  then have n: "(of_nat (rounded prec x) :: rat) = of_int \<lfloor>z\<rfloor>"
    by (simp add: rounded_def z_def k_def)
  have "of_int \<lfloor>z\<rfloor> \<le> z" "z < of_int \<lfloor>z\<rfloor> + 1" by linarith+
  then have "\<bar>of_int \<lfloor>z\<rfloor> - \<bar>x\<bar> * k\<bar> \<le> 1 / 2" unfolding z_def by linarith
  then have "\<bar>of_int \<lfloor>z\<rfloor> - \<bar>x\<bar> * k\<bar> / k \<le> 1 / 2 / k"
    using k by (intro divide_right_mono) simp_all
  then have "\<bar>(of_int \<lfloor>z\<rfloor> - \<bar>x\<bar> * k) / k\<bar> \<le> 1 / (2 * k)"
    using k by (simp add: abs_divide)
  moreover have "(of_int \<lfloor>z\<rfloor> - \<bar>x\<bar> * k) / k = of_int \<lfloor>z\<rfloor> / k - \<bar>x\<bar>" using k by (simp add: field_simps)
  ultimately show ?thesis unfolding n k_def[symmetric] by simp
qed

lemma rounded_exact: "rounded prec (of_nat n / 10 ^ prec) = n" "rounded prec (- (of_nat n / 10 ^ prec)) = n"
proof -
  have "\<lfloor>(of_nat n :: rat) + 1 / 2\<rfloor> = int n" by (simp add: floor_unique)
  then show "rounded prec (of_nat n / 10 ^ prec) = n" "rounded prec (- (of_nat n / 10 ^ prec)) = n"
    by (simp_all add: rounded_def)
qed

lemma decimal_Nil [simp]: "decimal [] = Inr 0"
  by (simp add: decimal_def)

lemma decimal_nat_str: "length (nat_str n) \<le> 256 \<Longrightarrow> decimal (nat_str n) = Inr (of_nat n)"
  using decimal_fixed[of "''''" "nat_str n" "''''"] by (simp add: nat_str_digits)

lemma decimal_int_str: "length (int_str i) \<le> 256 \<Longrightarrow> decimal (int_str i) = Inr (of_int i)"
  using decimal_fixed[of "''-''" "nat_str (nat (- i))" "''''"] decimal_nat_str[of "nat i"]
  by (auto simp: int_str_def nat_str_digits)

lemma atoi_int_str:
  assumes "- (2 ^ 63) \<le> i" "i < 2 ^ 63"
  shows "atoi (int_str i) = Some i"
proof -
  obtain c t where s: "nat_str (nat \<bar>i\<bar>) = c # t" by (cases "nat_str (nat \<bar>i\<bar>)") auto
  have d: "list_all is_digit (c # t)" using nat_str_digits[of "nat \<bar>i\<bar>"] s by simp
  have v: "digits_val (c # t) = nat \<bar>i\<bar>" using digits_val_nat_str[of "nat \<bar>i\<bar>"] s by simp
  show ?thesis
    using s d v assms digit_not_punct[of c]
    by (cases "i < 0") (auto simp: atoi_def int_str_def signed_val_def Let_def)
qed

section \<open>Properties\<close>

text \<open>C20: what FloatString prints (money among it) is read back as a decimal within half a unit of
  the last digit, and printing the value read gives the same text, up to the sign of a negative
  number that rounds to zero.\<close>

theorem float_string_round_trip:
  assumes "length (float_string prec x) \<le> 256"
  shows "\<exists>y. decimal (float_string prec x) = Inr y \<and> \<bar>y - x\<bar> \<le> 1 / (2 * 10 ^ prec)
           \<and> (y = 0 \<and> x < 0 \<or> float_string prec y = float_string prec x)"
proof -
  let ?n = "rounded prec x"
  define y :: rat where "y = (if x < 0 then - 1 else 1) * of_nat ?n / 10 ^ prec"
  have "decimal (float_string prec x) = Inr y"
    unfolding y_def by (rule float_string_decimal[OF assms])
  moreover have "\<bar>y - x\<bar> \<le> 1 / (2 * 10 ^ prec)"
    using rounded_error[of prec x] by (auto simp: y_def)
  moreover have "y = 0 \<and> x < 0 \<or> float_string prec y = float_string prec x"
  proof (cases "y = 0 \<and> x < 0")
    case False
    have "rounded prec y = ?n"
      using rounded_exact[of prec ?n] by (simp add: y_def)
    moreover have "y < 0 \<longleftrightarrow> x < 0"
      using False by (auto simp: y_def divide_less_0_iff)
    ultimately show ?thesis by (simp add: float_string_def)
  qed simp
  ultimately show ?thesis by blast
qed

theorem float_string_round_trip_witness:
  "\<exists>y. decimal (float_string 2 (- 1234567 / 1000)) = Inr y \<and> \<bar>y - (- 1234567 / 1000)\<bar> \<le> 1 / (2 * 10 ^ 2)"
proof -
  have "\<lfloor>(1234567 / 1000 :: rat) * 10 ^ 2 + 1 / 2\<rfloor> = 123457" by (simp add: floor_eq_iff)
  then have r: "rounded 2 (- 1234567 / 1000) = 123457" by (simp add: rounded_def)
  have "length (nat_str 1234) = 4" by code_simp
  with r have "length (float_string 2 (- 1234567 / 1000)) \<le> 256"
    by (simp add: float_string_def del: fix_digits.simps)
  from float_string_round_trip[OF this] show ?thesis by blast
qed

end
