(* ===== verification/Summary.thy ===== *)
theory Summary
  imports Decimal Dashboard_Data
begin

text \<open>
  Summarize (report/summary.go): the totals of a report from the rows of its query steps.

  A row is a Go map from column to text; a missing column reads as the empty string (fld).  The
  steps are a Go map from step name to rows.  Go ranges over a map in an unspecified order, so
  the model keeps the steps as an association list in the order of one such iteration, and the
  properties say which results depend on that order.
\<close>

section \<open>Rows and steps\<close>

type_synonym row = "string \<rightharpoonup> string"
type_synonym steps = "(string \<times> row list) list"

definition fld :: "row \<Rightarrow> string \<Rightarrow> string" where "fld r k = coalesce (r k) ''''"

definition step_rows :: "steps \<Rightarrow> string \<Rightarrow> row list" where
  "step_rows steps name = coalesce (map_of steps name) []"

definition is_true :: "string \<Rightarrow> bool" where "is_true v \<longleftrightarrow> v = ''true'' \<or> v = ''1''"

definition is_metric_row :: "row \<Rightarrow> bool" where
  "is_metric_row r \<longleftrightarrow> is_true (fld r ''_summary_metric_row'')"

definition real_summary_rows :: "row list \<Rightarrow> row list" where
  "real_summary_rows rows = filter (\<lambda>r. \<not> is_metric_row r) rows"

definition count_true :: "row list \<Rightarrow> string \<Rightarrow> nat" where
  "count_true rows field = length (filter (\<lambda>r. is_true (fld r field)) rows)"

definition flatten_rows :: "key \<Rightarrow> steps \<Rightarrow> row list" where
  "flatten_rows k steps = (
     let names = (if k = SalesGoodsServices \<or> k = PurchaseGoodsPayables
                  then [''headers'', ''details''] else [''rows''])
     in concat (map (\<lambda>name. map (\<lambda>r. if length names > 1 then r(''_section'' \<mapsto> name) else r)
                                (real_summary_rows (step_rows steps name))) names))"

section \<open>Metrics computed by the query\<close>

definition has_metric :: "string \<Rightarrow> row \<Rightarrow> bool" where
  "has_metric k r \<longleftrightarrow> (case r (''_metric_'' @ k) of None \<Rightarrow> False | Some v \<Rightarrow> v \<noteq> '''')"

definition summary_metric :: "steps \<Rightarrow> string \<Rightarrow> string option" where
  "summary_metric steps k = (case filter (has_metric k) (concat (map snd steps)) of
     [] \<Rightarrow> None | r # _ \<Rightarrow> r (''_metric_'' @ k))"

definition summary_metric_or :: "steps \<Rightarrow> string \<Rightarrow> string \<Rightarrow> string" where
  "summary_metric_or steps k fallback = coalesce (summary_metric steps k) fallback"

datatype summary_error = KeyNotApproved | FieldInvalid string decimal_error
  | RawDecimal decimal_error | TrendPeriodInvalid | DashboardKeyNotApproved
  | DashboardUndefined key | KpiInvalid string decimal_error

definition field_decimal :: "string \<Rightarrow> string \<Rightarrow> summary_error + rat" where
  "field_decimal field v = (case decimal v of Inl e \<Rightarrow> Inl (FieldInvalid field e) | Inr x \<Rightarrow> Inr x)"

fun sum_field :: "row list \<Rightarrow> string \<Rightarrow> summary_error + rat" where
  "sum_field [] field = Inr 0"
| "sum_field (r # rows) field = bindr (field_decimal field (fld r field)) (\<lambda>x.
     bindr (sum_field rows field) (\<lambda>t. Inr (x + t)))"

definition summary_decimal_or :: "steps \<Rightarrow> string \<Rightarrow> row list \<Rightarrow> string \<Rightarrow> summary_error + rat" where
  "summary_decimal_or steps metric rows field = (case summary_metric steps metric of
     Some v \<Rightarrow> field_decimal (''_metric_'' @ metric) v
   | None \<Rightarrow> sum_field (real_summary_rows rows) field)"

definition money_metric_or :: "steps \<Rightarrow> string \<Rightarrow> rat \<Rightarrow> string" where
  "money_metric_or steps k fallback = (case summary_metric steps k of
     Some v \<Rightarrow> (case decimal v of Inr x \<Rightarrow> money x | Inl _ \<Rightarrow> money fallback)
   | None \<Rightarrow> money fallback)"

definition decimal_metric_or_zero :: "steps \<Rightarrow> string \<Rightarrow> string" where
  "decimal_metric_or_zero steps k = money_metric_or steps k 0"

section \<open>Summarize\<close>

datatype recon_value = ReconText string | ReconInt int

record summary_result =
  sum_metrics :: "string \<rightharpoonup> string"
  sum_rows :: "row list"
  sum_row_count :: int
  sum_reconciliation :: "string \<rightharpoonup> recon_value"
  sum_dashboard :: "dashboard option"

type_synonym summary_parts = "(string \<rightharpoonup> string) \<times> (string \<rightharpoonup> recon_value)"

definition count_text :: "row list \<Rightarrow> string" where
  "count_text rows = nat_str (length rows)"

definition summarize_documents :: "steps \<Rightarrow> summary_error + summary_parts" where
  "summarize_documents steps = (
     let headers = real_summary_rows (step_rows steps ''headers'') in
     bindr (sum_field headers ''total_amount'') (\<lambda>total.
     let total_metric = money_metric_or steps ''total_amount'' total in
     bindr (sum_field (real_summary_rows (step_rows steps ''details'')) ''sum_amount'') (\<lambda>detail_rows.
     bindr (field_decimal ''_metric_total_amount'' total_metric) (\<lambda>metric_total.
     bindr (case summary_metric steps ''detail_total'' of
              Some v \<Rightarrow> field_decimal ''_metric_detail_total'' v
            | None \<Rightarrow> Inr detail_rows) (\<lambda>detail_total.
     Inr ([''document_count'' \<mapsto> summary_metric_or steps ''document_count'' (count_text headers),
           ''total_amount'' \<mapsto> total_metric],
          [''headerTotal'' \<mapsto> ReconText (money metric_total),
           ''detailTotal'' \<mapsto> ReconText (money detail_total),
           ''difference'' \<mapsto> ReconText (money (metric_total - detail_total))]))))))"

definition summarize_gross_profit :: "steps \<Rightarrow> summary_error + summary_parts" where
  "summarize_gross_profit steps = (
     let rows = step_rows steps ''rows'' in
     bindr (summary_decimal_or steps ''amount_sale'' rows ''amount_sale'') (\<lambda>amount_sale.
     bindr (summary_decimal_or steps ''cost_sale'' rows ''cost_sale'') (\<lambda>cost_sale.
     bindr (summary_decimal_or steps ''amount_sale_return'' rows ''amount_sale_return'') (\<lambda>amount_return.
     bindr (summary_decimal_or steps ''cost_sale_return'' rows ''cost_sale_return'') (\<lambda>cost_return.
     let net_amount = amount_sale - amount_return;
         net_cost = cost_sale - cost_return;
         gross_profit = net_amount - net_cost
     in Inr ([''gross_profit_amount'' \<mapsto> money gross_profit,
              ''gross_margin_percent'' \<mapsto>
                 (if net_amount = 0 then ''0.00'' else float_string 2 (gross_profit * 100 / net_amount))],
             [''netAmount'' \<mapsto> ReconText (money net_amount),
              ''netCost'' \<mapsto> ReconText (money net_cost)]))))))"

definition summarize_stock_balance :: "steps \<Rightarrow> summary_error + summary_parts" where
  "summarize_stock_balance steps = (
     let rows = step_rows steps ''rows'' in
     bindr (summary_decimal_or steps ''balance_amount'' rows ''balance_amount'') (\<lambda>balance.
     Inr ([''item_count'' \<mapsto> summary_metric_or steps ''item_count'' (count_text (real_summary_rows rows)),
           ''balance_amount'' \<mapsto> money balance,
           ''amount_in'' \<mapsto> decimal_metric_or_zero steps ''amount_in'',
           ''amount_out'' \<mapsto> decimal_metric_or_zero steps ''amount_out''], Map.empty)))"

fun sum_shortage :: "row list \<Rightarrow> summary_error + rat" where
  "sum_shortage [] = Inr 0"
| "sum_shortage (r # rows) =
     bindr (field_decimal ''purchase_point'' (fld r ''purchase_point'')) (\<lambda>point.
     bindr (field_decimal ''balance_qty'' (fld r ''balance_qty'')) (\<lambda>balance.
     bindr (sum_shortage rows) (\<lambda>t. Inr ((if point - balance > 0 then point - balance else 0) + t))))"

definition summarize_stock_reorder :: "steps \<Rightarrow> summary_error + summary_parts" where
  "summarize_stock_reorder steps = (
     let rows = step_rows steps ''rows'';
         count = summary_metric_or steps ''reorder_item_count'' (count_text (real_summary_rows rows))
     in bindr (case summary_metric steps ''shortage_qty'' of
                 Some v \<Rightarrow> field_decimal ''_metric_shortage_qty'' v
               | None \<Rightarrow> sum_shortage (real_summary_rows rows)) (\<lambda>shortage.
        Inr ([''reorder_item_count'' \<mapsto> count, ''shortage_qty'' \<mapsto> float_string 4 shortage], Map.empty)))"

definition is_credit :: "row \<Rightarrow> bool" where
  "is_credit r \<longleftrightarrow> fld r ''doc_sort'' = ''2'' \<or> fld r ''doc_sort'' = ''3''"

fun net_movement :: "row list \<Rightarrow> summary_error + rat" where
  "net_movement [] = Inr 0"
| "net_movement (r # rows) = bindr (field_decimal ''amount'' (fld r ''amount'')) (\<lambda>x.
     bindr (net_movement rows) (\<lambda>t. Inr ((if is_credit r then - x else x) + t)))"

definition summarize_customer_movement :: "steps \<Rightarrow> summary_error + summary_parts" where
  "summarize_customer_movement steps = (case summary_metric steps ''customer_count'' of
     Some v \<Rightarrow> Inr ([''customer_count'' \<mapsto> integer_text v,
                     ''net_movement_amount'' \<mapsto> money_metric_or steps ''net_movement_amount'' 0,
                     ''debit_amount'' \<mapsto> money_metric_or steps ''debit_amount'' 0,
                     ''credit_amount'' \<mapsto> money_metric_or steps ''credit_amount'' 0], Map.empty)
   | None \<Rightarrow> (let rows = step_rows steps ''rows'' in
       bindr (net_movement rows) (\<lambda>net.
       Inr ([''customer_count'' \<mapsto> nat_str (card (set (map (\<lambda>r. fld r ''cust_code'') rows))),
             ''net_movement_amount'' \<mapsto> money net], Map.empty))))"

definition summarize_debt_receipt :: "steps \<Rightarrow> summary_error + summary_parts" where
  "summarize_debt_receipt steps = (
     let rows = step_rows steps ''rows'' in
     bindr (summary_decimal_or steps ''total_amount'' rows ''total_net_value'') (\<lambda>total.
     Inr ([''receipt_count'' \<mapsto> summary_metric_or steps ''receipt_count'' (count_text (real_summary_rows rows)),
           ''total_received_amount'' \<mapsto> money total,
           ''payment_split_missing_count'' \<mapsto> summary_metric_or steps ''payment_split_missing_count''
              (nat_str (count_true (real_summary_rows rows) ''payment_split_missing''))], Map.empty)))"

definition summarize_cash_bank :: "steps \<Rightarrow> summary_error + summary_parts" where
  "summarize_cash_bank steps = (
     let rows = step_rows steps ''rows'' in
     bindr (summary_decimal_or steps ''total_amount'' rows ''total_amount'') (\<lambda>total.
     Inr ([''document_count'' \<mapsto> summary_metric_or steps ''document_count'' (count_text (real_summary_rows rows)),
           ''total_amount'' \<mapsto> money total], Map.empty)))"

definition summarize_parts :: "key \<Rightarrow> steps \<Rightarrow> summary_error + summary_parts" where
  "summarize_parts k steps = (case k of
     SalesGoodsServices \<Rightarrow> summarize_documents steps
   | PurchaseGoodsPayables \<Rightarrow> summarize_documents steps
   | GrossProfitByProduct \<Rightarrow> summarize_gross_profit steps
   | GrossProfitByARCustomer \<Rightarrow> summarize_gross_profit steps
   | StockBalance \<Rightarrow> summarize_stock_balance steps
   | StockReorder \<Rightarrow> summarize_stock_reorder steps
   | ARCustomerMovement \<Rightarrow> summarize_customer_movement steps
   | ARDebtReceipt \<Rightarrow> summarize_debt_receipt steps
   | CashBankReceipts \<Rightarrow> summarize_cash_bank steps
   | CashBankPayments \<Rightarrow> summarize_cash_bank steps
   | OtherKey _ \<Rightarrow> Inr (Map.empty, Map.empty))"

definition summary_row_count :: "key \<Rightarrow> steps \<Rightarrow> int" where
  "summary_row_count k steps = (
     let flat = int (length (flatten_rows k steps)) in
     case summary_metric steps ''row_count'' of
       None \<Rightarrow> flat | Some v \<Rightarrow> coalesce (atoi (integer_text v)) flat)"

definition summarize :: "key \<Rightarrow> steps \<Rightarrow> summary_error + summary_result" where
  "summarize k steps = (
     if definition_for k = None then Inl KeyNotApproved
     else bindr (summarize_parts k steps) (\<lambda>(metrics, recon).
       Inr \<lparr>sum_metrics = metrics, sum_rows = flatten_rows k steps,
            sum_row_count = summary_row_count k steps,
            sum_reconciliation = ([''status'' \<mapsto> ReconText ''OK''] ++ recon)
               (''rowCount'' \<mapsto> ReconInt (summary_row_count k steps)),
            sum_dashboard = None\<rparr>))"

section \<open>Sums over rows\<close>

text \<open>The values a list of rows has in one column, when all of them are decimals.\<close>

definition column :: "row list \<Rightarrow> string \<Rightarrow> rat list \<Rightarrow> bool" where
  "column rows field xs \<longleftrightarrow> list_all2 (\<lambda>r x. decimal (fld r field) = Inr x) rows xs"

lemma column_simps [simp]:
  "column [] field xs \<longleftrightarrow> xs = []"
  "column (r # rows) field xs \<longleftrightarrow> (\<exists>y ys. xs = y # ys \<and> decimal (fld r field) = Inr y \<and> column rows field ys)"
  by (auto simp: column_def list_all2_Cons1)

lemma field_decimal_Inr: "field_decimal f v = Inr x \<longleftrightarrow> decimal v = Inr x"
  by (auto simp: field_decimal_def split: sum.splits)

lemma sum_field_Inr: "sum_field rows field = Inr t \<longleftrightarrow> (\<exists>xs. column rows field xs \<and> t = sum_list xs)"
proof (induction rows arbitrary: t)
  case (Cons r rows)
  show ?case
  proof
    assume "sum_field (r # rows) field = Inr t"
    then obtain x u where "decimal (fld r field) = Inr x" "sum_field rows field = Inr u" "t = x + u"
      by (auto simp: field_decimal_Inr)
    moreover from this Cons.IH[of u] obtain xs where "column rows field xs" "u = sum_list xs" by blast
    ultimately have "column (r # rows) field (x # xs)" "t = sum_list (x # xs)" by simp_all
    then show "\<exists>xs. column (r # rows) field xs \<and> t = sum_list xs" by blast
  qed (auto simp: field_decimal_Inr Cons.IH)
qed simp

lemma sum_field_Inl: "sum_field rows field = Inl e \<Longrightarrow> \<exists>d. e = FieldInvalid field d"
  by (induction rows) (auto simp: bindr_Inl_iff field_decimal_def split: sum.splits)

lemma column_unique: "column rows field xs \<Longrightarrow> column rows field ys \<Longrightarrow> xs = ys"
  by (induction rows arbitrary: xs ys) auto

lemma column_length: "column rows field xs \<Longrightarrow> length xs = length rows"
  by (simp add: column_def list_all2_lengthD)

lemma column_append: "column (rows @ rows') field zs \<longleftrightarrow>
    (\<exists>xs ys. zs = xs @ ys \<and> column rows field xs \<and> column rows' field ys)"
proof
  assume "column (rows @ rows') field zs"
  then show "\<exists>xs ys. zs = xs @ ys \<and> column rows field xs \<and> column rows' field ys"
    unfolding column_def list_all2_append1 by blast
qed (auto simp: column_def intro: list_all2_appendI)

section \<open>The order of the map iteration\<close>

definition metric_steps :: "string \<Rightarrow> steps \<Rightarrow> steps" where
  "metric_steps k steps = filter (\<lambda>(name, rows). list_ex (has_metric k) rows) steps"

lemma filter_has_metric:
  "filter (has_metric k) (concat (map snd steps)) =
   filter (has_metric k) (concat (map snd (metric_steps k steps)))"
proof (induction steps)
  case (Cons s steps)
  have "\<not> list_ex (has_metric k) rows \<Longrightarrow> filter (has_metric k) rows = []" for rows
    by (induction rows) auto
  with Cons show ?case by (cases s) (auto simp: metric_steps_def)
qed (simp add: metric_steps_def)

lemma metric_steps_perm:
  assumes "mset steps = mset steps'" "length (metric_steps k steps) \<le> 1"
  shows "metric_steps k steps' = metric_steps k steps"
proof -
  have m: "mset (metric_steps k steps) = mset (metric_steps k steps')"
    using assms(1) by (simp add: metric_steps_def)
  then have "length (metric_steps k steps') = length (metric_steps k steps)"
    using mset_eq_length by fastforce
  then consider "metric_steps k steps = []" "metric_steps k steps' = []"
    | a b where "metric_steps k steps = [a]" "metric_steps k steps' = [b]"
    using assms(2) by (cases "metric_steps k steps"; cases "metric_steps k steps'") auto
  then show ?thesis using m by cases auto
qed

lemma summary_metric_perm:
  assumes "mset steps = mset steps'" "length (metric_steps k steps) \<le> 1"
  shows "summary_metric steps' k = summary_metric steps k"
  using metric_steps_perm[OF assms] filter_has_metric[of k steps] filter_has_metric[of k steps']
  by (simp add: summary_metric_def)

lemma step_rows_perm:
  assumes "mset steps = mset steps'" "distinct (map fst steps)"
  shows "step_rows steps' name = step_rows steps name"
proof -
  have "mset (map fst steps) = mset (map fst steps')" using assms(1) by simp
  then have "distinct (map fst steps')" using assms(2) mset_eq_imp_distinct_iff by blast
  moreover have "set steps = set steps'" using assms(1) by (metis set_mset_mset)
  ultimately have "map_of steps' = map_of steps" using assms(2) by (simp add: map_of_inject_set)
  then show ?thesis by (simp add: step_rows_def)
qed

lemma flatten_rows_perm:
  "mset steps = mset steps' \<Longrightarrow> distinct (map fst steps) \<Longrightarrow> flatten_rows k steps' = flatten_rows k steps"
  using step_rows_perm[of steps steps'] by (simp add: flatten_rows_def)

lemmas summarize_defs = summarize_documents_def summarize_gross_profit_def summarize_stock_balance_def
  summarize_stock_reorder_def summarize_customer_movement_def summarize_debt_receipt_def
  summarize_cash_bank_def summary_decimal_or_def summary_metric_or_def money_metric_or_def
  decimal_metric_or_zero_def

lemma summarize_parts_perm:
  assumes "mset steps = mset steps'" "distinct (map fst steps)" "\<And>k. length (metric_steps k steps) \<le> 1"
  shows "summarize_parts k steps' = summarize_parts k steps"
proof -
  have *: "step_rows steps' = step_rows steps" "summary_metric steps' = summary_metric steps"
    using step_rows_perm[OF assms(1,2)] summary_metric_perm[OF assms(1,3)] by auto
  show ?thesis
    unfolding summarize_parts_def summarize_defs * by (rule refl)
qed

lemma sales_difference:
  assumes "sum_field (real_summary_rows (step_rows steps ''headers'')) ''total_amount'' = Inr t"
    "sum_field (real_summary_rows (step_rows steps ''details'')) ''sum_amount'' = Inr u"
    "summary_metric steps ''total_amount'' = Some tv" "decimal tv = Inr x" "decimal (money x) = Inr y"
    "summary_metric steps ''detail_total'' = Some dv" "decimal dv = Inr z"
  shows "\<exists>a. summarize SalesGoodsServices steps = Inr a \<and>
    sum_reconciliation a ''difference'' = Some (ReconText (money (y - z)))"
  using assms
  by (simp add: summarize_def summarize_parts_def summarize_documents_def definition_for_None keys_eq
      money_metric_or_def field_decimal_def Let_def)

section \<open>Properties\<close>

text \<open>the iteration order of the steps map does not change what Summarize returns, as long as
  no metric column is filled in two different steps.\<close>

theorem summarize_order_independent:
  assumes "mset steps = mset steps'" "distinct (map fst steps)"
    and "\<And>m. length (metric_steps m steps) \<le> 1"
  shows "summarize k steps' = summarize k steps"
  using summarize_parts_perm[OF assms] summary_metric_perm[OF assms(1) assms(3)]
    flatten_rows_perm[OF assms(1,2)]
  by (simp add: summarize_def summary_row_count_def)

theorem summarize_order_independent_witness:
  "summarize SalesGoodsServices [(''details'', []), (''headers'', [[''_metric_detail_total'' \<mapsto> ''7'']])]
   = summarize SalesGoodsServices [(''headers'', [[''_metric_detail_total'' \<mapsto> ''7'']]), (''details'', [])]"
proof (rule summarize_order_independent)
  fix m
  show "length (metric_steps m [(''headers'', [[''_metric_detail_total'' \<mapsto> ''7'']]), (''details'', [])]) \<le> 1"
    by (simp add: metric_steps_def)
qed simp_all

text \<open>the condition matters.  In the summary of sales both steps fill _metric_detail_total
  (the trend query with the total of the headers, the product query with the total of the
  details), so two iteration orders of the same map give two different reconciliations.\<close>

theorem sales_reconciliation_depends_on_order:
  "\<exists>steps steps' a b. mset steps = mset steps' \<and> distinct (map fst steps)
     \<and> summarize SalesGoodsServices steps = Inr a \<and> summarize SalesGoodsServices steps' = Inr b
     \<and> sum_reconciliation a ''difference'' \<noteq> sum_reconciliation b ''difference''"
proof -
  let ?h = "(''headers'', [[''_metric_total_amount'' \<mapsto> ''9'', ''_metric_detail_total'' \<mapsto> ''9'']]) :: string \<times> row list"
  let ?d = "(''details'', [[''_metric_detail_total'' \<mapsto> ''7'']]) :: string \<times> row list"
  have str: "nat_str 9 = ''9''" "nat_str 7 = ''7''" "nat_str 2 = ''2''"by code_simp+
  have dec: "decimal ''9'' = Inr 9" "decimal ''7'' = Inr 7"
    using decimal_nat_str[of 9] decimal_nat_str[of 7] by (simp_all add: str)
  have "\<lfloor>(900::rat) + 1 / 2\<rfloor> = 900" "\<lfloor>(200::rat) + 1 / 2\<rfloor> = 200" "\<lfloor>(1 / 2 :: rat)\<rfloor> = 0"
    by (simp_all add: floor_eq_iff)
  then have r: "rounded 2 9 = 900" "rounded 2 2 = 200" "rounded 2 0 = 0"
    by (simp_all add: rounded_def)
  have m: "money 9 = ''9.00''" "money 2 = ''2.00''" "money 0 = ''0.00''"
    unfolding money_def float_string_def r by code_simp+
  have dm: "decimal (money 9) = Inr 9"
    using float_string_decimal[of 2 9] m(1) r by (simp add: money_def)
  have sm: "summary_metric [?h, ?d] ''total_amount'' = Some ''9''" "summary_metric [?d, ?h] ''total_amount'' = Some ''9''"
    "summary_metric [?h, ?d] ''detail_total'' = Some ''9''" "summary_metric [?d, ?h] ''detail_total'' = Some ''7''"
    by (simp_all add: summary_metric_def has_metric_def)
  have sf: "step_rows s ''headers'' = [[''_metric_total_amount'' \<mapsto> ''9'', ''_metric_detail_total'' \<mapsto> ''9'']]"
    "step_rows s ''details'' = [[''_metric_detail_total'' \<mapsto> ''7'']]" if "s = [?h, ?d] \<or> s = [?d, ?h]" for s
    using that by (auto simp: step_rows_def)
  have zero: "sum_field (real_summary_rows (step_rows s ''headers'')) ''total_amount'' = Inr 0"
    "sum_field (real_summary_rows (step_rows s ''details'')) ''sum_amount'' = Inr 0"
    if "s = [?h, ?d] \<or> s = [?d, ?h]" for s
    by (simp_all add: sf[OF that] real_summary_rows_def is_metric_row_def is_true_def fld_def field_decimal_def)
  have a: "\<exists>a. summarize SalesGoodsServices [?h, ?d] = Inr a \<and> sum_reconciliation a ''difference'' = Some (ReconText (money (9 - 9)))"
    by (rule sales_difference[where t = 0 and u = 0 and tv = "''9''" and dv = "''9''"])
       (use zero sm dec dm in simp_all)
  have b: "\<exists>a. summarize SalesGoodsServices [?d, ?h] = Inr a \<and> sum_reconciliation a ''difference'' = Some (ReconText (money (9 - 7)))"
    by (rule sales_difference[where t = 0 and u = 0 and tv = "''9''" and dv = "''7''"])
       (use zero sm dec dm in simp_all)
  have ne: "money (9 - 9) \<noteq> money (9 - 7)" using m by simp
  show ?thesis
    using a b ne
    by (intro exI[of _ "[?h, ?d]"] exI[of _ "[?d, ?h]"]) (auto simp: add_mset_commute)
qed

end
