(* ===== verification/Tables.thy ===== *)
theory Tables
  imports Dashboard_Data Summary
begin

text \<open>
  The PostgreSQL tables the stores work on, as a record of lists of rows.  A row record has the
  columns the modelled statements read or write; NULL is None.  A statement over one table is
  update_where, count_where or select_first of the prelude, INSERT ... ON CONFLICT DO UPDATE is
  upsert_where.  A transaction of a store is one function from a database to a database; when it
  returns an error the deferred Rollback applies and the caller keeps the database it had.
\<close>

section \<open>Rows\<close>

record run_row =
  r_id :: uuid
  r_tenant :: uuid
  r_key :: key
  r_source :: source
  r_kind :: result_kind
  r_priority :: int
  r_execution_key :: "string option"
  r_idempotency :: string
  r_status :: run_status
  r_period :: period
  r_recipient :: "uuid option"
  r_claimed_by :: "string option"
  r_claimed_at :: "instant option"
  r_lease :: "instant option"
  r_attempt :: int
  r_row_count :: int
  r_summary :: "string \<rightharpoonup> string"
  r_reconciliation :: "string \<rightharpoonup> recon_value"
  r_dashboard :: "dashboard option"
  r_error_code :: "string option"
  r_error_message :: "string option"
  r_queued_at :: instant
  r_started_at :: "instant option"
  r_finished_at :: "instant option"
  r_source_started_at :: "instant option"
  r_source_finished_at :: "instant option"
  r_expires_at :: instant
  r_created_at :: instant
  r_updated_at :: instant
  r_definition_version :: string
  r_data_version :: int
  r_fingerprint :: string
  r_strategy :: execution_strategy
  r_consistency :: source_consistency
  r_phase :: progress_phase
  r_progress_seq :: int
  r_completed_steps :: int
  r_total_steps :: int
  r_progress_updated_at :: "instant option"
  r_expected_p50 :: "int option"
  r_expected_p90 :: "int option"
  r_sample_count :: int
  r_completed_chunks :: int
  r_total_chunks :: int

record circuit_row =
  c_tenant :: uuid
  c_failures :: int
  c_window_started_at :: "instant option"
  c_open_until :: "instant option"
  c_half_open_run :: "uuid option"
  c_updated_at :: instant

record host_circuit_row =
  h_host :: string
  h_failures :: int
  h_window_started_at :: "instant option"
  h_open_until :: "instant option"
  h_half_open_run :: "uuid option"
  h_updated_at :: instant

datatype readiness_status = ReadinessUntested | ReadinessReady | ReadinessFailed

record connection_row =
  k_tenant :: uuid
  k_host :: string
  k_version :: int
  k_readiness :: readiness_status
  k_last_tested_at :: "instant option"

datatype tenant_status = TenantActive | TenantDisabled | TenantExpired

record tenant_row =
  t_id :: uuid
  t_slug :: string
  t_name :: string
  t_timezone :: string
  t_status :: tenant_status
  t_access_ends_at :: instant
  t_version :: int
  t_created_at :: instant
  t_updated_at :: instant
  t_archived_at :: "instant option"

record runtime_row =
  q_tenant :: uuid
  q_last_claimed_at :: "instant option"
  q_updated_at :: instant


record definition_row =
  d_key :: key
  d_version :: string

record permission_row =
  p_tenant :: uuid
  p_recipient :: uuid
  p_key :: key

datatype recipient_status = RecipientPending | RecipientActive | RecipientRevoked

record membership_row =
  m_tenant :: uuid
  m_recipient :: uuid
  m_status :: recipient_status
  m_permissions_version :: int
  m_updated_at :: instant

text \<open>The identity of a recipient: the hash of the LINE user and the sealed user and name.\<close>

record recipient_row =
  u_id :: uuid
  u_line_hash :: "string option"
  u_line_user :: "string option"
  u_display_name :: string
  u_status :: recipient_status
  u_verified_at :: "instant option"
  u_created_at :: instant
  u_updated_at :: instant

record invitation_row =
  v_tenant :: uuid
  v_pending :: uuid
  v_reference_hash :: string
  v_created_at :: instant
  v_expires_at :: instant
  v_used_at :: "instant option"
  v_used_by :: "uuid option"

datatype schedule_status = ScheduleDraft | ScheduleActive | SchedulePaused | ScheduleExpired | ScheduleArchived

text \<open>A schedule with its child tables: the days sorted, the reports by position, the recipients by id.\<close>

record schedule_row =
  s_id :: uuid
  s_tenant :: uuid
  s_name :: string
  s_days :: "int list"
  s_local_time :: string
  s_timezone :: string
  s_preset :: preset
  s_keys :: "key list"
  s_recipients :: "uuid list"
  s_status :: schedule_status
  s_version :: int
  s_next_run_at :: "instant option"
  s_created_at :: instant
  s_updated_at :: instant
  s_archived_at :: "instant option"

datatype notification_status = NotificationQueued | NotificationCollecting | NotificationReady
  | NotificationSending | NotificationCompleted | NotificationPartialFailed | NotificationFailed
  | NotificationBlockedQuota | NotificationCancelled

record notification_row =
  n_id :: uuid
  n_tenant :: uuid
  n_schedule :: uuid
  n_scheduled_for :: instant
  n_materialization :: int
  n_status :: notification_status
  n_attempt :: int
  n_next_attempt_at :: instant
  n_claimed_by :: "string option"
  n_claimed_at :: "instant option"
  n_lease :: "instant option"
  n_error_code :: "string option"
  n_finished_at :: "instant option"
  n_updated_at :: instant

record notification_link =
  l_notification :: uuid
  l_key :: key
  l_run :: uuid
  l_position :: "int option"

datatype generation_status = GenerationBuilding | GenerationPublished | GenerationFailed
  | GenerationExpired

record generation_row =
  g_id :: uuid
  g_tenant :: uuid
  g_key :: string
  g_status :: generation_status
  g_preset :: preset
  g_from :: string
  g_to :: string
  g_report_set_hash :: string
  g_plan_set_fingerprint :: string
  g_data_version :: int
  g_consistency :: source_consistency
  g_total :: int
  g_completed :: int
  g_failed :: int
  g_source_started_at :: "instant option"
  g_source_finished_at :: "instant option"
  g_published_at :: "instant option"
  g_finished_at :: "instant option"
  g_created_at :: instant
  g_updated_at :: instant

record generation_link =
  gl_generation :: uuid
  gl_tenant :: uuid
  gl_key :: key
  gl_run :: uuid
  gl_position :: int

record head_row =
  hd_tenant :: uuid
  hd_key :: string
  hd_generation :: uuid
  hd_version :: int
  hd_updated_at :: instant

datatype refresh_status = RefreshQueued | RefreshRunning | RefreshSucceeded | RefreshPartial
  | RefreshFailed

record refresh_row =
  f_id :: uuid
  f_tenant :: uuid
  f_recipient :: uuid
  f_idempotency :: string
  f_total :: int
  f_generation :: "uuid option"
  f_request_hash :: "string option"
  f_status :: refresh_status
  f_completed :: int
  f_failed :: int
  f_finished_at :: "instant option"
  f_created_at :: instant
  f_updated_at :: instant

record refresh_link =
  fl_refresh :: uuid
  fl_key :: key
  fl_run :: uuid

datatype chunk_status = ChunkQueued | ChunkRunning | ChunkSucceeded | ChunkFailed

record chunk_row =
  ch_run :: uuid
  ch_number :: nat
  ch_key :: string
  ch_from :: string
  ch_to :: string
  ch_units :: "string list"
  ch_status :: chunk_status
  ch_attempt :: int
  ch_row_count :: int
  ch_result :: string
  ch_error_code :: "string option"
  ch_started_at :: "instant option"
  ch_finished_at :: "instant option"

record result_row =
  rr_run :: uuid
  rr_tenant :: uuid
  rr_ordinal :: nat
  rr_row :: row
  rr_created_at :: instant
  rr_expires_at :: instant

datatype delivery_status = DeliveryPending | DeliverySending | DeliveryAccepted | DeliveryRetryWait
  | DeliveryUncertain | DeliveryFailedPermanent

record delivery_row =
  dl_id :: uuid
  dl_tenant :: uuid
  dl_notification :: uuid
  dl_recipient :: uuid
  dl_status :: delivery_status
  dl_retry_key :: uuid
  dl_attempt :: int
  dl_provider_request :: "string option"
  dl_error_code :: "string option"
  dl_next_attempt_at :: "instant option"
  dl_accepted_at :: "instant option"
  dl_created_at :: instant
  dl_updated_at :: instant
  dl_expires_at :: instant

record outbox_row =
  o_id :: uuid
  o_delivery :: uuid
  o_tenant :: uuid
  o_payload :: string
  o_available_at :: instant
  o_claimed_by :: "string option"
  o_claimed_at :: "instant option"
  o_lease :: "instant option"
  o_attempt :: int
  o_completed_at :: "instant option"
  o_created_at :: instant

record access_link_row =
  al_reference_hash :: string
  al_delivery :: uuid
  al_tenant :: uuid
  al_recipient :: uuid
  al_created_at :: instant
  al_expires_at :: instant

record quota_row =
  qt_month :: instant
  qt_limit :: "int option"
  qt_consumed :: "int option"
  qt_accepted :: int
  qt_reserve_percent :: int
  qt_synced_at :: "instant option"
  qt_updated_at :: instant

text \<open>The answers that are stored to be replayed.\<close>

datatype execution_status = ExecutionCollecting | ExecutionFailed

record execution =
  x_id :: uuid
  x_tenant :: uuid
  x_schedule :: uuid
  x_scheduled_for :: instant
  x_status :: execution_status
  x_error_code :: string
  x_runs :: "uuid list"

datatype stored_response = StoredSchedule schedule_row | StoredExecution execution | StoredRecipient uuid | StoredTenant tenant_row

record idempotency_row =
  ir_scope :: string
  ir_key :: string
  ir_hash :: string
  ir_response :: "stored_response option"
  ir_expires_at :: instant

record db =
  db_runs :: "run_row list"
  db_circuits :: "circuit_row list"
  db_host_circuits :: "host_circuit_row list"
  db_connections :: "connection_row list"
  db_definitions :: "definition_row list"
  db_tenants :: "tenant_row list"
  db_runtime :: "runtime_row list"
  db_permissions :: "permission_row list"
  db_memberships :: "membership_row list"
  db_recipients :: "recipient_row list"
  db_schedules :: "schedule_row list"
  db_notifications :: "notification_row list"
  db_notification_links :: "notification_link list"
  db_generations :: "generation_row list"
  db_generation_links :: "generation_link list"
  db_heads :: "head_row list"
  db_refreshes :: "refresh_row list"
  db_refresh_links :: "refresh_link list"
  db_chunks :: "chunk_row list"
  db_result_rows :: "result_row list"
  db_invitations :: "invitation_row list"
  db_deliveries :: "delivery_row list"
  db_outbox :: "outbox_row list"
  db_access_links :: "access_link_row list"
  db_quota :: "quota_row list"
  db_idempotency :: "idempotency_row list"

section \<open>Statements\<close>

definition upsert_where :: "('r \<Rightarrow> bool) \<Rightarrow> ('r \<Rightarrow> 'r) \<Rightarrow> 'r \<Rightarrow> 'r list \<Rightarrow> 'r list" where
  "upsert_where p f new rows = (if list_ex p rows then update_where p f rows else rows @ [new])"

definition find_where :: "('r \<Rightarrow> bool) \<Rightarrow> 'r list \<Rightarrow> 'r option" where
  "find_where p rows = (case filter p rows of [] \<Rightarrow> None | r # _ \<Rightarrow> Some r)"

lemma find_where_Some: "find_where p rows = Some r \<Longrightarrow> r \<in> set rows \<and> p r"
proof -
  assume "find_where p rows = Some r"
  then obtain rest where "filter p rows = r # rest" by (auto simp: find_where_def split: list.splits)
  then have "r \<in> set (filter p rows)" by simp
  then show ?thesis by simp
qed

lemma find_where_None: "find_where p rows = None \<longleftrightarrow> (\<forall>r \<in> set rows. \<not> p r)"
proof -
  have "find_where p rows = None \<longleftrightarrow> filter p rows = []" by (simp add: find_where_def split: list.splits)
  then show ?thesis by (simp add: filter_empty_conv)
qed

lemma find_where_simps [simp]:
  "find_where p [] = None" "find_where p (r # rows) = (if p r then Some r else find_where p rows)"
  by (auto simp: find_where_def)

lemma set_upsert_where:
  "set (upsert_where p f new rows) \<subseteq> insert new (set rows \<union> f ` set rows)"
  by (auto simp: upsert_where_def set_update_where)

lemma find_upsert_hit:
  assumes "p new" "\<And>r. p r \<Longrightarrow> p (f r)"
  shows "find_where p (upsert_where p f new rows) =
    Some (case find_where p rows of None \<Rightarrow> new | Some r \<Rightarrow> f r)"
proof (cases "list_ex p rows")
  case True
  have "find_where p (update_where p f rows) = map_option f (find_where p rows)"
    using assms(2) by (induction rows) (auto simp: update_where_def)
  moreover have "find_where p rows \<noteq> None" using True by (auto simp: find_where_None list_ex_iff)
  ultimately show ?thesis using True by (auto simp: upsert_where_def split: option.splits)
next
  case False
  then have n: "\<forall>r \<in> set rows. \<not> p r" by (auto simp: list_ex_iff)
  then have "find_where p rows = None" by (simp add: find_where_None)
  moreover have "find_where p (rows @ [new]) = Some new"
    using n assms(1) by (induction rows) auto
  ultimately show ?thesis using False by (simp add: upsert_where_def)
qed

lemma find_upsert_other:
  assumes "\<And>r. q r \<Longrightarrow> \<not> p r" "\<And>r. p r \<Longrightarrow> \<not> q (f r)" "\<not> q new"
  shows "find_where q (upsert_where p f new rows) = find_where q rows"
proof -
  have "find_where q (update_where p f rows) = find_where q rows"
    using assms(1,2) by (induction rows) (auto simp: update_where_def)
  moreover have "find_where q (rows @ [new]) = find_where q rows"
    using assms(3) by (induction rows) auto
  ultimately show ?thesis by (simp add: upsert_where_def)
qed

definition opt_max :: "int option \<Rightarrow> int \<Rightarrow> int" where
  "opt_max x y = (case x of None \<Rightarrow> y | Some v \<Rightarrow> max v y)"

text \<open>MIN and MAX of a nullable column ignore NULL.\<close>

definition min_some :: "int option list \<Rightarrow> int option" where
  "min_some xs = (case List.map_filter id xs of [] \<Rightarrow> None | y # ys \<Rightarrow> Some (foldl min y ys))"

definition max_some :: "int option list \<Rightarrow> int option" where
  "max_some xs = (case List.map_filter id xs of [] \<Rightarrow> None | y # ys \<Rightarrow> Some (foldl max y ys))"

end
