(* ===== verification/Schedules.thy ===== *)
theory Schedules
  imports Period Tables
begin

text \<open>
  Notification schedules (schedule/service.go): the validation of an input, the occurrences of a
  schedule, and the proof that NextOccurrences returns exactly the next matching instants and
  always finds them.
\<close>

section \<open>Inputs\<close>

text \<open>ScheduleInvalid is a ValidationError with its field and code, ScheduleNotReady a ReadinessError.\<close>

datatype schedule_error = ScheduleInvalid string string | ScheduleNotReady "string list" | ScheduleNotFound
  | ScheduleConflict | ScheduleVersionConflict | ScheduleStateConflict | NoDueSchedule
  | SchedulePeriodError period_error | ScheduleFailure string

record schedule_input =
  si_name :: string
  si_days :: "int list"
  si_local_time :: string
  si_timezone :: string
  si_preset :: preset
  si_keys :: "key list"
  si_recipients :: "uuid list"

text \<open>time.Parse with the layout 15:04 of a text of five bytes.\<close>

definition parse_clock :: "string \<Rightarrow> (int \<times> int) option" where
  "parse_clock s = (
     if length s = 5 \<and> list_all is_digit (take 2 s @ drop 3 s) \<and> s ! 2 = CHR '':''
        \<and> int (digits_val (take 2 s)) < 24 \<and> int (digits_val (drop 3 s)) < 60
     then Some (int (digits_val (take 2 s)), int (digits_val (drop 3 s))) else None)"

definition valid_days :: "int list \<Rightarrow> bool" where
  "valid_days days \<longleftrightarrow> 1 \<le> length days \<and> length days \<le> 7 \<and> list_all (\<lambda>d. 0 \<le> d \<and> d \<le> 6) days \<and> distinct days"

fun check_reports :: "key list \<Rightarrow> key list \<Rightarrow> schedule_error + unit" where
  "check_reports seen [] = Inr ()"
| "check_reports seen (k # ks) = (
     if definition_for k = None then Inl (ScheduleInvalid ''reportKeys'' ''INVALID_REPORTS'')
     else if k \<in> set seen then Inl (ScheduleInvalid ''reportKeys'' ''DUPLICATE_REPORT'')
     else check_reports (k # seen) ks)"

fun check_recipients :: "uuid list \<Rightarrow> uuid list \<Rightarrow> schedule_error + unit" where
  "check_recipients seen [] = Inr ()"
| "check_recipients seen (r # rs) = (
     if r = nil_uuid then Inl (ScheduleInvalid ''recipientIds'' ''INVALID_RECIPIENTS'')
     else if r \<in> set seen then Inl (ScheduleInvalid ''recipientIds'' ''DUPLICATE_RECIPIENT'')
     else check_recipients (r # seen) rs)"

definition validate_schedule :: "schedule_input \<Rightarrow> schedule_error + schedule_input" where
  "validate_schedule i = (let name = trim_space (si_name i) in
     if length name < 1 \<or> length name > 160 then Inl (ScheduleInvalid ''name'' ''INVALID_NAME'')
     else if \<not> valid_days (si_days i) then Inl (ScheduleInvalid ''daysOfWeek'' ''INVALID_DAYS'')
     else if parse_clock (si_local_time i) = None then Inl (ScheduleInvalid ''localTime'' ''INVALID_LOCAL_TIME'')
     else if si_timezone i \<noteq> ''Asia/Bangkok'' then Inl (ScheduleInvalid ''timezone'' ''INVALID_TIMEZONE'')
     else if si_preset i \<notin> {Yesterday, TodayToNow, MonthToDate, AsOfRun} then Inl (ScheduleInvalid ''periodPreset'' ''INVALID_PERIOD_PRESET'')
     else if length (si_keys i) < 1 \<or> length (si_keys i) > 10 then Inl (ScheduleInvalid ''reportKeys'' ''INVALID_REPORTS'')
     else bindr (check_reports [] (si_keys i)) (\<lambda>_.
       if length (si_recipients i) < 1 \<or> length (si_recipients i) > 500 then Inl (ScheduleInvalid ''recipientIds'' ''INVALID_RECIPIENTS'')
       else bindr (check_recipients [] (si_recipients i)) (\<lambda>_. Inr (i\<lparr>si_name := name, si_days := sort (si_days i)\<rparr>))))"

section \<open>Occurrences\<close>

definition clock_ns :: "int \<times> int \<Rightarrow> int" where
  "clock_ns c = fst c * hour + snd c * minute"

text \<open>A candidate is kept when it falls on the day and the clock time that it was made from.\<close>

definition on_clock :: "location \<Rightarrow> day \<Rightarrow> int \<times> int \<Rightarrow> instant \<Rightarrow> bool" where
  "on_clock loc n c t \<longleftrightarrow> local_day loc t = n \<and> local_clock loc t div hour = fst c \<and> local_clock loc t mod hour div minute = snd c"

fun occurrences_from :: "location \<Rightarrow> int list \<Rightarrow> int \<times> int \<Rightarrow> instant \<Rightarrow> nat \<Rightarrow> day \<Rightarrow> nat \<Rightarrow> instant list" where
  "occurrences_from loc days c after 0 n wanted = []"
| "occurrences_from loc days c after (Suc k) n wanted = (
     if wanted = 0 then []
     else if weekday n \<notin> set days then occurrences_from loc days c after k (n + 1) wanted
     else (let t = local_instant loc n (clock_ns c) in
       if on_clock loc n c t \<and> after < t then t # occurrences_from loc days c after k (n + 1) (wanted - 1)
       else occurrences_from loc days c after k (n + 1) wanted))"

definition calculate_occurrences :: "int list \<Rightarrow> string \<Rightarrow> string \<Rightarrow> instant \<Rightarrow> nat \<Rightarrow> schedule_error + instant list" where
  "calculate_occurrences days local_time timezone after wanted = (
     case (load_location timezone, parse_clock local_time) of
       (Some loc, Some c) \<Rightarrow> (let ts = occurrences_from loc days c after 800 (local_day loc after) wanted in
          if length ts \<noteq> wanted then Inl (ScheduleFailure ''unable to calculate schedule occurrences'') else Inr ts)
     | _ \<Rightarrow> Inl (ScheduleFailure ''panic''))"

definition next_occurrences :: "schedule_input \<Rightarrow> instant \<Rightarrow> int \<Rightarrow> schedule_error + instant list" where
  "next_occurrences i after wanted = (
     if wanted < 1 \<or> wanted > 100 then Inl (ScheduleInvalid ''count'' ''INVALID_COUNT'')
     else bindr (validate_schedule i) (\<lambda>v. calculate_occurrences (si_days v) (si_local_time v) (si_timezone v) after (nat wanted)))"

definition next_occurrence :: "int list \<Rightarrow> string \<Rightarrow> string \<Rightarrow> instant \<Rightarrow> schedule_error + instant" where
  "next_occurrence days local_time timezone after = (
     if \<not> valid_days days then Inl (ScheduleInvalid ''daysOfWeek'' ''INVALID_DAYS'')
     else if parse_clock local_time = None then Inl (ScheduleInvalid ''localTime'' ''INVALID_LOCAL_TIME'')
     else if timezone \<noteq> ''Asia/Bangkok'' then Inl (ScheduleInvalid ''timezone'' ''INVALID_TIMEZONE'')
     else bindr (calculate_occurrences (sort days) local_time timezone after 1) (\<lambda>ts. Inr (hd ts)))"

section \<open>The next matching instants\<close>

text \<open>What a schedule asks for: a day of the week and a clock time in Bangkok.\<close>

definition matches :: "schedule_input \<Rightarrow> instant \<Rightarrow> bool" where
  "matches i t \<longleftrightarrow> weekday (local_day bangkok t) \<in> set (si_days i)
     \<and> (\<exists>c. parse_clock (si_local_time i) = Some c \<and> local_clock bangkok t = clock_ns c)"

lemma parse_clock_bounds:
  assumes "parse_clock s = Some c"
  shows "0 \<le> fst c \<and> fst c < 24 \<and> 0 \<le> snd c \<and> snd c < 60"
  using assms by (auto simp: parse_clock_def split: if_splits)

lemma clock_ns_bounds:
  assumes "parse_clock s = Some c"
  shows "0 \<le> clock_ns c" "clock_ns c < day_ns" "clock_ns c div hour = fst c" "clock_ns c mod hour div minute = snd c"
proof -
  have b: "0 \<le> fst c" "fst c < 24" "0 \<le> snd c" "snd c < 60" using parse_clock_bounds[OF assms] by auto
  have m: "0 \<le> snd c * minute" "snd c * minute < hour" using b by (auto simp: minute_def second_def hour_def)
  have h: "hour > 0" "minute > 0" by (simp_all add: hour_def minute_def second_def)
  show "0 \<le> clock_ns c" using b h by (simp add: clock_ns_def)
  show "clock_ns c < day_ns" using b by (simp add: clock_ns_def day_ns_def hour_def minute_def second_def)
  show "clock_ns c div hour = fst c" using m h by (simp add: clock_ns_def)
  have "clock_ns c mod hour = snd c * minute" using m h by (simp add: clock_ns_def)
  then show "clock_ns c mod hour div minute = snd c" using h by simp
qed

lemma candidate_kept:
  assumes "parse_clock s = Some c"
  shows "on_clock loc n c (local_instant loc n (clock_ns c))"
  using clock_ns_bounds[OF assms] by (simp add: on_clock_def local_instant_inverse)

lemma candidate_mono: "m < n \<Longrightarrow> local_instant loc m clock < local_instant loc n clock"
  by (simp add: local_instant_def day_ns_def)

text \<open>The loop takes from the candidates of the days it looks at.\<close>

definition candidates :: "int list \<Rightarrow> int \<Rightarrow> instant \<Rightarrow> day \<Rightarrow> nat \<Rightarrow> instant list" where
  "candidates days clock after n k = filter (\<lambda>t. after < t) (map (\<lambda>m. local_instant bangkok m clock)
     (filter (\<lambda>m. weekday m \<in> set days) (map (\<lambda>i. n + int i) [0..<k])))"

lemma candidates_0 [simp]: "candidates days clock after n 0 = []"
  by (simp add: candidates_def)

lemma candidates_Suc:
  "candidates days clock after n (Suc k) =
     (if weekday n \<in> set days \<and> after < local_instant bangkok n clock then [local_instant bangkok n clock] else [])
     @ candidates days clock after (n + 1) k"
proof -
  have "map (\<lambda>i. n + int i) [0..<Suc k] = n # map (\<lambda>i. n + 1 + int i) [0..<k]"
    unfolding upt_conv_Cons[OF zero_less_Suc] map_Suc_upt[symmetric] by (simp add: comp_def algebra_simps)
  then show ?thesis by (simp add: candidates_def)
qed

lemma occurrences_take:
  assumes "parse_clock s = Some c"
  shows "occurrences_from bangkok days c after k n wanted = take wanted (candidates days (clock_ns c) after n k)"
proof (induction k arbitrary: n wanted)
  case (Suc k)
  then show ?case using candidate_kept[OF assms, of bangkok n]
    by (cases wanted) (auto simp: candidates_Suc Let_def)
qed simp

lemma in_candidates:
  assumes "0 \<le> clock" "clock < day_ns"
  shows "t \<in> set (candidates days clock after n k) \<longleftrightarrow> after < t \<and> weekday (local_day bangkok t) \<in> set days
    \<and> local_clock bangkok t = clock \<and> n \<le> local_day bangkok t \<and> local_day bangkok t < n + int k"
proof
  assume "t \<in> set (candidates days clock after n k)"
  then obtain i where "i < k" "t = local_instant bangkok (n + int i) clock" "weekday (n + int i) \<in> set days" "after < t"
    by (auto simp: candidates_def)
  then show "after < t \<and> weekday (local_day bangkok t) \<in> set days \<and> local_clock bangkok t = clock
      \<and> n \<le> local_day bangkok t \<and> local_day bangkok t < n + int k"
    using assms by (simp add: local_instant_inverse)
next
  assume t: "after < t \<and> weekday (local_day bangkok t) \<in> set days \<and> local_clock bangkok t = clock
      \<and> n \<le> local_day bangkok t \<and> local_day bangkok t < n + int k"
  then have "local_day bangkok t = n + int (nat (local_day bangkok t - n))" "nat (local_day bangkok t - n) < k" by auto
  moreover have "local_instant bangkok (local_day bangkok t) clock = t" using t local_instant_of[of bangkok t] by simp
  ultimately have "local_day bangkok t \<in> set (filter (\<lambda>m. weekday m \<in> set days) (map (\<lambda>i. n + int i) [0..<k]))"
    using t by (auto intro!: image_eqI[of _ _ "nat (local_day bangkok t - n)"])
  with t \<open>local_instant bangkok (local_day bangkok t) clock = t\<close>
  show "t \<in> set (candidates days clock after n k)" unfolding candidates_def by force
qed

lemma candidates_sorted: "sorted_wrt (<) (candidates days clock after n k)"
proof (induction k arbitrary: n)
  case (Suc k)
  have "local_instant bangkok n clock < t" if "t \<in> set (candidates days clock after (n + 1) k)" for t
    using that candidate_mono[of n _ bangkok clock] by (auto simp: candidates_def)
  with Suc show ?case by (simp add: candidates_Suc)
qed simp

lemma take_sorted_member:
  fixes xs :: "int list"
  assumes "sorted_wrt (<) xs" "0 < n" "n \<le> length xs"
  shows "u \<in> set (take n xs) \<longleftrightarrow> u \<in> set xs \<and> u \<le> last (take n xs)"
proof -
  have l: "last (take n xs) = xs ! (n - 1)" using assms(2,3) by (cases xs) (auto simp: last_conv_nth)
  have le: "xs ! i \<le> xs ! (n - 1) \<longleftrightarrow> i < n" if "i < length xs" for i
  proof (cases "i < n")
    case True
    then show ?thesis using sorted_wrt_nth_less[OF assms(1), of i "n - 1"] assms(2,3) that by (cases "i = n - 1") (fastforce intro: less_imp_le)+
  next
    case False
    then have "n - 1 < i" using assms(2) by simp
    then show ?thesis using sorted_wrt_nth_less[OF assms(1), of "n - 1" i] that False by simp
  qed
  show ?thesis
  proof
    assume "u \<in> set (take n xs)"
    then obtain i where "i < n" "i < length xs" "u = xs ! i" by (auto simp: in_set_conv_nth)
    with le show "u \<in> set xs \<and> u \<le> last (take n xs)" by (auto simp: l)
  next
    assume u: "u \<in> set xs \<and> u \<le> last (take n xs)"
    then obtain i where "i < length xs" "u = xs ! i" by (auto simp: in_set_conv_nth)
    with le u have "i < n" by (auto simp: l)
    with \<open>i < length xs\<close> \<open>u = xs ! i\<close> show "u \<in> set (take n xs)" by (auto simp: in_set_conv_nth intro!: exI[of _ i])
  qed
qed

lemma next_occurrences_candidates:
  assumes "next_occurrences i after wanted = Inr ts"
  obtains c where "1 \<le> wanted" "wanted \<le> 100" "validate_schedule i = Inr (i\<lparr>si_name := trim_space (si_name i), si_days := sort (si_days i)\<rparr>)"
    "parse_clock (si_local_time i) = Some c"
    "ts = take (nat wanted) (candidates (si_days i) (clock_ns c) after (local_day bangkok after) 800)" "length ts = nat wanted"
proof -
  have c: "1 \<le> wanted" "wanted \<le> 100" using assms by (auto simp: next_occurrences_def split: if_splits)
  then obtain v where v: "validate_schedule i = Inr v"
    and ts: "calculate_occurrences (si_days v) (si_local_time v) (si_timezone v) after (nat wanted) = Inr ts"
    using assms by (auto simp: next_occurrences_def split: if_splits)
  have w: "v = i\<lparr>si_name := trim_space (si_name i), si_days := sort (si_days i)\<rparr>" "si_timezone i = ''Asia/Bangkok''"
    "parse_clock (si_local_time i) \<noteq> None"
    using v by (auto simp: validate_schedule_def Let_def split: if_splits)
  then obtain clk where p: "parse_clock (si_local_time i) = Some clk" by blast
  have set: "candidates (sort (si_days i)) = candidates (si_days i)" by (intro ext) (simp add: candidates_def)
  have "ts = take (nat wanted) (candidates (si_days i) (clock_ns clk) after (local_day bangkok after) 800) \<and> length ts = nat wanted"
    using ts by (auto simp: w(1) w(2) calculate_occurrences_def load_location_def p occurrences_take[OF p] set Let_def split: if_splits)
  then show thesis using that c v w(1) p by blast
qed

lemma occurrences_exact:
  assumes "next_occurrences i after wanted = Inr ts"
  shows "int (length ts) = wanted \<and> sorted_wrt (<) ts
    \<and> (\<forall>u. u \<in> set ts \<longleftrightarrow> matches i u \<and> after < u \<and> u \<le> last ts)"
proof -
  obtain c where c: "1 \<le> wanted" "parse_clock (si_local_time i) = Some c"
    "ts = take (nat wanted) (candidates (si_days i) (clock_ns c) after (local_day bangkok after) 800)" "length ts = nat wanted"
    using next_occurrences_candidates[OF assms] by metis
  let ?cs = "candidates (si_days i) (clock_ns c) after (local_day bangkok after) 800"
  have s: "sorted_wrt (<) ?cs" by (rule candidates_sorted)
  have n: "0 < nat wanted" "nat wanted \<le> length ?cs" using c(1,3,4) by auto
  have b: "0 \<le> clock_ns c" "clock_ns c < day_ns" using clock_ns_bounds[OF c(2)] by auto
  have "ts \<noteq> []" using n(1) c(4) by auto
  then have "last ts \<in> set ts" by (rule last_in_set)
  then have l: "last ts \<in> set ?cs" using in_set_takeD unfolding c(3) by metis
  have mono: "local_day bangkok t \<le> local_day bangkok u" if "t \<le> u" for t u
    using that unfolding local_day_def by (intro add_right_mono zdiv_mono1) (auto simp: day_ns_def)
  have "u \<in> set ts \<longleftrightarrow> matches i u \<and> after < u \<and> u \<le> last ts" for u
  proof
    assume "u \<in> set ts"
    then have "u \<in> set ?cs" "u \<le> last ts" using take_sorted_member[OF s n] by (auto simp: c(3))
    then show "matches i u \<and> after < u \<and> u \<le> last ts" by (auto simp: in_candidates[OF b] matches_def c(2))
  next
    assume u: "matches i u \<and> after < u \<and> u \<le> last ts"
    have "local_day bangkok after \<le> local_day bangkok u" "local_day bangkok u \<le> local_day bangkok (last ts)"
      using u by (auto intro!: mono)
    moreover have "local_day bangkok (last ts) < local_day bangkok after + int 800" using l by (auto simp: in_candidates[OF b])
    ultimately have "u \<in> set ?cs" using u by (auto simp: in_candidates[OF b] matches_def c(2))
    then show "u \<in> set ts" using take_sorted_member[OF s n] u by (auto simp: c(3))
  qed
  then show ?thesis using c(1,4) sorted_wrt_take[OF s] by (auto simp: c(3))
qed

lemma next_one:
  assumes "next_occurrences i after 1 = Inr ts"
  obtains t where "ts = [t]" "matches i t" "after < t" "\<And>u. matches i u \<Longrightarrow> after < u \<Longrightarrow> t \<le> u"
proof -
  have e: "int (length ts) = 1" "\<And>u. u \<in> set ts \<longleftrightarrow> matches i u \<and> after < u \<and> u \<le> last ts"
    using occurrences_exact[OF assms] by auto
  then obtain t where t: "ts = [t]" by (cases ts) auto
  have "t \<le> u" if "matches i u" "after < u" for u
    using e(2)[of u] that by (cases "u \<le> t") (auto simp: t)
  then show thesis using that t e(2)[of t] by simp
qed

text \<open>C37: NextOccurrences returns the next matching instants: as many as asked for, in order, all after the
  given instant, and no matching instant is left out before the last of them.\<close>

theorem occurrences_first:
  assumes "next_occurrences i after wanted = Inr ts"
  shows "int (length ts) = wanted \<and> sorted_wrt (<) ts
    \<and> (\<forall>u. u \<in> set ts \<longleftrightarrow> matches i u \<and> after < u \<and> u \<le> last ts)"
  using assms by (rule occurrences_exact)

definition weekly_input :: schedule_input where
  "weekly_input = \<lparr>si_name = ''weekly'', si_days = [5, 1], si_local_time = ''08:30'', si_timezone = ''Asia/Bangkok'',
     si_preset = Yesterday, si_keys = [SalesGoodsServices], si_recipients = [7]\<rparr>"

text \<open>The loop with a bound that is an integer, to evaluate it.\<close>

function occurrences_int :: "location \<Rightarrow> int list \<Rightarrow> int \<times> int \<Rightarrow> instant \<Rightarrow> int \<Rightarrow> day \<Rightarrow> nat \<Rightarrow> instant list" where
  "occurrences_int loc days c after k n wanted = (
     if k \<le> 0 \<or> wanted = 0 then []
     else if weekday n \<notin> set days then occurrences_int loc days c after (k - 1) (n + 1) wanted
     else (let t = local_instant loc n (clock_ns c) in
       if on_clock loc n c t \<and> after < t then t # occurrences_int loc days c after (k - 1) (n + 1) (wanted - 1)
       else occurrences_int loc days c after (k - 1) (n + 1) wanted))"
  by pat_completeness auto
termination by (relation "measure (\<lambda>(loc, days, c, after, k, n, wanted). nat k)") auto

declare occurrences_int.simps [simp del]

lemma occurrences_int: "occurrences_from loc days c after k n wanted = occurrences_int loc days c after (int k) n wanted"
proof (induction k arbitrary: n wanted)
  case 0
  then show ?case by (subst occurrences_int.simps) simp
next
  case (Suc k)
  then show ?case by (subst occurrences_int.simps) (simp add: Let_def)
qed

lemma calculate_occurrences_code [code]:
  "calculate_occurrences days local_time timezone after wanted = (
     case (load_location timezone, parse_clock local_time) of
       (Some loc, Some c) \<Rightarrow> (let ts = occurrences_int loc days c after 800 (local_day loc after) wanted in
          if length ts \<noteq> wanted then Inl (ScheduleFailure ''unable to calculate schedule occurrences'') else Inr ts)
     | _ \<Rightarrow> Inl (ScheduleFailure ''panic''))"
  using occurrences_int[where k = 800] unfolding calculate_occurrences_def of_nat_numeral by (simp only:)

declare keys_eq [code]

lemma check_reports_code [code]:
  "check_reports seen [] = Inr ()"
  "check_reports seen (k # ks) = (
     if k \<notin> set keys then Inl (ScheduleInvalid ''reportKeys'' ''INVALID_REPORTS'')
     else if k \<in> set seen then Inl (ScheduleInvalid ''reportKeys'' ''DUPLICATE_REPORT'')
     else check_reports (k # seen) ks)"
  by (simp_all add: definition_for_None)

lemma weekly_occurrences: "next_occurrences weekly_input 1773543600000000000 3 =
    Inr [1773624600000000000, 1773970200000000000, 1774229400000000000]"
  by code_simp

theorem occurrences_first_witness:
  "\<exists>ts. next_occurrences weekly_input 1773543600000000000 3 = Inr ts \<and> int (length ts) = 3 \<and> sorted_wrt (<) ts"
  using occurrences_first[OF weekly_occurrences] weekly_occurrences by blast

section \<open>Occurrences always exist\<close>

lemma candidates_append: "candidates days clock after n (a + b) = candidates days clock after n a @ candidates days clock after (n + int a) b"
  by (induction a arbitrary: n) (simp_all add: candidates_Suc algebra_simps)

lemma candidate_in_week:
  assumes "0 \<le> clock" "clock < day_ns" "d \<in> set days" "0 \<le> d" "d \<le> 6" "local_day bangkok after < n"
  shows "candidates days clock after n 7 \<noteq> []"
proof -
  let ?m = "n + (d - weekday n) mod 7"
  let ?t = "local_instant bangkok ?m clock"
  have b: "0 \<le> (d - weekday n) mod 7" "(d - weekday n) mod 7 < 7" by simp_all
  have "(n + 1 + (d - (n + 1) mod 7) mod 7) mod 7 = (n + 1 + (d - (n + 1))) mod 7"
    by (simp only: mod_add_right_eq mod_diff_right_eq)
  then have w: "weekday ?m = d" using assms(4,5) by (simp add: weekday_def add_ac)
  have t: "local_day bangkok ?t = ?m" "local_clock bangkok ?t = clock" using assms(1,2) by (simp_all add: local_instant_inverse)
  have "after < ?t"
  proof (rule ccontr)
    assume "\<not> after < ?t"
    then have "local_day bangkok ?t \<le> local_day bangkok after"
      unfolding local_day_def by (intro add_right_mono zdiv_mono1) (auto simp: day_ns_def)
    then show False using assms(6) b(1) unfolding t(1) by linarith
  qed
  then have "?t \<in> set (candidates days clock after n 7)" using w t b assms(3) by (simp add: in_candidates[OF assms(1,2)])
  then show ?thesis by auto
qed

lemma weeks_of_candidates:
  assumes "0 \<le> clock" "clock < day_ns" "d \<in> set days" "0 \<le> d" "d \<le> 6" "local_day bangkok after < n"
  shows "j \<le> length (candidates days clock after n (7 * j))"
  using assms(6)
proof (induction j arbitrary: n)
  case (Suc j)
  have "j \<le> length (candidates days clock after (n + 7) (7 * j))" using Suc by simp
  moreover have "0 < length (candidates days clock after n 7)" using candidate_in_week[OF assms(1-5) Suc.prems] by simp
  moreover have "candidates days clock after n (7 * Suc j) = candidates days clock after n 7 @ candidates days clock after (n + 7) (7 * j)"
    using candidates_append[of days clock after n 7 "7 * j"] by simp
  ultimately show ?case by (simp del: length_greater_0_conv)
qed simp

text \<open>C38: The occurrences of a valid schedule can always be calculated: 800 days hold 114 whole weeks, so the
  error of calculateOccurrences is never returned for a validated schedule.\<close>

theorem occurrences_exist:
  assumes "validate_schedule i = Inr v" "1 \<le> wanted" "wanted \<le> 100"
  shows "\<exists>ts. next_occurrences i after wanted = Inr ts"
proof -
  have w: "si_days v = sort (si_days i)" "si_local_time v = si_local_time i" "si_timezone v = ''Asia/Bangkok''"
    "parse_clock (si_local_time i) \<noteq> None" "valid_days (si_days i)"
    using assms(1) by (auto simp: validate_schedule_def Let_def split: if_splits)
  then obtain c where p: "parse_clock (si_local_time i) = Some c" by blast
  obtain d where d: "d \<in> set (si_days v)" "0 \<le> d" "d \<le> 6"
  proof -
    have "si_days i \<noteq> []" "\<forall>d \<in> set (si_days i). 0 \<le> d \<and> d \<le> 6" using w(5) by (auto simp: valid_days_def list_all_iff)
    then show thesis using that[of "hd (si_days i)"] hd_in_set[of "si_days i"] unfolding w(1) set_sort by blast
  qed
  let ?n = "local_day bangkok after"
  have b: "0 \<le> clock_ns c" "clock_ns c < day_ns" using clock_ns_bounds[OF p] by auto
  have "114 \<le> length (candidates (si_days v) (clock_ns c) after (?n + 1) (7 * 114))"
    by (rule weeks_of_candidates[OF b d]) simp
  moreover have "candidates (si_days v) (clock_ns c) after ?n (1 + (7 * 114 + 1))
      = candidates (si_days v) (clock_ns c) after ?n 1 @ candidates (si_days v) (clock_ns c) after (?n + 1) (7 * 114)
        @ candidates (si_days v) (clock_ns c) after (?n + 1 + int (7 * 114)) 1"
    unfolding candidates_append by simp
  ultimately have "114 \<le> length (candidates (si_days v) (clock_ns c) after ?n (1 + (7 * 114 + 1)))" by simp
  then have "nat wanted \<le> length (candidates (si_days v) (clock_ns c) after ?n 800)" using assms(3) by simp
  then show ?thesis using assms w(2,3)
    by (simp add: next_occurrences_def calculate_occurrences_def load_location_def p occurrences_take[OF p] Let_def)
qed

theorem occurrences_exist_witness:
  "\<exists>ts. next_occurrences weekly_input 0 100 = Inr ts"
proof -
  have "validate_schedule weekly_input = Inr (weekly_input\<lparr>si_days := [1, 5]\<rparr>)" by code_simp
  from occurrences_exist[OF this, of 100 0] show ?thesis by simp
qed

end
