(* ===== verification/Dashboard.thy ===== *)
theory Dashboard
  imports Summary Period
begin

text \<open>
  BuildDashboard (report/dashboard_builder.go): KPIs with their comparison, trends over buckets of
  days, weeks or months, rankings, compositions, and the removal of the comparison when the two
  periods are not comparable.

  Groups by code are Go maps whose iteration order is unspecified; the model keeps them in the
  order the codes first appear.  They are sorted by value and code before they are shown, and the
  codes are distinct, so that order does not matter (Prelude.sort_by_perm).  buildStockMovement
  ranks single rows with the unstable sort.Slice: rows that agree in both value and code keep
  their order here.
\<close>

section \<open>Formatting\<close>

definition dashboard_top_limit :: nat where "dashboard_top_limit = 10"

definition format_unit :: "rat \<Rightarrow> metric_unit \<Rightarrow> string" where
  "format_unit x u = (case u of
     UnitCount \<Rightarrow> float_string 0 x
   | UnitQuantity \<Rightarrow> float_string 4 x
   | _ \<Rightarrow> float_string 2 x)"

definition format_bucket :: "rat list \<Rightarrow> nat \<Rightarrow> string" where
  "format_bucket values i = (if i \<ge> length values then ''0.00'' else float_string 2 (values ! i))"

definition label_at :: "string list \<Rightarrow> nat \<Rightarrow> string" where
  "label_at labels i = (if i \<ge> length labels then '''' else labels ! i)"

definition string_value :: "recon_value option \<Rightarrow> string" where
  "string_value v = (case v of None \<Rightarrow> ''0'' | Some (ReconText s) \<Rightarrow> s | Some (ReconInt i) \<Rightarrow> int_str i)"

fun first_non_empty :: "string list \<Rightarrow> string" where
  "first_non_empty [] = (utf8 [224, 185, 132, 224, 184, 161, 224, 185, 136, 224, 184, 163, 224, 184, 176, 224, 184, 154, 224, 184, 184])"
| "first_non_empty (v # vs) = (if v \<noteq> '''' then v else first_non_empty vs)"

definition raw_decimal :: "string \<Rightarrow> summary_error + rat" where
  "raw_decimal v = (case decimal v of Inl e \<Rightarrow> Inl (RawDecimal e) | Inr x \<Rightarrow> Inr x)"

definition divide_decimal :: "string \<Rightarrow> string \<Rightarrow> metric_unit \<Rightarrow> summary_error + string" where
  "divide_decimal total_value count_value u =
     bindr (raw_decimal total_value) (\<lambda>total.
     bindr (raw_decimal count_value) (\<lambda>count.
     Inr (if count = 0 then format_unit 0 u else format_unit (total / count) u)))"

definition rows_for_summary_kind :: "row list \<Rightarrow> string \<Rightarrow> row list" where
  "rows_for_summary_kind rows kind =
     filter (\<lambda>r. \<not> (fld r ''_summary_kind'' \<noteq> '''' \<and> fld r ''_summary_kind'' \<noteq> kind)) (real_summary_rows rows)"

section \<open>KPIs\<close>

record dashboard_metric_input =
  mi_key :: string
  mi_label :: string
  mi_current :: string
  mi_previous :: string
  mi_unit :: metric_unit

definition metric_or_sum :: "summary_result \<Rightarrow> string \<Rightarrow> row list \<Rightarrow> string \<Rightarrow> summary_error + rat" where
  "metric_or_sum summary metric rows field = (
     let v = coalesce (sum_metrics summary metric) '''' in
     if v \<noteq> '''' then field_decimal metric v else sum_field (real_summary_rows rows) field)"

fun movement_totals :: "row list \<Rightarrow> summary_error + (rat \<times> rat)" where
  "movement_totals [] = Inr (0, 0)"
| "movement_totals (r # rows) = bindr (raw_decimal (fld r ''amount'')) (\<lambda>x.
     bindr (movement_totals rows) (\<lambda>(debit, credit).
     Inr (if is_credit r then (debit, x + credit) else (x + debit, credit))))"

definition movement_totals_from_summary :: "summary_result \<Rightarrow> row list \<Rightarrow> summary_error + (rat \<times> rat)" where
  "movement_totals_from_summary summary rows = (
     let d = coalesce (sum_metrics summary ''debit_amount'') '''';
         c = coalesce (sum_metrics summary ''credit_amount'') ''''
     in if d \<noteq> '''' \<or> c \<noteq> ''''
        then bindr (field_decimal ''debit_amount'' d) (\<lambda>debit.
             bindr (field_decimal ''credit_amount'' c) (\<lambda>credit. Inr (debit, credit)))
        else movement_totals (real_summary_rows rows))"

definition mk_input :: "summary_result \<Rightarrow> summary_result \<Rightarrow> string \<Rightarrow> string \<Rightarrow> metric_unit \<Rightarrow> dashboard_metric_input" where
  "mk_input current previous k label u = \<lparr>mi_key = k, mi_label = label,
     mi_current = coalesce (sum_metrics current k) '''',
     mi_previous = coalesce (sum_metrics previous k) '''', mi_unit = u\<rparr>"

definition average_input :: "summary_result \<Rightarrow> summary_result \<Rightarrow> string \<Rightarrow> string \<Rightarrow> metric_unit \<Rightarrow> string
    \<Rightarrow> string \<Rightarrow> summary_error + dashboard_metric_input" where
  "average_input current previous total_key count_key u k label = (
     let m = (\<lambda>s key. coalesce (sum_metrics s key) '''') in
     bindr (divide_decimal (m current total_key) (m current count_key) u) (\<lambda>cur.
     bindr (divide_decimal (m previous total_key) (m previous count_key) u) (\<lambda>prev.
     Inr \<lparr>mi_key = k, mi_label = label, mi_current = cur, mi_previous = prev, mi_unit = u\<rparr>)))"

definition build_dashboard_metrics :: "key \<Rightarrow> summary_result \<Rightarrow> summary_result \<Rightarrow> steps \<Rightarrow> steps
    \<Rightarrow> summary_error + dashboard_metric_input list" where
  "build_dashboard_metrics k current previous current_steps previous_steps = (
     let metric = mk_input current previous;
         average = average_input current previous;
         cur_rows = step_rows current_steps ''rows'';
         prev_rows = step_rows previous_steps ''rows'';
         documents = (\<lambda>label. bindr (average ''total_amount'' ''document_count'' UnitTHB
             ''average_per_document'' (utf8 [224, 184, 162, 224, 184, 173, 224, 184, 148, 224, 185, 128, 224, 184, 137, 224, 184, 165, 224, 184, 181, 224, 185, 136, 224, 184, 162, 224, 184, 149, 224, 185, 136, 224, 184, 173, 224, 185, 128, 224, 184, 173, 224, 184, 129, 224, 184, 170, 224, 184, 178, 224, 184, 163])) (\<lambda>avg.
           Inr [metric ''total_amount'' label UnitTHB, metric ''document_count'' (utf8 [224, 184, 136, 224, 184, 179, 224, 184, 153, 224, 184, 167, 224, 184, 153, 224, 185, 128, 224, 184, 173, 224, 184, 129, 224, 184, 170, 224, 184, 178, 224, 184, 163]) UnitCount, avg]));
         profit = Inr [
           metric ''gross_profit_amount'' (utf8 [224, 184, 129, 224, 184, 179, 224, 185, 132, 224, 184, 163, 224, 184, 130, 224, 184, 177, 224, 185, 137, 224, 184, 153, 224, 184, 149, 224, 185, 137, 224, 184, 153]) UnitTHB,
           metric ''gross_margin_percent'' (utf8 [224, 184, 173, 224, 184, 177, 224, 184, 149, 224, 184, 163, 224, 184, 178, 224, 184, 129, 224, 184, 179, 224, 185, 132, 224, 184, 163, 224, 184, 130, 224, 184, 177, 224, 185, 137, 224, 184, 153, 224, 184, 149, 224, 185, 137, 224, 184, 153]) UnitPercent,
           \<lparr>mi_key = ''net_amount'', mi_label = (utf8 [224, 184, 162, 224, 184, 173, 224, 184, 148, 224, 184, 130, 224, 184, 178, 224, 184, 162, 224, 184, 170, 224, 184, 184, 224, 184, 151, 224, 184, 152, 224, 184, 180]),
             mi_current = string_value (sum_reconciliation current ''netAmount''),
             mi_previous = string_value (sum_reconciliation previous ''netAmount''), mi_unit = UnitTHB\<rparr>,
           \<lparr>mi_key = ''net_cost'', mi_label = (utf8 [224, 184, 149, 224, 185, 137, 224, 184, 153, 224, 184, 151, 224, 184, 184, 224, 184, 153, 224, 184, 170, 224, 184, 184, 224, 184, 151, 224, 184, 152, 224, 184, 180]),
             mi_current = string_value (sum_reconciliation current ''netCost''),
             mi_previous = string_value (sum_reconciliation previous ''netCost''), mi_unit = UnitTHB\<rparr>]
     in case k of
       SalesGoodsServices \<Rightarrow> documents (utf8 [224, 184, 162, 224, 184, 173, 224, 184, 148, 224, 184, 130, 224, 184, 178, 224, 184, 162])
     | PurchaseGoodsPayables \<Rightarrow> documents (utf8 [224, 184, 162, 224, 184, 173, 224, 184, 148, 224, 184, 139, 224, 184, 183, 224, 185, 137, 224, 184, 173])
     | GrossProfitByProduct \<Rightarrow> profit
     | GrossProfitByARCustomer \<Rightarrow> profit
     | StockBalance \<Rightarrow>
         bindr (metric_or_sum current ''amount_in'' cur_rows ''amount_in'') (\<lambda>cur_in.
         bindr (metric_or_sum previous ''amount_in'' prev_rows ''amount_in'') (\<lambda>prev_in.
         bindr (metric_or_sum current ''amount_out'' cur_rows ''amount_out'') (\<lambda>cur_out.
         bindr (metric_or_sum previous ''amount_out'' prev_rows ''amount_out'') (\<lambda>prev_out.
         Inr [metric ''balance_amount'' (utf8 [224, 184, 161, 224, 184, 185, 224, 184, 165, 224, 184, 132, 224, 185, 136, 224, 184, 178, 224, 184, 170, 224, 184, 149, 224, 185, 135, 224, 184, 173, 224, 184, 129, 224, 184, 132, 224, 184, 135, 224, 185, 128, 224, 184, 171, 224, 184, 165, 224, 184, 183, 224, 184, 173]) UnitTHB,
              metric ''item_count'' (utf8 [224, 184, 136, 224, 184, 179, 224, 184, 153, 224, 184, 167, 224, 184, 153, 224, 184, 170, 224, 184, 180, 224, 184, 153, 224, 184, 132, 224, 185, 137, 224, 184, 178]) UnitCount,
              \<lparr>mi_key = ''amount_in'', mi_label = (utf8 [224, 184, 161, 224, 184, 185, 224, 184, 165, 224, 184, 132, 224, 185, 136, 224, 184, 178, 224, 184, 163, 224, 184, 177, 224, 184, 154, 224, 185, 128, 224, 184, 130, 224, 185, 137, 224, 184, 178]), mi_current = money cur_in,
                mi_previous = money prev_in, mi_unit = UnitTHB\<rparr>,
              \<lparr>mi_key = ''amount_out'', mi_label = (utf8 [224, 184, 161, 224, 184, 185, 224, 184, 165, 224, 184, 132, 224, 185, 136, 224, 184, 178, 224, 184, 136, 224, 185, 136, 224, 184, 178, 224, 184, 162, 224, 184, 173, 224, 184, 173, 224, 184, 129]), mi_current = money cur_out,
                mi_previous = money prev_out, mi_unit = UnitTHB\<rparr>]))))
     | StockReorder \<Rightarrow> Inr [metric ''reorder_item_count'' (utf8 [224, 184, 170, 224, 184, 180, 224, 184, 153, 224, 184, 132, 224, 185, 137, 224, 184, 178, 224, 184, 151, 224, 184, 181, 224, 185, 136, 224, 184, 149, 224, 185, 137, 224, 184, 173, 224, 184, 135, 224, 184, 170, 224, 184, 177, 224, 185, 136, 224, 184, 135]) UnitCount,
                            metric ''shortage_qty'' (utf8 [224, 184, 136, 224, 184, 179, 224, 184, 153, 224, 184, 167, 224, 184, 153, 224, 184, 130, 224, 184, 178, 224, 184, 148, 224, 184, 163, 224, 184, 167, 224, 184, 161]) UnitQuantity]
     | ARCustomerMovement \<Rightarrow>
         bindr (movement_totals_from_summary current cur_rows) (\<lambda>(cur_debit, cur_credit).
         bindr (movement_totals_from_summary previous prev_rows) (\<lambda>(prev_debit, prev_credit).
         Inr [metric ''net_movement_amount'' (utf8 [224, 184, 162, 224, 184, 173, 224, 184, 148, 224, 185, 128, 224, 184, 132, 224, 184, 165, 224, 184, 183, 224, 185, 136, 224, 184, 173, 224, 184, 153, 224, 185, 132, 224, 184, 171, 224, 184, 167, 224, 184, 170, 224, 184, 184, 224, 184, 151, 224, 184, 152, 224, 184, 180]) UnitTHB,
              metric ''customer_count'' (utf8 [224, 184, 136, 224, 184, 179, 224, 184, 153, 224, 184, 167, 224, 184, 153, 224, 184, 165, 224, 184, 185, 224, 184, 129, 224, 184, 171, 224, 184, 153, 224, 184, 181, 224, 185, 137]) UnitCount,
              \<lparr>mi_key = ''debit_amount'', mi_label = (utf8 [224, 184, 162, 224, 184, 173, 224, 184, 148, 224, 185, 128, 224, 184, 158, 224, 184, 180, 224, 185, 136, 224, 184, 161]), mi_current = money cur_debit,
                mi_previous = money prev_debit, mi_unit = UnitTHB\<rparr>,
              \<lparr>mi_key = ''credit_amount'', mi_label = (utf8 [224, 184, 162, 224, 184, 173, 224, 184, 148, 224, 184, 165, 224, 184, 148]), mi_current = money cur_credit,
                mi_previous = money prev_credit, mi_unit = UnitTHB\<rparr>]))
     | ARDebtReceipt \<Rightarrow>
         bindr (average ''total_received_amount'' ''receipt_count'' UnitTHB
           ''average_per_receipt'' (utf8 [224, 184, 162, 224, 184, 173, 224, 184, 148, 224, 185, 128, 224, 184, 137, 224, 184, 165, 224, 184, 181, 224, 185, 136, 224, 184, 162, 224, 184, 149, 224, 185, 136, 224, 184, 173, 224, 185, 128, 224, 184, 173, 224, 184, 129, 224, 184, 170, 224, 184, 178, 224, 184, 163])) (\<lambda>avg.
         Inr [metric ''total_received_amount'' (utf8 [224, 184, 162, 224, 184, 173, 224, 184, 148, 224, 184, 163, 224, 184, 177, 224, 184, 154, 224, 184, 138, 224, 184, 179, 224, 184, 163, 224, 184, 176]) UnitTHB,
              metric ''receipt_count'' (utf8 [224, 184, 136, 224, 184, 179, 224, 184, 153, 224, 184, 167, 224, 184, 153, 224, 185, 128, 224, 184, 173, 224, 184, 129, 224, 184, 170, 224, 184, 178, 224, 184, 163]) UnitCount, avg,
              \<lparr>mi_key = ''payment_split_missing_count'', mi_label = (utf8 [224, 185, 128, 224, 184, 173, 224, 184, 129, 224, 184, 170, 224, 184, 178, 224, 184, 163, 224, 185, 129, 224, 184, 162, 224, 184, 129, 224, 184, 167, 224, 184, 180, 224, 184, 152, 224, 184, 181, 224, 184, 138, 224, 184, 179, 224, 184, 163, 224, 184, 176, 224, 185, 132, 224, 184, 161, 224, 185, 136, 224, 184, 132, 224, 184, 163, 224, 184, 154]),
                mi_current = first_non_empty [coalesce (sum_metrics current ''payment_split_missing_count'') '''',
                    nat_str (count_true cur_rows ''payment_split_missing'')],
                mi_previous = first_non_empty [coalesce (sum_metrics previous ''payment_split_missing_count'') '''',
                    nat_str (count_true prev_rows ''payment_split_missing'')],
                mi_unit = UnitCount\<rparr>])
     | CashBankReceipts \<Rightarrow> documents (utf8 [224, 184, 162, 224, 184, 173, 224, 184, 148, 224, 184, 163, 224, 184, 177, 224, 184, 154, 224, 185, 128, 224, 184, 135, 224, 184, 180, 224, 184, 153])
     | CashBankPayments \<Rightarrow> documents (utf8 [224, 184, 162, 224, 184, 173, 224, 184, 148, 224, 184, 136, 224, 185, 136, 224, 184, 178, 224, 184, 162, 224, 185, 128, 224, 184, 135, 224, 184, 180, 224, 184, 153])
     | OtherKey s \<Rightarrow> Inl (DashboardUndefined k))"

definition new_dashboard_metric :: "dashboard_metric_input \<Rightarrow> decimal_error + dashboard_metric" where
  "new_dashboard_metric input =
     bindr (decimal (mi_current input)) (\<lambda>current.
     bindr (decimal (mi_previous input)) (\<lambda>previous.
     let delta = current - previous; u = mi_unit input in
     Inr \<lparr>kpi_key = mi_key input, kpi_label = mi_label input, kpi_value = format_unit current u,
          kpi_unit = u,
          kpi_comparison = \<lparr>
            cmp_availability = ComparisonAvailable,
            cmp_previous_value = format_unit previous u,
            cmp_delta = format_unit delta u,
            cmp_percent = (if previous \<noteq> 0 then float_string 2 (delta * 100 / previous) else ''''),
            cmp_direction = (if delta > 0 then DirectionUp else if delta < 0 then DirectionDown
                             else DirectionSame)\<rparr>\<rparr>))"

section \<open>Trends\<close>

datatype bucket_mode = BucketDay | BucketWeek | BucketMonth

definition format_month :: "day \<Rightarrow> string" where
  "format_month n = (let y = year_of n in
     (if y < 0 then ''-'' @ pad0 4 (nat (- y)) else pad0 4 (nat y)) @ ''-'' @ pad0 2 (nat (month_of n)))"

definition dashboard_bucket_key :: "day \<Rightarrow> day \<Rightarrow> bucket_mode \<Rightarrow> string" where
  "dashboard_bucket_key from date mode = (case mode of
     BucketWeek \<Rightarrow> format_date (add_date from 0 0 (days_between from date div 7 * 7))
   | BucketMonth \<Rightarrow> format_month date
   | BucketDay \<Rightarrow> format_date date)"

text \<open>The loop over the days of a period that numbers the buckets in order of appearance.\<close>

definition bucket_step :: "day \<Rightarrow> bucket_mode \<Rightarrow> day \<Rightarrow> string list \<times> (string \<rightharpoonup> nat)
    \<Rightarrow> string list \<times> (string \<rightharpoonup> nat)" where
  "bucket_step from mode date = (\<lambda>(labels, indexes).
     let k = dashboard_bucket_key from date mode in
     if indexes k \<noteq> None then (labels, indexes)
     else (labels @ [k], indexes(k \<mapsto> length labels)))"

definition period_buckets :: "day \<Rightarrow> day \<Rightarrow> bucket_mode \<Rightarrow> string list \<times> (string \<rightharpoonup> nat)" where
  "period_buckets from to mode = fold (bucket_step from mode) [from..to] ([], Map.empty)"

definition bucket_mode_of :: "day \<Rightarrow> day \<Rightarrow> bucket_mode" where
  "bucket_mode_of from to = (let days = days_between from to + 1 in
     if days > 186 then BucketMonth else if days > 62 then BucketWeek else BucketDay)"

fun add_rows :: "day \<Rightarrow> day \<Rightarrow> bucket_mode \<Rightarrow> (string \<rightharpoonup> nat) \<Rightarrow> string \<Rightarrow> row list \<Rightarrow> rat list
    \<Rightarrow> summary_error + rat list" where
  "add_rows from to mode indexes field [] values = Inr values"
| "add_rows from to mode indexes field (r # rows) values = (case parse_date (fld r ''doc_date'') of
     None \<Rightarrow> add_rows from to mode indexes field rows values
   | Some d \<Rightarrow> if d < from \<or> d > to then add_rows from to mode indexes field rows values
       else bindr (field_decimal field (fld r field)) (\<lambda>x.
         case indexes (dashboard_bucket_key from d mode) of
           Some i \<Rightarrow> add_rows from to mode indexes field rows (values[i := values ! i + x])
         | None \<Rightarrow> add_rows from to mode indexes field rows values))"

definition aggregate_period_rows :: "period \<Rightarrow> row list \<Rightarrow> string \<Rightarrow> summary_error + (rat list \<times> string list)" where
  "aggregate_period_rows p rows field = (case parse_date (date_from p) of
     None \<Rightarrow> Inl TrendPeriodInvalid
   | Some from \<Rightarrow> (case parse_date (date_to p) of
       None \<Rightarrow> Inl TrendPeriodInvalid
     | Some to \<Rightarrow> if to < from then Inl TrendPeriodInvalid
         else (let mode = bucket_mode_of from to; (labels, indexes) = period_buckets from to mode
               in bindr (add_rows from to mode indexes field rows (map (\<lambda>_. 0) labels))
                    (\<lambda>values. Inr (values, labels)))))"

definition build_trend :: "string \<Rightarrow> string \<Rightarrow> metric_unit \<Rightarrow> period \<Rightarrow> period \<Rightarrow> row list \<Rightarrow> row list
    \<Rightarrow> string \<Rightarrow> summary_error + dashboard_visualization" where
  "build_trend k title u p comparison_p current_rows previous_rows field =
     bindr (aggregate_period_rows p (rows_for_summary_kind current_rows ''trend'') field)
       (\<lambda>(current_buckets, current_labels).
     bindr (aggregate_period_rows comparison_p (rows_for_summary_kind previous_rows ''trend'') field)
       (\<lambda>(previous_buckets, previous_labels).
     let count = max (length current_buckets) (length previous_buckets) in
     if count = 0 then Inr empty_visualization
     else Inr \<lparr>vis_key = k, vis_title = title, vis_intent = IntentTrend, vis_unit = u,
        vis_categories = map (\<lambda>i. nat_str (i + 1)) [0..<count],
        vis_series = [
          \<lparr>ser_key = ''current'', ser_label = (utf8 [224, 184, 135, 224, 184, 167, 224, 184, 148, 224, 184, 155, 224, 184, 177, 224, 184, 136, 224, 184, 136, 224, 184, 184, 224, 184, 154, 224, 184, 177, 224, 184, 153]),
            ser_values = map (format_bucket current_buckets) [0..<count],
            ser_point_labels = map (label_at current_labels) [0..<count]\<rparr>,
          \<lparr>ser_key = ''previous'', ser_label = (utf8 [224, 184, 135, 224, 184, 167, 224, 184, 148, 224, 184, 129, 224, 185, 136, 224, 184, 173, 224, 184, 153]),
            ser_values = map (format_bucket previous_buckets) [0..<count],
            ser_point_labels = map (label_at previous_labels) [0..<count]\<rparr>],
        vis_note = ''''\<rparr>))"

section \<open>Rankings\<close>

record ranked_value =
  rv_code :: string
  rv_label :: string
  rv_value :: rat
  rv_row :: row

text \<open>The grouped map: one entry per code, the label and row of its first row, the summed value.\<close>

definition group_add :: "string \<Rightarrow> string \<Rightarrow> rat \<Rightarrow> row \<Rightarrow> ranked_value list \<Rightarrow> ranked_value list" where
  "group_add code label x r items = (
     if list_ex (\<lambda>i. rv_code i = code) items
     then map (\<lambda>i. if rv_code i = code then i\<lparr>rv_value := rv_value i + x\<rparr> else i) items
     else items @ [\<lparr>rv_code = code, rv_label = label, rv_value = x, rv_row = r\<rparr>])"

fun group_rows :: "string \<Rightarrow> string \<Rightarrow> (row \<Rightarrow> summary_error + rat) \<Rightarrow> row list \<Rightarrow> ranked_value list
    \<Rightarrow> summary_error + ranked_value list" where
  "group_rows code_field name_field value [] items = Inr items"
| "group_rows code_field name_field value (r # rows) items = bindr (value r) (\<lambda>x.
     let code = fld r code_field;
         label = (if fld r name_field = '''' then code else fld r name_field)
     in group_rows code_field name_field value rows (group_add code label x r items))"

definition ranking_less :: "bool \<Rightarrow> ranked_value \<Rightarrow> ranked_value \<Rightarrow> bool" where
  "ranking_less ascending a b = (
     if rv_value a = rv_value b then rv_code a < rv_code b
     else if ascending then rv_value a < rv_value b else rv_value a > rv_value b)"

definition ranking_items :: "bool \<Rightarrow> ranked_value list \<Rightarrow> ranked_value list" where
  "ranking_items ascending grouped = take dashboard_top_limit (sort_by (ranking_less ascending)
     (filter (\<lambda>i. if ascending then rv_value i < 0 else rv_value i > 0) grouped))"

definition build_ranking :: "string \<Rightarrow> string \<Rightarrow> metric_unit \<Rightarrow> row list \<Rightarrow> string \<Rightarrow> string
    \<Rightarrow> (row \<Rightarrow> summary_error + rat) \<Rightarrow> bool \<Rightarrow> summary_error + dashboard_visualization" where
  "build_ranking k title u rows code_field name_field value ascending =
     bindr (group_rows code_field name_field value (rows_for_summary_kind rows ''ranking'') []) (\<lambda>grouped.
     let items = ranking_items ascending grouped in
     if items = [] then Inr empty_visualization
     else Inr \<lparr>vis_key = k, vis_title = title, vis_intent = IntentRanking, vis_unit = u,
        vis_categories = map rv_label items,
        vis_series = [\<lparr>ser_key = ''value'', ser_label = title,
          ser_values = map (\<lambda>i. format_unit (rv_value i) u) items, ser_point_labels = []\<rparr>],
        vis_note = ''''\<rparr>)"

definition gross_profit_for_row :: "row \<Rightarrow> summary_error + rat" where
  "gross_profit_for_row r =
     bindr (raw_decimal (fld r ''amount_sale'')) (\<lambda>amount.
     bindr (raw_decimal (fld r ''cost_sale'')) (\<lambda>cost.
     bindr (raw_decimal (fld r ''amount_sale_return'')) (\<lambda>amount_return.
     bindr (raw_decimal (fld r ''cost_sale_return'')) (\<lambda>cost_return.
     Inr (amount - amount_return - (cost - cost_return))))))"

definition build_profit_ranking :: "string \<Rightarrow> string \<Rightarrow> row list \<Rightarrow> string \<Rightarrow> string \<Rightarrow> bool
    \<Rightarrow> summary_error + dashboard_visualization" where
  "build_profit_ranking k title rows code_field name_field negative =
     build_ranking k title UnitTHB rows code_field name_field gross_profit_for_row negative"

definition shortage_ratio :: "row \<Rightarrow> summary_error + rat" where
  "shortage_ratio r =
     bindr (raw_decimal (fld r ''balance_qty'')) (\<lambda>balance.
     bindr (raw_decimal (fld r ''purchase_point'')) (\<lambda>point.
     if point \<le> 0 then Inr 0
     else (let shortage = (if point - balance < 0 then 0 else point - balance)
           in Inr (shortage * 100 / point))))"

definition build_reorder_exceptions :: "row list \<Rightarrow> summary_error + dashboard_visualization" where
  "build_reorder_exceptions rows = build_ranking ''reorder_shortage_ratio''
     (utf8 [224, 184, 170, 224, 184, 180, 224, 184, 153, 224, 184, 132, 224, 185, 137, 224, 184, 178, 224, 184, 151, 224, 184, 181, 224, 185, 136, 224, 184, 149, 224, 185, 136, 224, 184, 179, 224, 184, 129, 224, 184, 167, 224, 185, 136, 224, 184, 178, 224, 184, 136, 224, 184, 184, 224, 184, 148, 224, 184, 170, 224, 184, 177, 224, 185, 136, 224, 184, 135, 224, 184, 139, 224, 184, 183, 224, 185, 137, 224, 184, 173, 224, 184, 161, 224, 184, 178, 224, 184, 129, 224, 184, 151, 224, 184, 181, 224, 185, 136, 224, 184, 170, 224, 184, 184, 224, 184, 148]) UnitPercent rows ''ic_code'' ''ic_name'' shortage_ratio False"

definition ranked_rows :: "row list \<Rightarrow> string \<Rightarrow> string \<Rightarrow> (row \<Rightarrow> summary_error + rat)
    \<Rightarrow> summary_error + ranked_value list" where
  "ranked_rows rows code_field name_field value =
     bindr (map_res (\<lambda>r. bindr (value r) (\<lambda>x. Inr \<lparr>rv_code = fld r code_field,
              rv_label = first_non_empty [fld r name_field, fld r code_field], rv_value = x, rv_row = r\<rparr>)) rows)
       (\<lambda>items. Inr (take dashboard_top_limit (sort_by (ranking_less False) items)))"

definition in_out_value :: "row \<Rightarrow> summary_error + rat" where
  "in_out_value r = bindr (raw_decimal (fld r ''amount_in'')) (\<lambda>i.
     bindr (raw_decimal (fld r ''amount_out'')) (\<lambda>out. Inr (i + out)))"

definition build_stock_movement :: "row list \<Rightarrow> summary_error + dashboard_visualization" where
  "build_stock_movement rows = bindr (ranked_rows rows ''ic_code'' ''ic_name'' in_out_value) (\<lambda>ranking.
     if ranking = [] then Inr empty_visualization
     else bindr (map_res (\<lambda>item. bindr (raw_decimal (fld (rv_row item) ''amount_in'')) (\<lambda>i.
                   bindr (raw_decimal (fld (rv_row item) ''amount_out'')) (\<lambda>out.
                   Inr (money i, money out)))) ranking) (\<lambda>pairs.
       Inr \<lparr>vis_key = ''stock_movement'', vis_title = (utf8 [224, 184, 161, 224, 184, 185, 224, 184, 165, 224, 184, 132, 224, 185, 136, 224, 184, 178, 224, 184, 163, 224, 184, 177, 224, 184, 154, 224, 185, 128, 224, 184, 130, 224, 185, 137, 224, 184, 178, 224, 185, 129, 224, 184, 165, 224, 184, 176, 224, 184, 136, 224, 185, 136, 224, 184, 178, 224, 184, 162, 224, 184, 173, 224, 184, 173, 224, 184, 129, 224, 184, 149, 224, 184, 178, 224, 184, 161, 224, 184, 170, 224, 184, 180, 224, 184, 153, 224, 184, 132, 224, 185, 137, 224, 184, 178]),
         vis_intent = IntentComposition, vis_unit = UnitTHB, vis_categories = map rv_label ranking,
         vis_series = [
           \<lparr>ser_key = ''amount_in'', ser_label = (utf8 [224, 184, 163, 224, 184, 177, 224, 184, 154, 224, 185, 128, 224, 184, 130, 224, 185, 137, 224, 184, 178]), ser_values = map fst pairs, ser_point_labels = []\<rparr>,
           \<lparr>ser_key = ''amount_out'', ser_label = (utf8 [224, 184, 136, 224, 185, 136, 224, 184, 178, 224, 184, 162, 224, 184, 173, 224, 184, 173, 224, 184, 129]), ser_values = map snd pairs, ser_point_labels = []\<rparr>],
         vis_note = ''''\<rparr>))"

section \<open>Customer movement\<close>

record movement_total =
  mt_code :: string
  mt_label :: string
  mt_debit :: rat
  mt_credit :: rat

definition mt_net :: "movement_total \<Rightarrow> rat" where "mt_net m = mt_debit m - mt_credit m"

definition movement_add :: "row \<Rightarrow> rat \<Rightarrow> movement_total list \<Rightarrow> movement_total list" where
  "movement_add r x items = (
     let code = fld r ''cust_code'';
         add = (\<lambda>m. if is_credit r then m\<lparr>mt_credit := mt_credit m + x\<rparr> else m\<lparr>mt_debit := mt_debit m + x\<rparr>)
     in if list_ex (\<lambda>m. mt_code m = code) items
        then map (\<lambda>m. if mt_code m = code then add m else m) items
        else items @ [add \<lparr>mt_code = code, mt_label = first_non_empty [fld r ''cust_name'', code],
                           mt_debit = 0, mt_credit = 0\<rparr>])"

fun group_movements :: "row list \<Rightarrow> movement_total list \<Rightarrow> summary_error + movement_total list" where
  "group_movements [] items = Inr items"
| "group_movements (r # rows) items = bindr (raw_decimal (fld r ''amount'')) (\<lambda>x.
     group_movements rows (movement_add r x items))"

definition movement_less :: "movement_total \<Rightarrow> movement_total \<Rightarrow> bool" where
  "movement_less a b = (if \<bar>mt_net a\<bar> \<noteq> \<bar>mt_net b\<bar> then \<bar>mt_net a\<bar> > \<bar>mt_net b\<bar> else mt_code a < mt_code b)"

definition build_movement_visualizations :: "row list \<Rightarrow> summary_error + dashboard_visualization list" where
  "build_movement_visualizations rows = bindr (group_movements rows []) (\<lambda>grouped.
     let items = take dashboard_top_limit (sort_by movement_less grouped);
         vis = (\<lambda>k title intent series. \<lparr>vis_key = k, vis_title = title, vis_intent = intent,
                  vis_unit = UnitTHB, vis_categories = map mt_label items, vis_series = series, vis_note = ''''\<rparr>);
         ser = (\<lambda>k label f. \<lparr>ser_key = k, ser_label = label, ser_values = map (\<lambda>m. money (f m)) items,
                  ser_point_labels = []\<rparr>)
     in if items = [] then Inr []
        else Inr [vis ''customer_net_movement'' (utf8 [224, 184, 165, 224, 184, 185, 224, 184, 129, 224, 184, 171, 224, 184, 153, 224, 184, 181, 224, 185, 137, 224, 184, 151, 224, 184, 181, 224, 185, 136, 224, 184, 161, 224, 184, 181, 224, 184, 162, 224, 184, 173, 224, 184, 148, 224, 185, 128, 224, 184, 132, 224, 184, 165, 224, 184, 183, 224, 185, 136, 224, 184, 173, 224, 184, 153, 224, 185, 132, 224, 184, 171, 224, 184, 167, 224, 184, 170, 224, 184, 184, 224, 184, 151, 224, 184, 152, 224, 184, 180, 224, 184, 170, 224, 184, 185, 224, 184, 135, 224, 184, 170, 224, 184, 184, 224, 184, 148]) IntentRanking
                    [ser ''net'' (utf8 [224, 184, 162, 224, 184, 173, 224, 184, 148, 224, 184, 170, 224, 184, 184, 224, 184, 151, 224, 184, 152, 224, 184, 180]) mt_net],
                  vis ''customer_debit_credit'' (utf8 [224, 184, 162, 224, 184, 173, 224, 184, 148, 224, 185, 128, 224, 184, 158, 224, 184, 180, 224, 185, 136, 224, 184, 161, 224, 185, 129, 224, 184, 165, 224, 184, 176, 224, 184, 162, 224, 184, 173, 224, 184, 148, 224, 184, 165, 224, 184, 148, 224, 184, 149, 224, 184, 178, 224, 184, 161, 224, 184, 165, 224, 184, 185, 224, 184, 129, 224, 184, 171, 224, 184, 153, 224, 184, 181, 224, 185, 137]) IntentComposition
                    [ser ''debit'' (utf8 [224, 184, 162, 224, 184, 173, 224, 184, 148, 224, 185, 128, 224, 184, 158, 224, 184, 180, 224, 185, 136, 224, 184, 161]) mt_debit, ser ''credit'' (utf8 [224, 184, 162, 224, 184, 173, 224, 184, 148, 224, 184, 165, 224, 184, 148]) mt_credit]])"

section \<open>Compositions\<close>

fun composition_parts :: "row list \<Rightarrow> (string \<times> string) list \<Rightarrow> summary_error + (string \<times> string) list" where
  "composition_parts rows [] = Inr []"
| "composition_parts rows ((field, label) # rest) = bindr (sum_field rows field) (\<lambda>total.
     bindr (composition_parts rows rest) (\<lambda>parts.
     Inr (if total = 0 then parts else (label, money total) # parts)))"

definition build_composition :: "string \<Rightarrow> string \<Rightarrow> row list \<Rightarrow> (string \<times> string) list
    \<Rightarrow> summary_error + dashboard_visualization" where
  "build_composition k title rows rest = bindr (composition_parts rows rest) (\<lambda>parts.
     if parts = [] then Inr empty_visualization
     else Inr \<lparr>vis_key = k, vis_title = title, vis_intent = IntentComposition, vis_unit = UnitTHB,
       vis_categories = map fst parts,
       vis_series = [\<lparr>ser_key = ''amount'', ser_label = (utf8 [224, 184, 136, 224, 184, 179, 224, 184, 153, 224, 184, 167, 224, 184, 153, 224, 185, 128, 224, 184, 135, 224, 184, 180, 224, 184, 153]), ser_values = map snd parts, ser_point_labels = []\<rparr>],
       vis_note = ''''\<rparr>)"

section \<open>BuildDashboard\<close>

definition compact_visualizations :: "dashboard_visualization list \<Rightarrow> dashboard_visualization list" where
  "compact_visualizations items =
     filter (\<lambda>v. vis_key v \<noteq> '''' \<and> vis_categories v \<noteq> [] \<and> vis_series v \<noteq> []) items"

definition two_visualizations :: "summary_error + dashboard_visualization \<Rightarrow> summary_error + dashboard_visualization
    \<Rightarrow> summary_error + dashboard_visualization list" where
  "two_visualizations a b = bindr a (\<lambda>x. bindr b (\<lambda>y. Inr (compact_visualizations [x, y])))"

definition receipt_fields :: "(string \<times> string) list" where
  "receipt_fields = [(''cash_amount'', (utf8 [224, 185, 128, 224, 184, 135, 224, 184, 180, 224, 184, 153, 224, 184, 170, 224, 184, 148])), (''card_amount'', (utf8 [224, 184, 154, 224, 184, 177, 224, 184, 149, 224, 184, 163])), (''chq_amount'', (utf8 [224, 185, 128, 224, 184, 138, 224, 185, 135, 224, 184, 132])),
     (''transfer_amount'', (utf8 [224, 185, 128, 224, 184, 135, 224, 184, 180, 224, 184, 153, 224, 185, 130, 224, 184, 173, 224, 184, 153])), (''coupon_amount'', (utf8 [224, 184, 132, 224, 184, 185, 224, 184, 155, 224, 184, 173, 224, 184, 135])), (''total_income_amount'', (utf8 [224, 184, 163, 224, 184, 178, 224, 184, 162, 224, 185, 132, 224, 184, 148, 224, 185, 137, 224, 184, 173, 224, 184, 183, 224, 185, 136, 224, 184, 153]))]"

definition payment_fields :: "(string \<times> string) list" where
  "payment_fields = [(''cash_amount'', (utf8 [224, 185, 128, 224, 184, 135, 224, 184, 180, 224, 184, 153, 224, 184, 170, 224, 184, 148])), (''card_amount'', (utf8 [224, 184, 154, 224, 184, 177, 224, 184, 149, 224, 184, 163])), (''chq_amount'', (utf8 [224, 185, 128, 224, 184, 138, 224, 185, 135, 224, 184, 132])),
     (''transfer_amount'', (utf8 [224, 185, 128, 224, 184, 135, 224, 184, 180, 224, 184, 153, 224, 185, 130, 224, 184, 173, 224, 184, 153])), (''petty_cash_amount'', (utf8 [224, 185, 128, 224, 184, 135, 224, 184, 180, 224, 184, 153, 224, 184, 170, 224, 184, 148, 224, 184, 162, 224, 185, 136, 224, 184, 173, 224, 184, 162])), (''total_income_amount'', (utf8 [224, 184, 163, 224, 184, 178, 224, 184, 162, 224, 184, 129, 224, 184, 178, 224, 184, 163, 224, 184, 173, 224, 184, 183, 224, 185, 136, 224, 184, 153]))]"

definition build_dashboard_visualizations :: "key \<Rightarrow> period \<Rightarrow> period \<Rightarrow> steps \<Rightarrow> steps
    \<Rightarrow> summary_error + dashboard_visualization list" where
  "build_dashboard_visualizations k p cp cur prev = (
     let trend = (\<lambda>key title step field. build_trend key title UnitTHB p cp (step_rows cur step) (step_rows prev step) field);
         rows = step_rows cur ''rows''
     in case k of
       SalesGoodsServices \<Rightarrow> two_visualizations
         (trend ''sales_trend'' (utf8 [224, 185, 129, 224, 184, 153, 224, 184, 167, 224, 185, 130, 224, 184, 153, 224, 185, 137, 224, 184, 161, 224, 184, 162, 224, 184, 173, 224, 184, 148, 224, 184, 130, 224, 184, 178, 224, 184, 162]) ''headers'' ''total_amount'')
         (build_ranking ''top_products'' (utf8 [224, 184, 170, 224, 184, 180, 224, 184, 153, 224, 184, 132, 224, 185, 137, 224, 184, 178, 224, 184, 151, 224, 184, 179, 224, 184, 162, 224, 184, 173, 224, 184, 148, 224, 184, 130, 224, 184, 178, 224, 184, 162, 224, 184, 170, 224, 184, 185, 224, 184, 135, 224, 184, 170, 224, 184, 184, 224, 184, 148]) UnitTHB (step_rows cur ''details'')
            ''item_code'' ''item_name'' (\<lambda>r. raw_decimal (fld r ''sum_amount'')) False)
     | PurchaseGoodsPayables \<Rightarrow> two_visualizations
         (trend ''purchase_trend'' (utf8 [224, 185, 129, 224, 184, 153, 224, 184, 167, 224, 185, 130, 224, 184, 153, 224, 185, 137, 224, 184, 161, 224, 184, 162, 224, 184, 173, 224, 184, 148, 224, 184, 139, 224, 184, 183, 224, 185, 137, 224, 184, 173]) ''headers'' ''total_amount'')
         (build_ranking ''top_suppliers'' (utf8 [224, 184, 156, 224, 184, 185, 224, 185, 137, 224, 184, 136, 224, 184, 179, 224, 184, 171, 224, 184, 153, 224, 185, 136, 224, 184, 178, 224, 184, 162, 224, 184, 151, 224, 184, 181, 224, 185, 136, 224, 184, 161, 224, 184, 181, 224, 184, 162, 224, 184, 173, 224, 184, 148, 224, 184, 139, 224, 184, 183, 224, 185, 137, 224, 184, 173, 224, 184, 170, 224, 184, 185, 224, 184, 135, 224, 184, 170, 224, 184, 184, 224, 184, 148]) UnitTHB (step_rows cur ''headers'')
            ''cust_code'' ''cust_name'' (\<lambda>r. raw_decimal (fld r ''total_amount'')) False)
     | GrossProfitByProduct \<Rightarrow> two_visualizations
         (build_profit_ranking ''top_profit_products'' (utf8 [224, 184, 170, 224, 184, 180, 224, 184, 153, 224, 184, 132, 224, 185, 137, 224, 184, 178, 224, 184, 129, 224, 184, 179, 224, 185, 132, 224, 184, 163, 224, 184, 170, 224, 184, 185, 224, 184, 135, 224, 184, 170, 224, 184, 184, 224, 184, 148]) rows ''code'' ''name_1'' False)
         (build_profit_ranking ''loss_products'' (utf8 [224, 184, 170, 224, 184, 180, 224, 184, 153, 224, 184, 132, 224, 185, 137, 224, 184, 178, 224, 184, 151, 224, 184, 181, 224, 185, 136, 224, 184, 130, 224, 184, 178, 224, 184, 148, 224, 184, 151, 224, 184, 184, 224, 184, 153]) rows ''code'' ''name_1'' True)
     | GrossProfitByARCustomer \<Rightarrow> two_visualizations
         (build_profit_ranking ''top_profit_customers'' (utf8 [224, 184, 165, 224, 184, 185, 224, 184, 129, 224, 184, 132, 224, 185, 137, 224, 184, 178, 224, 184, 151, 224, 184, 181, 224, 185, 136, 224, 184, 170, 224, 184, 163, 224, 185, 137, 224, 184, 178, 224, 184, 135, 224, 184, 129, 224, 184, 179, 224, 185, 132, 224, 184, 163, 224, 184, 170, 224, 184, 185, 224, 184, 135, 224, 184, 170, 224, 184, 184, 224, 184, 148]) rows ''ar_code'' ''ar_detail'' False)
         (build_profit_ranking ''loss_customers'' (utf8 [224, 184, 165, 224, 184, 185, 224, 184, 129, 224, 184, 132, 224, 185, 137, 224, 184, 178, 224, 184, 151, 224, 184, 181, 224, 185, 136, 224, 184, 130, 224, 184, 178, 224, 184, 148, 224, 184, 151, 224, 184, 184, 224, 184, 153]) rows ''ar_code'' ''ar_detail'' True)
     | StockBalance \<Rightarrow> two_visualizations
         (build_ranking ''top_stock_value'' (utf8 [224, 184, 170, 224, 184, 180, 224, 184, 153, 224, 184, 132, 224, 185, 137, 224, 184, 178, 224, 184, 151, 224, 184, 181, 224, 185, 136, 224, 184, 161, 224, 184, 181, 224, 184, 161, 224, 184, 185, 224, 184, 165, 224, 184, 132, 224, 185, 136, 224, 184, 178, 224, 184, 132, 224, 184, 135, 224, 185, 128, 224, 184, 171, 224, 184, 165, 224, 184, 183, 224, 184, 173, 224, 184, 170, 224, 184, 185, 224, 184, 135, 224, 184, 170, 224, 184, 184, 224, 184, 148]) UnitTHB rows ''ic_code'' ''ic_name''
            (\<lambda>r. raw_decimal (fld r ''balance_amount'')) False)
         (build_stock_movement rows)
     | StockReorder \<Rightarrow> bindr (build_reorder_exceptions rows) (\<lambda>v. Inr (compact_visualizations [v]))
     | ARCustomerMovement \<Rightarrow> build_movement_visualizations rows
     | ARDebtReceipt \<Rightarrow> two_visualizations
         (trend ''debt_receipt_trend'' (utf8 [224, 185, 129, 224, 184, 153, 224, 184, 167, 224, 185, 130, 224, 184, 153, 224, 185, 137, 224, 184, 161, 224, 184, 163, 224, 184, 177, 224, 184, 154, 224, 184, 138, 224, 184, 179, 224, 184, 163, 224, 184, 176, 224, 184, 171, 224, 184, 153, 224, 184, 181, 224, 185, 137]) ''rows'' ''total_net_value'')
         (build_composition ''debt_receipt_methods'' (utf8 [224, 184, 167, 224, 184, 180, 224, 184, 152, 224, 184, 181, 224, 184, 163, 224, 184, 177, 224, 184, 154, 224, 184, 138, 224, 184, 179, 224, 184, 163, 224, 184, 176]) rows
            [(''cash_amount'', (utf8 [224, 185, 128, 224, 184, 135, 224, 184, 180, 224, 184, 153, 224, 184, 170, 224, 184, 148])), (''transfer_amount'', (utf8 [224, 185, 128, 224, 184, 135, 224, 184, 180, 224, 184, 153, 224, 185, 130, 224, 184, 173, 224, 184, 153]))])
     | CashBankReceipts \<Rightarrow> two_visualizations
         (trend ''cash_receipt_trend'' (utf8 [224, 185, 129, 224, 184, 153, 224, 184, 167, 224, 185, 130, 224, 184, 153, 224, 185, 137, 224, 184, 161, 224, 184, 163, 224, 184, 177, 224, 184, 154, 224, 185, 128, 224, 184, 135, 224, 184, 180, 224, 184, 153]) ''rows'' ''total_amount'')
         (build_composition ''cash_receipt_methods'' (utf8 [224, 184, 138, 224, 185, 136, 224, 184, 173, 224, 184, 135, 224, 184, 151, 224, 184, 178, 224, 184, 135, 224, 184, 129, 224, 184, 178, 224, 184, 163, 224, 184, 138, 224, 184, 179, 224, 184, 163, 224, 184, 176]) rows receipt_fields)
     | CashBankPayments \<Rightarrow> two_visualizations
         (trend ''cash_payment_trend'' (utf8 [224, 185, 129, 224, 184, 153, 224, 184, 167, 224, 185, 130, 224, 184, 153, 224, 185, 137, 224, 184, 161, 224, 184, 136, 224, 185, 136, 224, 184, 178, 224, 184, 162, 224, 185, 128, 224, 184, 135, 224, 184, 180, 224, 184, 153]) ''rows'' ''total_amount'')
         (build_composition ''cash_payment_methods'' (utf8 [224, 184, 138, 224, 185, 136, 224, 184, 173, 224, 184, 135, 224, 184, 151, 224, 184, 178, 224, 184, 135, 224, 184, 129, 224, 184, 178, 224, 184, 163, 224, 184, 138, 224, 184, 179, 224, 184, 163, 224, 184, 176]) rows payment_fields)
     | OtherKey s \<Rightarrow> Inl (DashboardUndefined k))"

definition comparison_supported :: "key \<Rightarrow> period \<Rightarrow> bool" where
  "comparison_supported k p = (
     if definition_for k = None \<or> k = StockReorder \<or> preset p = TodayToNow then False
     else if preset p = AsOfRun then k = StockBalance \<or> k = ARCustomerMovement
     else preset p = Yesterday \<or> preset p = MonthToDate \<or> preset p = Custom)"

definition unavailable_comparison :: metric_comparison where
  "unavailable_comparison = \<lparr>cmp_availability = ComparisonUnavailable, cmp_previous_value = '''',
     cmp_delta = '''', cmp_percent = '''', cmp_direction = DirectionUnset\<rparr>"

definition add_warning :: "string \<Rightarrow> dashboard_quality \<Rightarrow> dashboard_quality" where
  "add_warning w q = \<lparr>qual_status = ''WARNING'',
     qual_warnings = (if w \<in> set (qual_warnings q) then qual_warnings q else qual_warnings q @ [w])\<rparr>"

definition set_comparison_unavailable :: "dashboard \<Rightarrow> string \<Rightarrow> dashboard" where
  "set_comparison_unavailable d warning = d\<lparr>
     dash_kpis := map (\<lambda>m. m\<lparr>kpi_comparison := unavailable_comparison\<rparr>) (dash_kpis d),
     dash_visualizations := map (\<lambda>v. v\<lparr>vis_series := filter (\<lambda>s. ser_key s \<noteq> ''previous'') (vis_series v)\<rparr>)
        (dash_visualizations d),
     dash_quality := (if warning = '''' then dash_quality d else add_warning warning (dash_quality d))\<rparr>"

definition build_kpis :: "dashboard_metric_input list \<Rightarrow> summary_error + dashboard_metric list" where
  "build_kpis = map_res (\<lambda>i. case new_dashboard_metric i of Inl e \<Rightarrow> Inl (KpiInvalid (mi_key i) e) | Inr m \<Rightarrow> Inr m)"

definition build_dashboard :: "key \<Rightarrow> period \<Rightarrow> period \<Rightarrow> steps \<Rightarrow> steps \<Rightarrow> summary_error + dashboard" where
  "build_dashboard k p cp cur prev = (case definition_for k of
     None \<Rightarrow> Inl DashboardKeyNotApproved
   | Some def \<Rightarrow>
       bindr (summarize k cur) (\<lambda>cur_summary.
       bindr (summarize k prev) (\<lambda>prev_summary.
       bindr (build_dashboard_metrics k cur_summary prev_summary cur prev) (\<lambda>inputs.
       bindr (build_kpis inputs) (\<lambda>kpis.
       bindr (build_dashboard_visualizations k p cp cur prev) (\<lambda>vis.
       let d = \<lparr>dash_report_key = k, dash_version = def_version def, dash_period = p,
                dash_comparison_period = cp, dash_timezone = ''Asia/Bangkok'', dash_generated_at = None,
                dash_kpis = kpis, dash_visualizations = vis,
                dash_quality = \<lparr>qual_status = ''OK'', qual_warnings = []\<rparr>\<rparr>
       in Inr (if comparison_supported k p then d else set_comparison_unavailable d '''')))))))"

section \<open>Rankings are independent of the order of the groups\<close>

lemma ranking_less_weak: "weak_order (ranking_less asc)"
proof (rule weak_orderI)
  fix x y :: ranked_value
  assume "ranking_less asc x y"
  then show "\<not> ranking_less asc y x" by (auto simp: ranking_less_def split: if_splits)
next
  fix x y z :: ranked_value
  assume "\<not> ranking_less asc y x" "\<not> ranking_less asc z y"
  then show "\<not> ranking_less asc z x" by (auto simp: ranking_less_def not_less split: if_splits)
qed

lemma ranking_less_total:
  "\<not> ranking_less asc x y \<Longrightarrow> \<not> ranking_less asc y x \<Longrightarrow> rv_value x = rv_value y \<and> rv_code x = rv_code y"
  by (auto simp: ranking_less_def split: if_splits)

lemma codes_eq: "distinct (map f xs) \<Longrightarrow> x \<in> set xs \<Longrightarrow> y \<in> set xs \<Longrightarrow> f x = f y \<Longrightarrow> x = y"
  by (simp add: distinct_map inj_on_def)

lemma ranking_items_perm:
  assumes "mset xs = mset ys" "distinct (map rv_code xs)"
  shows "ranking_items asc xs = ranking_items asc ys"
proof -
  let ?p = "\<lambda>i. if asc then rv_value i < 0 else rv_value i > 0"
  have "sort_by (ranking_less asc) (filter ?p xs) = sort_by (ranking_less asc) (filter ?p ys)"
  proof (rule sort_by_perm[OF ranking_less_weak])
    fix x y assume "x \<in> set (filter ?p xs)" "y \<in> set (filter ?p xs)"
      "\<not> ranking_less asc x y" "\<not> ranking_less asc y x"
    then show "x = y" using ranking_less_total[of asc x y] codes_eq[OF assms(2), of x y] by auto
  qed (simp add: assms(1))
  then show ?thesis by (simp add: ranking_items_def)
qed

lemma ranking_items_sorted: "sorted_wrt (\<lambda>a b. \<not> ranking_less asc b a) (ranking_items asc xs)"
  unfolding ranking_items_def by (intro sorted_wrt_take sorted_sort_by ranking_less_weak)

lemma ranking_items_bounds:
  "length (ranking_items asc xs) \<le> 10"
  "i \<in> set (ranking_items asc xs) \<Longrightarrow> i \<in> set xs \<and> (if asc then rv_value i < 0 else rv_value i > 0)"
  unfolding ranking_items_def dashboard_top_limit_def
  by (simp, drule in_set_takeD, auto split: if_splits)

section \<open>Groups\<close>

definition code_sum :: "string \<Rightarrow> (row \<Rightarrow> rat) \<Rightarrow> string \<Rightarrow> row list \<Rightarrow> rat" where
  "code_sum cf v code rows = sum_list (map v (filter (\<lambda>r. fld r cf = code) rows))"

text \<open>What a grouped list says about the rows it was built from.\<close>

definition groups_of :: "string \<Rightarrow> (row \<Rightarrow> rat) \<Rightarrow> row list \<Rightarrow> ranked_value list \<Rightarrow> bool" where
  "groups_of cf v rows items \<longleftrightarrow> distinct (map rv_code items)
     \<and> rv_code ` set items = (\<lambda>r. fld r cf) ` set rows
     \<and> (\<forall>i \<in> set items. rv_value i = code_sum cf v (rv_code i) rows)"

lemma code_sum_snoc:
  "code_sum cf v code (rows @ [r]) = code_sum cf v code rows + (if fld r cf = code then v r else 0)"
  by (simp add: code_sum_def)

lemma code_sum_absent: "code \<notin> (\<lambda>r. fld r cf) ` set rows \<Longrightarrow> code_sum cf v code rows = 0"
  by (induction rows) (auto simp: code_sum_def)

lemma groups_of_add:
  assumes "groups_of cf v rows items"
  shows "groups_of cf v (rows @ [r]) (group_add (fld r cf) label (v r) r items)"
proof (cases "list_ex (\<lambda>i. rv_code i = fld r cf) items")
  case True
  let ?f = "\<lambda>i. if rv_code i = fld r cf then i\<lparr>rv_value := rv_value i + v r\<rparr> else i"
  have g: "group_add (fld r cf) label (v r) r items = map ?f items"
    using True by (simp add: group_add_def)
  have m: "map rv_code (map ?f items) = map rv_code items" by simp
  have k: "rv_code ` set (map ?f items) = rv_code ` set items"
    using m by (metis set_map)
  have "fld r cf \<in> rv_code ` set items"
    using True by (auto simp: list_ex_iff intro: rev_image_eqI)
  then have c: "rv_code ` set (map ?f items) = (\<lambda>r. fld r cf) ` set (rows @ [r])"
    unfolding k using assms by (auto simp: groups_of_def)
  have v: "\<forall>i \<in> set (map ?f items). rv_value i = code_sum cf v (rv_code i) (rows @ [r])"
    using assms by (auto simp: groups_of_def code_sum_snoc)
  have "distinct (map rv_code items)" using assms by (simp add: groups_of_def)
  with m have "distinct (map rv_code (map ?f items))" by argo
  with c v show ?thesis unfolding groups_of_def g by blast
next
  case False
  then have new: "fld r cf \<notin> rv_code ` set items" by (auto simp: list_ex_iff)
  then have "code_sum cf v (fld r cf) rows = 0"
    using assms by (intro code_sum_absent) (simp add: groups_of_def)
  moreover have "rv_code i \<noteq> fld r cf" if "i \<in> set items" for i using new that by (metis image_eqI)
  ultimately show ?thesis
    using False new assms by (auto simp: groups_of_def group_add_def code_sum_snoc)
qed

lemma group_rows_groups:
  assumes "\<And>r. r \<in> set rows \<Longrightarrow> vf r = Inr (v r)" "groups_of cf v before items"
    "group_rows cf nf vf rows items = Inr g"
  shows "groups_of cf v (before @ rows) g"
  using assms
proof (induction rows arbitrary: before items)
  case (Cons r rows)
  let ?label = "if fld r nf = '''' then fld r cf else fld r nf"
  have "groups_of cf v (before @ [r]) (group_add (fld r cf) ?label (v r) r items)"
    by (rule groups_of_add[OF Cons.prems(2)])
  moreover have "group_rows cf nf vf rows (group_add (fld r cf) ?label (v r) r items) = Inr g"
    using Cons.prems(1,3) by (simp add: Let_def)
  ultimately have "groups_of cf v ((before @ [r]) @ rows) g"
    using Cons.prems(1) by (intro Cons.IH) auto
  then show ?case by simp
qed simp

lemma group_rows_total:
  "(\<And>r. r \<in> set rows \<Longrightarrow> vf r = Inr (v r)) \<Longrightarrow> \<exists>g. group_rows cf nf vf rows items = Inr g"
  by (induction rows arbitrary: items) (auto simp: Let_def)

section \<open>Buckets\<close>

text \<open>The index map is the inverse of the list of labels, and every day of the period is in it.\<close>

definition buckets_ok :: "string list \<Rightarrow> (string \<rightharpoonup> nat) \<Rightarrow> bool" where
  "buckets_ok labels indexes \<longleftrightarrow> distinct labels \<and>
     (\<forall>k i. indexes k = Some i \<longleftrightarrow> i < length labels \<and> labels ! i = k)"

lemma buckets_ok_step:
  assumes "buckets_ok labels indexes" "indexes k = None"
  shows "buckets_ok (labels @ [k]) (indexes(k \<mapsto> length labels))"
  unfolding buckets_ok_def
proof (intro conjI allI)
  have nk: "k \<notin> set labels"
    using assms by (metis buckets_ok_def in_set_conv_nth option.distinct(1))
  then show "distinct (labels @ [k])" using assms(1) by (simp add: buckets_ok_def)
  fix j i
  show "(indexes(k \<mapsto> length labels)) j = Some i \<longleftrightarrow> i < length (labels @ [k]) \<and> (labels @ [k]) ! i = j"
    using assms nk
    by (auto simp: buckets_ok_def nth_append less_Suc_eq)
qed

lemma fold_buckets:
  assumes "buckets_ok labels indexes" "fold (bucket_step from mode) days (labels, indexes) = (ls, ix)"
  shows "buckets_ok ls ix \<and> dom indexes \<subseteq> dom ix \<and> (\<forall>d \<in> set days. ix (dashboard_bucket_key from d mode) \<noteq> None)"
  using assms
proof (induction days arbitrary: labels indexes)
  case (Cons d days)
  let ?k = "dashboard_bucket_key from d mode"
  obtain l x where s: "bucket_step from mode d (labels, indexes) = (l, x)" by fastforce
  then have "buckets_ok l x" "dom indexes \<subseteq> dom x" "x ?k \<noteq> None"
    using Cons.prems(1) buckets_ok_step by (auto simp: bucket_step_def Let_def split: if_splits)
  with Cons.IH[of l x] Cons.prems(2) s show ?case by auto
qed auto

lemma period_buckets_ok:
  assumes "period_buckets from to mode = (labels, indexes)"
  shows "buckets_ok labels indexes"
    and "from \<le> d \<Longrightarrow> d \<le> to \<Longrightarrow> \<exists>i < length labels. indexes (dashboard_bucket_key from d mode) = Some i"
proof -
  have "buckets_ok [] Map.empty" by (simp add: buckets_ok_def)
  from fold_buckets[OF this assms[unfolded period_buckets_def]]
  have *: "buckets_ok labels indexes \<and>
      (\<forall>d \<in> set [from..to]. indexes (dashboard_bucket_key from d mode) \<noteq> None)" by simp
  then show ok: "buckets_ok labels indexes" by simp
  assume "from \<le> d" "d \<le> to"
  with * obtain i where "indexes (dashboard_bucket_key from d mode) = Some i" by fastforce
  with ok show "\<exists>i < length labels. indexes (dashboard_bucket_key from d mode) = Some i"
    by (auto simp: buckets_ok_def)
qed

definition in_trend :: "day \<Rightarrow> day \<Rightarrow> row \<Rightarrow> bool" where
  "in_trend from to r \<longleftrightarrow> (case parse_date (fld r ''doc_date'') of None \<Rightarrow> False | Some d \<Rightarrow> from \<le> d \<and> d \<le> to)"

lemma sum_list_update_add: "i < length xs \<Longrightarrow> sum_list (xs[i := xs ! i + x]) = sum_list xs + (x::rat)"
proof (induction xs arbitrary: i)
  case (Cons y ys)
  then show ?case by (cases i) simp_all
qed simp

lemma add_rows_sum:
  assumes "\<And>d. from \<le> d \<Longrightarrow> d \<le> to \<Longrightarrow> \<exists>i < length vals. indexes (dashboard_bucket_key from d mode) = Some i"
    and "add_rows from to mode indexes field rows vals = Inr out"
  shows "length out = length vals \<and>
    (\<exists>xs. column (filter (in_trend from to) rows) field xs \<and> sum_list out = sum_list vals + sum_list xs)"
  using assms
proof (induction rows arbitrary: vals)
  case (Cons r rows)
  show ?case
  proof (cases "in_trend from to r")
    case False
    then have "add_rows from to mode indexes field rows vals = Inr out"
      using Cons.prems(2) by (auto simp: in_trend_def not_le split: option.splits if_splits)
    with Cons.IH[OF Cons.prems(1)] False show ?thesis by simp
  next
    case True
    then obtain d where d: "parse_date (fld r ''doc_date'') = Some d" "from \<le> d" "d \<le> to"
      by (auto simp: in_trend_def split: option.splits)
    from Cons.prems(1)[OF d(2,3)] obtain i where
      i: "i < length vals" "indexes (dashboard_bucket_key from d mode) = Some i" by blast
    with Cons.prems(2) d obtain x where x: "decimal (fld r field) = Inr x"
      and rec: "add_rows from to mode indexes field rows (vals[i := vals ! i + x]) = Inr out"
      by (auto simp: field_decimal_Inr)
    have "length out = length (vals[i := vals ! i + x]) \<and>
      (\<exists>xs. column (filter (in_trend from to) rows) field xs
            \<and> sum_list out = sum_list (vals[i := vals ! i + x]) + sum_list xs)"
      using Cons.prems(1) by (intro Cons.IH[OF _ rec]) simp
    then obtain xs where xs: "length out = length vals" "column (filter (in_trend from to) rows) field xs"
      "sum_list out = sum_list vals + x + sum_list xs"
      using i by (auto simp: sum_list_update_add)
    have "column (filter (in_trend from to) (r # rows)) field (x # xs)" using True x xs(2) by simp
    moreover have "sum_list out = sum_list vals + sum_list (x # xs)" using xs(3) by simp
    ultimately show ?thesis using xs(1) by blast
  qed
qed auto

lemma groups_of_Nil: "groups_of cf v [] []"
  by (simp add: groups_of_def)

lemma ranking_values_sorted:
  "sorted_wrt (\<lambda>a b. if asc then rv_value a \<le> rv_value b else rv_value a \<ge> rv_value b) (ranking_items asc xs)"
  by (rule sorted_wrt_mono_rel[OF _ ranking_items_sorted[of asc xs]])
     (auto simp: ranking_less_def not_less split: if_splits)

section \<open>Without a comparison nothing of the previous period is shown\<close>

definition strip_previous :: "dashboard_visualization \<Rightarrow> dashboard_visualization" where
  "strip_previous v = v\<lparr>vis_series := filter (\<lambda>s. ser_key s \<noteq> ''previous'') (vis_series v)\<rparr>"

definition same_shape :: "dashboard_visualization \<Rightarrow> dashboard_visualization \<Rightarrow> bool" where
  "same_shape v w \<longleftrightarrow> strip_previous v = strip_previous w \<and> vis_key v = vis_key w
     \<and> vis_categories v = vis_categories w \<and> (vis_series v = [] \<longleftrightarrow> vis_series w = [])"

lemma same_shape_refl [simp]: "same_shape v v"
  by (simp add: same_shape_def)

lemma add_rows_length: "add_rows from to mode indexes field rows vs = Inr out \<Longrightarrow> length out = length vs"
  by (induction rows arbitrary: vs) (auto split: option.splits if_splits)

lemma aggregate_labels:
  assumes "aggregate_period_rows p rows field = Inr (vs, ls)" "aggregate_period_rows p rows' field = Inr (vs', ls')"
  shows "ls = ls'" "length vs = length vs'" "length vs = length ls"
  using assms
  by (auto simp: aggregate_period_rows_def Let_def dest!: add_rows_length split: option.splits if_splits prod.splits)

lemma build_trend_shape:
  assumes "build_trend k title u p cp cur prev field = Inr v" "build_trend k title u p cp cur prev' field = Inr w"
  shows "same_shape v w"
proof -
  let ?K = "\<lambda>r. rows_for_summary_kind r ''trend''"
  obtain cv cl where c: "aggregate_period_rows p (?K cur) field = Inr (cv, cl)"
    using assms(1) by (auto simp: build_trend_def)
  obtain pv pl where q: "aggregate_period_rows cp (?K prev) field = Inr (pv, pl)"
    using assms(1) c by (auto simp: build_trend_def)
  obtain pv' pl' where q': "aggregate_period_rows cp (?K prev') field = Inr (pv', pl')"
    using assms(2) c by (auto simp: build_trend_def)
  have "length pv = length pv'" using aggregate_labels[OF q q'] by simp
  with assms c q q' show ?thesis
    by (auto simp: build_trend_def Let_def same_shape_def strip_previous_def split: if_splits)
qed

lemma two_visualizations_shape:
  assumes "two_visualizations a x = Inr vs" "two_visualizations b x = Inr ws"
    and "\<And>v w. a = Inr v \<Longrightarrow> b = Inr w \<Longrightarrow> same_shape v w"
  shows "map strip_previous vs = map strip_previous ws"
proof -
  obtain v w y where "a = Inr v" "b = Inr w" "x = Inr y"
    and c: "vs = compact_visualizations [v, y]" "ws = compact_visualizations [w, y]"
    using assms(1,2) by (auto simp: two_visualizations_def)
  then have s: "same_shape v w" by (intro assms(3))
  then have *: "strip_previous v = strip_previous w"
    "(vis_key v \<noteq> '''' \<and> vis_categories v \<noteq> [] \<and> vis_series v \<noteq> []) =
     (vis_key w \<noteq> '''' \<and> vis_categories w \<noteq> [] \<and> vis_series w \<noteq> [])"
    by (auto simp: same_shape_def)
  show ?thesis unfolding c compact_visualizations_def by (simp add: *)
qed

lemma visualizations_shape:
  assumes "build_dashboard_visualizations k p cp cur prev = Inr vs"
    "build_dashboard_visualizations k p cp cur prev' = Inr ws"
  shows "map strip_previous vs = map strip_previous ws"
  using assms
  by (cases k) (auto simp: build_dashboard_visualizations_def Let_def
      elim!: two_visualizations_shape build_trend_shape)

lemma new_metric_value:
  assumes "new_dashboard_metric i = Inr m" "new_dashboard_metric j = Inr n"
    "mi_key i = mi_key j" "mi_label i = mi_label j" "mi_current i = mi_current j" "mi_unit i = mi_unit j"
  shows "m\<lparr>kpi_comparison := c\<rparr> = n\<lparr>kpi_comparison := c\<rparr>"
  using assms by (auto simp: new_dashboard_metric_def Let_def)

definition same_current :: "dashboard_metric_input \<Rightarrow> dashboard_metric_input \<Rightarrow> bool" where
  "same_current i j \<longleftrightarrow> mi_key i = mi_key j \<and> mi_label i = mi_label j \<and> mi_current i = mi_current j \<and> mi_unit i = mi_unit j"

lemma average_same_current:
  "average_input s a t c u k l = Inr i \<Longrightarrow> average_input s b t c u k l = Inr j \<Longrightarrow> same_current i j"
  by (auto simp: average_input_def Let_def same_current_def)

lemma metrics_same_current:
  assumes "build_dashboard_metrics k s a cur prev = Inr xs" "build_dashboard_metrics k s b cur prev' = Inr ys"
  shows "list_all2 same_current xs ys"
  using assms
  by (cases k) (auto simp: build_dashboard_metrics_def Let_def same_current_def mk_input_def
      dest: average_same_current[unfolded same_current_def])

lemma build_kpis_same:
  assumes "list_all2 same_current xs ys" "build_kpis xs = Inr ms" "build_kpis ys = Inr ns"
  shows "map (\<lambda>m. m\<lparr>kpi_comparison := c\<rparr>) ms = map (\<lambda>m. m\<lparr>kpi_comparison := c\<rparr>) ns"
  using assms
proof (induction xs ys arbitrary: ms ns rule: list_all2_induct)
  case (Cons i xs j ys)
  then show ?case
    by (auto simp: build_kpis_def same_current_def split: sum.splits intro: new_metric_value)
qed (auto simp: build_kpis_def)

section \<open>Totals and rows agree\<close>

lemma raw_decimal_Inr: "raw_decimal v = Inr x \<longleftrightarrow> decimal v = Inr x"
  by (auto simp: raw_decimal_def split: sum.splits)

lemma gross_profit_column:
  assumes "column rows ''amount_sale'' as" "column rows ''cost_sale'' cs"
    "column rows ''amount_sale_return'' rs" "column rows ''cost_sale_return'' qs"
  shows "\<exists>xs. list_all2 (\<lambda>r x. gross_profit_for_row r = Inr x) rows xs \<and>
    sum_list xs = sum_list as - sum_list rs - (sum_list cs - sum_list qs)"
  using assms
proof (induction rows arbitrary: "as" cs rs qs)
  case (Cons r rows)
  then obtain a as' c cs' p rs' q qs' where
    e: "as = a # as'" "cs = c # cs'" "rs = p # rs'" "qs = q # qs'"
    and d: "decimal (fld r ''amount_sale'') = Inr a" "decimal (fld r ''cost_sale'') = Inr c"
      "decimal (fld r ''amount_sale_return'') = Inr p" "decimal (fld r ''cost_sale_return'') = Inr q"
    and cols: "column rows ''amount_sale'' as'" "column rows ''cost_sale'' cs'"
      "column rows ''amount_sale_return'' rs'" "column rows ''cost_sale_return'' qs'"
    by auto
  from Cons.IH[OF cols] obtain xs where xs: "list_all2 (\<lambda>r x. gross_profit_for_row r = Inr x) rows xs"
    "sum_list xs = sum_list as' - sum_list rs' - (sum_list cs' - sum_list qs')" by blast
  have "gross_profit_for_row r = Inr (a - p - (c - q))"
    using d by (simp add: gross_profit_for_row_def raw_decimal_Inr)
  with xs e show ?case by (intro exI[of _ "(a - p - (c - q)) # xs"]) simp
qed auto

lemma net_movement_totals:
  "net_movement rows = Inr n \<longleftrightarrow> (\<exists>d c. movement_totals rows = Inr (d, c) \<and> n = d - c)"
proof (induction rows arbitrary: n)
  case (Cons r rows)
  show ?case
  proof
    assume "net_movement (r # rows) = Inr n"
    then obtain x t where x: "decimal (fld r ''amount'') = Inr x" and t: "net_movement rows = Inr t"
      and n: "n = (if is_credit r then - x else x) + t" by (auto simp: field_decimal_Inr)
    from t Cons.IH obtain d c where "movement_totals rows = Inr (d, c)" "t = d - c" by blast
    with x n show "\<exists>d c. movement_totals (r # rows) = Inr (d, c) \<and> n = d - c"
      by (simp add: raw_decimal_Inr)
  next
    assume "\<exists>d c. movement_totals (r # rows) = Inr (d, c) \<and> n = d - c"
    then obtain x d c where x: "decimal (fld r ''amount'') = Inr x" and m: "movement_totals rows = Inr (d, c)"
      and n: "n = (if is_credit r then d - (x + c) else (x + d) - c)"
      by (auto simp: raw_decimal_Inr split: if_splits)
    have "net_movement rows = Inr (d - c)" using m Cons.IH by blast
    with x n show "net_movement (r # rows) = Inr n" by (simp add: field_decimal_Inr)
  qed
qed auto

section \<open>Properties\<close>

text \<open>C22: the entries of a ranking.  Every row is counted under its code and nothing else is; the
  ranking does not depend on the iteration order of the grouped map, has at most ten entries,
  all of the asked sign, ordered by value.\<close>

theorem ranking_correct:
  assumes "\<And>r. r \<in> set rows \<Longrightarrow> vf r = Inr (v r)"
    and "group_rows cf nf vf rows [] = Inr g" "mset g' = mset g"
  shows "ranking_items asc g' = ranking_items asc g \<and> length (ranking_items asc g) \<le> 10
    \<and> sorted_wrt (\<lambda>a b. if asc then rv_value a \<le> rv_value b else rv_value a \<ge> rv_value b) (ranking_items asc g)
    \<and> rv_code ` set g = (\<lambda>r. fld r cf) ` set rows
    \<and> list_all (\<lambda>i. rv_value i = code_sum cf v (rv_code i) rows
                  \<and> (if asc then rv_value i < 0 else rv_value i > 0)) (ranking_items asc g)"
proof -
  have g: "groups_of cf v rows g"
    using group_rows_groups[OF assms(1) groups_of_Nil assms(2)] by simp
  then have "distinct (map rv_code g)" by (simp add: groups_of_def)
  with assms(3) have "ranking_items asc g' = ranking_items asc g"
    by (metis ranking_items_perm)
  with g show ?thesis
    by (auto simp: groups_of_def list_all_iff ranking_items_bounds(1) ranking_values_sorted dest: ranking_items_bounds(2))
qed

theorem ranking_correct_witness:
  "\<exists>g. group_rows ''code'' ''name'' (\<lambda>r. Inr 5) [[''code'' \<mapsto> ''A''], [''code'' \<mapsto> ''A'']] [] = Inr g
     \<and> list_all (\<lambda>i. rv_value i = code_sum ''code'' (\<lambda>r. 5) (rv_code i) [[''code'' \<mapsto> ''A''], [''code'' \<mapsto> ''A'']])
         (ranking_items False g)"
proof -
  obtain g where g: "group_rows ''code'' ''name'' (\<lambda>r. Inr 5) [[''code'' \<mapsto> ''A''], [''code'' \<mapsto> ''A'']] [] = Inr g"
    using group_rows_total[where vf = "\<lambda>r. Inr 5" and v = "\<lambda>r. 5"] by blast
  have "list_all (\<lambda>i. rv_value i = code_sum ''code'' (\<lambda>r. 5) (rv_code i) [[''code'' \<mapsto> ''A''], [''code'' \<mapsto> ''A'']]
      \<and> (if False then rv_value i < 0 else rv_value i > 0)) (ranking_items False g)"
    using ranking_correct[OF _ g refl, of "\<lambda>r. 5" False] by simp
  with g show ?thesis by (auto simp: list_all_iff)
qed

text \<open>a trend loses nothing.  The buckets of a period add up to the amounts of exactly the rows
  whose document date lies in the period; there is one value per label and no label twice.\<close>

theorem trend_conserves_amounts:
  assumes "aggregate_period_rows p rows field = Inr (vs, labels)"
    and "parse_date (date_from p) = Some from" "parse_date (date_to p) = Some to"
  shows "\<exists>xs. column (filter (in_trend from to) rows) field xs \<and> sum_list vs = sum_list xs
    \<and> length vs = length labels \<and> distinct labels"
proof -
  let ?mode = "bucket_mode_of from to"
  obtain ls ix where b: "period_buckets from to ?mode = (ls, ix)" by fastforce
  with assms have l: "labels = ls" and a: "add_rows from to ?mode ix field rows (map (\<lambda>_. 0) ls) = Inr vs"
    by (auto simp: aggregate_period_rows_def Let_def split: if_splits)
  have "\<exists>i < length (map (\<lambda>_. 0::rat) ls). ix (dashboard_bucket_key from d ?mode) = Some i"
    if "from \<le> d" "d \<le> to" for d
    using period_buckets_ok(2)[OF b that] by simp
  from add_rows_sum[OF this a] have "length vs = length ls"
    "\<exists>xs. column (filter (in_trend from to) rows) field xs \<and> sum_list vs = sum_list xs"
    by auto
  moreover have "distinct ls" using period_buckets_ok(1)[OF b] by (simp add: buckets_ok_def)
  ultimately show ?thesis using l by blast
qed

theorem trend_conserves_amounts_witness:
  "\<exists>vs labels xs. aggregate_period_rows (mk_period Custom 739675 739676) [] ''total'' = Inr (vs, labels)
     \<and> column (filter (in_trend 739675 739676) []) ''total'' xs \<and> sum_list vs = sum_list xs \<and> distinct labels"
proof -
  have p: "parse_date (date_from (mk_period Custom 739675 739676)) = Some 739675"
    "parse_date (date_to (mk_period Custom 739675 739676)) = Some 739676"
    using witness_days by (simp_all, intro parse_format_date, code_simp)
  obtain ls ix where "period_buckets 739675 739676 (bucket_mode_of 739675 739676) = (ls, ix)" by fastforce
  with p have a: "aggregate_period_rows (mk_period Custom 739675 739676) [] ''total'' = Inr (map (\<lambda>_. 0) ls, ls)"
    by (simp add: aggregate_period_rows_def)
  with trend_conserves_amounts[OF a p] show ?thesis by blast
qed

text \<open>C21: when the comparison is not supported, the dashboard tells nothing about the previous
  period: two dashboards that differ only in the previous rows are equal.\<close>

theorem unsupported_comparison_hides_previous:
  assumes "\<not> comparison_supported k p"
    and "build_dashboard k p cp cur prev = Inr d" "build_dashboard k p cp cur prev' = Inr d'"
  shows "d = d'"
proof -
  obtain def s a xs ks vs where 1: "definition_for k = Some def" "summarize k cur = Inr s" "summarize k prev = Inr a"
    "build_dashboard_metrics k s a cur prev = Inr xs" "build_kpis xs = Inr ks"
    "build_dashboard_visualizations k p cp cur prev = Inr vs"
    using assms(2) by (auto simp: build_dashboard_def Let_def split: option.splits)
  obtain b ys ks' ws where 2: "summarize k prev' = Inr b"
    "build_dashboard_metrics k s b cur prev' = Inr ys" "build_kpis ys = Inr ks'"
    "build_dashboard_visualizations k p cp cur prev' = Inr ws"
    using assms(3) 1(1,2) by (auto simp: build_dashboard_def Let_def)
  have K: "map (\<lambda>m. m\<lparr>kpi_comparison := unavailable_comparison\<rparr>) ks = map (\<lambda>m. m\<lparr>kpi_comparison := unavailable_comparison\<rparr>) ks'"
    by (rule build_kpis_same[OF metrics_same_current[OF 1(4) 2(2)] 1(5) 2(3)])
  have V: "map strip_previous vs = map strip_previous ws"
    by (rule visualizations_shape[OF 1(6) 2(4)])
  let ?D = "\<lambda>ks vs. \<lparr>dash_report_key = k, dash_version = def_version def, dash_period = p,
      dash_comparison_period = cp, dash_timezone = ''Asia/Bangkok'', dash_generated_at = None,
      dash_kpis = ks, dash_visualizations = vs, dash_quality = \<lparr>qual_status = ''OK'', qual_warnings = []\<rparr>\<rparr>"
  have "d = ?D (map (\<lambda>m. m\<lparr>kpi_comparison := unavailable_comparison\<rparr>) ks) (map strip_previous vs)"
    using assms(1,2) 1 by (auto simp: build_dashboard_def Let_def set_comparison_unavailable_def strip_previous_def)
  moreover have "d' = ?D (map (\<lambda>m. m\<lparr>kpi_comparison := unavailable_comparison\<rparr>) ks') (map strip_previous ws)"
    using assms(1,3) 1(1,2) 2 by (auto simp: build_dashboard_def Let_def set_comparison_unavailable_def strip_previous_def)
  ultimately show ?thesis using K V by simp
qed

text \<open>the gross profit of a summary without precomputed metrics is the sum of the profits by
  which the rankings order the same rows.\<close>

theorem gross_profit_is_sum_of_rows:
  assumes "k = GrossProfitByProduct \<or> k = GrossProfitByARCustomer"
    and "summarize k steps = Inr s" "\<And>m. summary_metric steps m = None"
  shows "\<exists>xs. list_all2 (\<lambda>r x. gross_profit_for_row r = Inr x) (real_summary_rows (step_rows steps ''rows'')) xs
    \<and> sum_metrics s ''gross_profit_amount'' = Some (money (sum_list xs))"
proof -
  let ?rows = "real_summary_rows (step_rows steps ''rows'')"
  obtain m rc where p: "summarize_gross_profit steps = Inr (m, rc)" "sum_metrics s = m"
    using assms(1,2) by (auto simp: summarize_def summarize_parts_def split: if_splits)
  from p(1) obtain a c r q where sums: "sum_field ?rows ''amount_sale'' = Inr a" "sum_field ?rows ''cost_sale'' = Inr c"
      "sum_field ?rows ''amount_sale_return'' = Inr r" "sum_field ?rows ''cost_sale_return'' = Inr q"
    and m: "m ''gross_profit_amount'' = Some (money (a - r - (c - q)))"
    by (auto simp: summarize_gross_profit_def summary_decimal_or_def assms(3) Let_def)
  from sums obtain as' cs rs qs where "column ?rows ''amount_sale'' as'" "column ?rows ''cost_sale'' cs"
      "column ?rows ''amount_sale_return'' rs" "column ?rows ''cost_sale_return'' qs"
    and t: "a = sum_list as'" "c = sum_list cs" "r = sum_list rs" "q = sum_list qs"
    unfolding sum_field_Inr by blast
  from gross_profit_column[OF this(1-4)] t m p(2) show ?thesis by auto
qed

text \<open>the net movement of customers is what the two KPIs call increase and decrease: the
  debits minus the credits.\<close>

theorem net_movement_is_debit_minus_credit:
  assumes "summarize ARCustomerMovement steps = Inr s" "summary_metric steps ''customer_count'' = None"
    and "list_all (\<lambda>r. \<not> is_metric_row r) (step_rows steps ''rows'')"
  shows "\<exists>debit credit. movement_totals_from_summary s (step_rows steps ''rows'') = Inr (debit, credit)
    \<and> sum_metrics s ''net_movement_amount'' = Some (money (debit - credit))"
proof -
  let ?rows = "step_rows steps ''rows''"
  obtain n where n: "net_movement ?rows = Inr n" "sum_metrics s ''net_movement_amount'' = Some (money n)"
    "sum_metrics s ''debit_amount'' = None" "sum_metrics s ''credit_amount'' = None"
    using assms(1,2) by (auto simp: summarize_def summarize_parts_def summarize_customer_movement_def Let_def split: if_splits)
  have "real_summary_rows ?rows = ?rows"
    using assms(3) by (simp add: real_summary_rows_def list_all_iff)
  with n net_movement_totals[of ?rows n] show ?thesis
    by (auto simp: movement_totals_from_summary_def Let_def)
qed

text \<open>the stock KPIs for received and issued value never come from the rows: Summarize always
  fills the metric, with 0.00 when the query has no metric column, so the sum over the rows that
  metricOrSum falls back to is not reached.\<close>

theorem stock_in_out_never_from_rows:
  assumes "summarize StockBalance steps = Inr s" "summary_metric steps ''amount_in'' = None"
  shows "metric_or_sum s ''amount_in'' rows ''amount_in'' = Inr 0"
proof -
  have "sum_metrics s ''amount_in'' = Some (money 0)"
    using assms by (auto simp: summarize_def summarize_parts_def summarize_stock_balance_def
        decimal_metric_or_zero_def money_metric_or_def Let_def split: if_splits)
  moreover have "rounded 2 0 = 0" by (simp add: rounded_def floor_eq_iff)
  moreover have "decimal (money 0) = Inr 0"
    using float_string_decimal[of 2 0] \<open>rounded 2 0 = 0\<close>
    by (simp add: money_def float_string_def nat_str.simps[of 0])
  moreover have "money 0 \<noteq> ''''" by (simp add: money_def float_string_def Let_def)
  ultimately show ?thesis by (simp add: metric_or_sum_def field_decimal_def)
qed

section \<open>Witnesses\<close>

lemma decimal_9: "decimal ''9'' = Inr 9" "decimal ''0'' = Inr 0" "decimal ''1'' = Inr 1"
proof -
  have "nat_str 9 = ''9''" "nat_str 0 = ''0''" "nat_str 1 = ''1''" by code_simp+
  then show "decimal ''9'' = Inr 9" "decimal ''0'' = Inr 0" "decimal ''1'' = Inr 1"
    using decimal_nat_str[of 9] decimal_nat_str[of 0] decimal_nat_str[of 1] by simp_all
qed

lemma count_text_small: "count_text [] = ''0''" "count_text [r] = ''1''"
proof -
  have "nat_str 0 = ''0''" "nat_str 1 = ''1''" by code_simp+
  then show "count_text [] = ''0''" "count_text [r] = ''1''" by (simp_all add: count_text_def)
qed

lemmas row_defs = step_rows_def real_summary_rows_def is_metric_row_def is_true_def fld_def
  summary_metric_def has_metric_def field_decimal_def

lemma reorder_dashboard_ex:
  assumes "prev = [] \<or> prev = [(''rows'', [Map.empty])]"
  shows "\<exists>d. build_dashboard StockReorder p cp [] prev = Inr d"
proof -
  have r: "rounded 4 0 = 0" by (simp add: rounded_def floor_eq_iff)
  have f: "decimal (float_string 4 0) = Inr 0"
    using float_string_decimal[of 4 0] r by (simp add: float_string_def nat_str.simps[of 0])
  obtain def where d: "definition_for StockReorder = Some def"
    using definition_for_iff[of StockReorder] by (auto simp: keys_eq)
  have s: "\<exists>s. summarize StockReorder steps = Inr s \<and>
      sum_metrics s = [''reorder_item_count'' \<mapsto> c, ''shortage_qty'' \<mapsto> float_string 4 0]"
    if "steps = [] \<and> c = ''0'' \<or> steps = [(''rows'', [Map.empty])] \<and> c = ''1''" for steps c
    using that d by (auto simp: summarize_def summarize_parts_def summarize_stock_reorder_def row_defs
        summary_metric_or_def count_text_small Let_def)
  obtain s1 where s1: "summarize StockReorder [] = Inr s1"
    "sum_metrics s1 = [''reorder_item_count'' \<mapsto> ''0'', ''shortage_qty'' \<mapsto> float_string 4 0]"
    using s[of "[]" "''0''"] by auto
  obtain s2 c where s2: "summarize StockReorder prev = Inr s2" "c = ''0'' \<or> c = ''1''"
    "sum_metrics s2 = [''reorder_item_count'' \<mapsto> c, ''shortage_qty'' \<mapsto> float_string 4 0]"
    using s[of prev "''0''"] s[of prev "''1''"] assms by auto
  have v: "build_dashboard_visualizations StockReorder p cp [] prev = Inr []"
    by (simp add: build_dashboard_visualizations_def build_reorder_exceptions_def build_ranking_def
        step_rows_def rows_for_summary_kind_def real_summary_rows_def ranking_items_def
        compact_visualizations_def empty_visualization_def Let_def)
  show ?thesis
    using d s1 s2 v
    by (auto simp: build_dashboard_def build_dashboard_metrics_def mk_input_def build_kpis_def
        new_dashboard_metric_def decimal_9 f Let_def)
qed

theorem unsupported_comparison_hides_previous_witness:
  "\<exists>d. build_dashboard StockReorder (mk_period AsOfRun 739689 739689) (mk_period Custom 739688 739688) [] [] = Inr d
     \<and> build_dashboard StockReorder (mk_period AsOfRun 739689 739689) (mk_period Custom 739688 739688) []
         [(''rows'', [Map.empty])] = Inr d"
proof -
  let ?p = "mk_period AsOfRun 739689 739689" and ?c = "mk_period Custom 739688 739688"
  obtain d where d: "build_dashboard StockReorder ?p ?c [] [] = Inr d"
    using reorder_dashboard_ex[of "[]"] by blast
  obtain d' where d': "build_dashboard StockReorder ?p ?c [] [(''rows'', [Map.empty])] = Inr d'"
    using reorder_dashboard_ex[of "[(''rows'', [Map.empty])]"] by blast
  have "\<not> comparison_supported StockReorder ?p" by (simp add: comparison_supported_def)
  from unsupported_comparison_hides_previous[OF this d d'] d d' show ?thesis by blast
qed

theorem gross_profit_is_sum_of_rows_witness:
  "\<exists>s. summarize GrossProfitByProduct [(''rows'', [[''amount_sale'' \<mapsto> ''9'']])] = Inr s
     \<and> sum_metrics s ''gross_profit_amount'' = Some (money 9)"
proof -
  let ?steps = "[(''rows'', [[''amount_sale'' \<mapsto> ''9'']])] :: steps"
  have none: "summary_metric ?steps m = None" for m
    by (simp add: summary_metric_def has_metric_def)
  obtain s where s: "summarize GrossProfitByProduct ?steps = Inr s"
    by (auto simp: summarize_def definition_for_None keys_eq summarize_parts_def summarize_gross_profit_def
        summary_decimal_or_def none row_defs decimal_9 Let_def)
  from gross_profit_is_sum_of_rows[OF _ s none] obtain xs where
    "list_all2 (\<lambda>r x. gross_profit_for_row r = Inr x) (real_summary_rows (step_rows ?steps ''rows'')) xs"
    "sum_metrics s ''gross_profit_amount'' = Some (money (sum_list xs))" by auto
  with s show ?thesis
    by (auto simp: row_defs list_all2_Cons1 gross_profit_for_row_def raw_decimal_def decimal_9)
qed

theorem net_movement_is_debit_minus_credit_witness:
  "\<exists>s debit credit. summarize ARCustomerMovement [(''rows'', [[''amount'' \<mapsto> ''9'']])] = Inr s
     \<and> movement_totals_from_summary s [[''amount'' \<mapsto> ''9'']] = Inr (debit, credit)
     \<and> sum_metrics s ''net_movement_amount'' = Some (money (debit - credit))"
proof -
  let ?steps = "[(''rows'', [[''amount'' \<mapsto> ''9'']])] :: steps"
  have none: "summary_metric ?steps ''customer_count'' = None"
    by (simp add: summary_metric_def has_metric_def)
  have rows: "step_rows ?steps ''rows'' = [[''amount'' \<mapsto> ''9'']]" by (simp add: step_rows_def)
  obtain s where s: "summarize ARCustomerMovement ?steps = Inr s"
    by (auto simp: summarize_def definition_for_None keys_eq summarize_parts_def
        summarize_customer_movement_def none rows fld_def is_credit_def field_decimal_def decimal_9 Let_def)
  have "list_all (\<lambda>r. \<not> is_metric_row r) (step_rows ?steps ''rows'')"
    by (simp add: rows is_metric_row_def is_true_def fld_def)
  from net_movement_is_debit_minus_credit[OF s none this] s rows show ?thesis by auto
qed

theorem stock_in_out_never_from_rows_witness:
  "\<exists>s. summarize StockBalance [(''rows'', [[''amount_in'' \<mapsto> ''9'']])] = Inr s
     \<and> metric_or_sum s ''amount_in'' [[''amount_in'' \<mapsto> ''9'']] ''amount_in'' = Inr 0"
proof -
  let ?steps = "[(''rows'', [[''amount_in'' \<mapsto> ''9'']])] :: steps"
  have none: "summary_metric ?steps m = None" for m
    by (simp add: summary_metric_def has_metric_def)
  obtain s where s: "summarize StockBalance ?steps = Inr s"
    by (auto simp: summarize_def definition_for_None keys_eq summarize_parts_def summarize_stock_balance_def
        summary_decimal_or_def none row_defs decimal_9 Let_def)
  from stock_in_out_never_from_rows[OF s none] s show ?thesis by blast
qed

end
