(* ===== verification/Chunks.thy ===== *)
theory Chunks
  imports Dashboard
begin

text \<open>
  Chunked execution of the two heavy reports: the unit keys of the manifest and their split into
  chunks (report/heavy_chunk.go, worker/report_worker.go), and the merge of the chunk results into
  one result.  Each chunk is a steps map like the result of a direct query.  SHA-256 is a
  parameter: digest stands for the first eight bytes of the hash in hexadecimal.
\<close>

section \<open>The manifest\<close>

definition default_stock_chunk_size :: nat where "default_stock_chunk_size = 500"
definition default_ar_chunk_size :: nat where "default_ar_chunk_size = 300"
definition minimum_chunk_size :: nat where "minimum_chunk_size = 50"

datatype chunk_error = NotChunkSafe key | UnitKeyTooLong | EmptyChunksUnsupported key
  | SummaryChunksUnsupported key | ChunkMetricMissing string | ChunkField summary_error

text \<open>The chunk size BuildChunkManifestQuery returns beside the query text.\<close>

definition manifest_chunk_size :: "key \<Rightarrow> chunk_error + nat" where
  "manifest_chunk_size k = (case k of
     StockBalance \<Rightarrow> Inr default_stock_chunk_size
   | ARCustomerMovement \<Rightarrow> Inr default_ar_chunk_size
   | _ \<Rightarrow> Inl (NotChunkSafe k))"

text \<open>The loop keeps the keys seen so far as a set; the first long new key is an error.\<close>

fun collect_keys :: "row list \<Rightarrow> string list \<Rightarrow> chunk_error + string list" where
  "collect_keys [] ukeys = Inr ukeys"
| "collect_keys (r # rows) ukeys = (let k = fld r ''unit_key'' in
     if k \<in> set ukeys then collect_keys rows ukeys
     else if length k > 512 then Inl UnitKeyTooLong
     else collect_keys rows (ukeys @ [k]))"

definition chunk_keys :: "row list \<Rightarrow> chunk_error + string list" where
  "chunk_keys rows = bindr (collect_keys rows []) (\<lambda>ukeys. Inr (sort_by (<) ukeys))"

definition join_nul :: "string list \<Rightarrow> string" where
  "join_nul ukeys = (case ukeys of [] \<Rightarrow> [] | k # ks \<Rightarrow> k @ concat (map (\<lambda>s. CHR 0x00 # s) ks))"

definition chunk_key :: "(string \<Rightarrow> string) \<Rightarrow> nat \<Rightarrow> string list \<Rightarrow> string" where
  "chunk_key digest index ukeys = pad0 6 (index + 1) @ '':'' @ digest (join_nul ukeys)"

record chunk_manifest =
  cm_number :: nat
  cm_key :: string
  cm_cursor_from :: string
  cm_cursor_to :: string
  cm_unit_keys :: "string list"

text \<open>The split loop; done counts the manifests made so far.  The chunk size is positive.\<close>

function split_manifests :: "(string \<Rightarrow> string) \<Rightarrow> nat \<Rightarrow> nat \<Rightarrow> string list \<Rightarrow> chunk_manifest list" where
  "split_manifests digest sz done ukeys = (
     if ukeys = [] \<or> sz = 0 then []
     else (let ks = take sz ukeys in
       \<lparr>cm_number = done + 1, cm_key = chunk_key digest done ks, cm_cursor_from = hd ks,
        cm_cursor_to = last ks, cm_unit_keys = ks\<rparr>
       # split_manifests digest sz (done + 1) (drop sz ukeys)))"
  by pat_completeness auto
termination
  by (relation "measure (\<lambda>(digest, sz, done, ukeys). length ukeys)") auto

declare split_manifests.simps [simp del]

definition build_manifests :: "(string \<Rightarrow> string) \<Rightarrow> nat \<Rightarrow> string list \<Rightarrow> chunk_manifest list" where
  "build_manifests digest chunk_size ukeys =
     split_manifests digest (if chunk_size < minimum_chunk_size then minimum_chunk_size else chunk_size) 0 ukeys"

section \<open>Merging\<close>

definition attach_chunk_metrics :: "row list \<Rightarrow> (string \<times> string) list \<Rightarrow> row list" where
  "attach_chunk_metrics rows metrics = map (\<lambda>r. fold (\<lambda>(k, v) m. m(''_metric_'' @ k \<mapsto> v)) metrics r)
     (if rows = [] then [[''_summary_metric_row'' \<mapsto> ''true'']] else rows)"

definition dropped_column :: "string \<Rightarrow> bool" where
  "dropped_column k \<longleftrightarrow> starts_with ''_metric_'' k \<or> k = ''_summary_metric_row'' \<or> k = ''balance_rank''
     \<or> k = ''movement_rank'' \<or> k = ''gain_rank'' \<or> k = ''loss_rank''"

definition copy_row :: "row \<Rightarrow> row" where
  "copy_row r = (\<lambda>k. if dropped_column k then None else r k)"

definition chunk_metric :: "string \<Rightarrow> steps \<Rightarrow> chunk_error + rat" where
  "chunk_metric k chunk = (case summary_metric chunk k of
     None \<Rightarrow> Inl (ChunkMetricMissing k)
   | Some v \<Rightarrow> (case field_decimal (''_metric_'' @ k) v of Inl e \<Rightarrow> Inl (ChunkField e) | Inr x \<Rightarrow> Inr x))"

definition is_count_metric :: "string \<Rightarrow> bool" where
  "is_count_metric k \<longleftrightarrow> k = ''item_count'' \<or> k = ''customer_count'' \<or> k = ''row_count''"

definition metric_text :: "string \<Rightarrow> rat \<Rightarrow> string" where
  "metric_text k x = (if is_count_metric k then integer_text (float_string 0 x) else float_string 4 x)"

text \<open>totals is kept in the order of the keys.\<close>

fun add_chunks :: "string list \<Rightarrow> steps list \<Rightarrow> rat list \<Rightarrow> row list \<Rightarrow> chunk_error + (rat list \<times> row list)" where
  "add_chunks ukeys [] totals rows = Inr (totals, rows)"
| "add_chunks ukeys (c # chunks) totals rows = bindr (map_res (\<lambda>k. chunk_metric k c) ukeys) (\<lambda>xs.
     add_chunks ukeys chunks (map2 (+) totals xs)
       (rows @ map copy_row (real_summary_rows (step_rows c ''rows''))))"

definition merge_chunk_metrics :: "steps list \<Rightarrow> string list \<Rightarrow> chunk_error + ((string \<times> string) list \<times> row list)" where
  "merge_chunk_metrics chunks ukeys = bindr (add_chunks ukeys chunks (map (\<lambda>_. 0) ukeys) []) (\<lambda>(totals, rows).
     Inr (map2 (\<lambda>k x. (k, metric_text k x)) ukeys totals, rows))"

definition compare_rank :: "rat \<Rightarrow> rat \<Rightarrow> string \<Rightarrow> string \<Rightarrow> bool" where
  "compare_rank l r lk rk = (if l \<noteq> r then l > r else lk < rk)"

definition chunk_field :: "row \<Rightarrow> string \<Rightarrow> chunk_error + rat" where
  "chunk_field r f = (case field_decimal f (fld r f) of Inl e \<Rightarrow> Inl (ChunkField e) | Inr x \<Rightarrow> Inr x)"

record ranked_stock =
  rs_row :: row
  rs_balance :: rat
  rs_movement :: rat

definition rank_stock :: "row \<Rightarrow> chunk_error + ranked_stock" where
  "rank_stock r = bindr (chunk_field r ''balance_amount'') (\<lambda>b.
     bindr (chunk_field r ''amount_in'') (\<lambda>i.
     bindr (chunk_field r ''amount_out'') (\<lambda>out.
     Inr \<lparr>rs_row = r, rs_balance = \<bar>b\<bar>, rs_movement = \<bar>i\<bar> + \<bar>out\<bar>\<rparr>)))"

definition row_code :: "row \<Rightarrow> string" where "row_code r = fld r ''ic_code''"

text \<open>selected[code] = row on the association list of the map.\<close>

fun select_row :: "row \<Rightarrow> row list \<Rightarrow> row list" where
  "select_row r [] = [r]"
| "select_row r (s # rows) = (if row_code s = row_code r then r # rows else s # select_row r rows)"

definition stock_less :: "(ranked_stock \<Rightarrow> rat) \<Rightarrow> ranked_stock \<Rightarrow> ranked_stock \<Rightarrow> bool" where
  "stock_less f a b = compare_rank (f a) (f b) (row_code (rs_row a)) (row_code (rs_row b))"

definition select_stock :: "ranked_stock list \<Rightarrow> row list" where
  "select_stock ranked = (
     let by_balance = sort_by (stock_less rs_balance) ranked;
         by_movement = sort_by (stock_less rs_movement) by_balance;
         selected = fold (\<lambda>i. select_row (rs_row i)) (take 10 by_movement)
                      (fold (\<lambda>i. select_row (rs_row i)) (take 10 by_balance) [])
     in sort_by (\<lambda>a b. row_code a < row_code b) selected)"

definition stock_metric_keys :: "string list" where
  "stock_metric_keys = [''item_count'', ''balance_amount'', ''amount_in'', ''amount_out'', ''row_count'']"

definition ar_metric_keys :: "string list" where
  "ar_metric_keys = [''customer_count'', ''net_movement_amount'', ''debit_amount'', ''credit_amount'', ''row_count'']"

definition merge_stock_summary_chunks :: "steps list \<Rightarrow> chunk_error + steps" where
  "merge_stock_summary_chunks chunks = bindr (merge_chunk_metrics chunks stock_metric_keys) (\<lambda>(metrics, rows).
     bindr (map_res rank_stock rows) (\<lambda>ranked.
     Inr [(''rows'', attach_chunk_metrics (select_stock ranked) metrics)]))"

record chunk_customer =
  cc_code :: string
  cc_name :: string
  cc_debit :: rat
  cc_credit :: rat

definition customer_add :: "row \<Rightarrow> rat \<Rightarrow> chunk_customer list \<Rightarrow> chunk_customer list" where
  "customer_add r x items = (
     let code = fld r ''cust_code'';
         add = (\<lambda>c. if is_credit r then c\<lparr>cc_credit := cc_credit c + x\<rparr> else c\<lparr>cc_debit := cc_debit c + x\<rparr>)
     in if list_ex (\<lambda>c. cc_code c = code) items
        then map (\<lambda>c. if cc_code c = code then add c else c) items
        else items @ [add \<lparr>cc_code = code, cc_name = fld r ''cust_name'', cc_debit = 0, cc_credit = 0\<rparr>])"

fun group_customers :: "row list \<Rightarrow> chunk_customer list \<Rightarrow> chunk_error + chunk_customer list" where
  "group_customers [] items = Inr items"
| "group_customers (r # rows) items = bindr (chunk_field r ''amount'') (\<lambda>x.
     group_customers rows (customer_add r x items))"

definition customer_less :: "chunk_customer \<Rightarrow> chunk_customer \<Rightarrow> bool" where
  "customer_less a b = compare_rank \<bar>cc_debit a - cc_credit a\<bar> \<bar>cc_debit b - cc_credit b\<bar> (cc_code a) (cc_code b)"

definition customer_rows :: "chunk_customer \<Rightarrow> row list" where
  "customer_rows c = [
     [''cust_code'' \<mapsto> cc_code c, ''cust_name'' \<mapsto> cc_name c, ''doc_sort'' \<mapsto> ''1'', ''amount'' \<mapsto> float_string 4 (cc_debit c)],
     [''cust_code'' \<mapsto> cc_code c, ''cust_name'' \<mapsto> cc_name c, ''doc_sort'' \<mapsto> ''2'', ''amount'' \<mapsto> float_string 4 (cc_credit c)]]"

definition merge_ar_summary_chunks :: "steps list \<Rightarrow> chunk_error + steps" where
  "merge_ar_summary_chunks chunks = bindr (merge_chunk_metrics chunks ar_metric_keys) (\<lambda>(metrics, rows).
     bindr (group_customers rows []) (\<lambda>customers.
     Inr [(''rows'', attach_chunk_metrics
        (concat (map customer_rows (take 10 (sort_by customer_less customers)))) metrics)]))"

definition zero_metrics :: "string list \<Rightarrow> (string \<times> string) list" where
  "zero_metrics ukeys = map (\<lambda>k. (k, ''0'')) ukeys"

definition merge_chunked_steps :: "key \<Rightarrow> result_kind \<Rightarrow> steps list \<Rightarrow> chunk_error + steps" where
  "merge_chunked_steps k projection chunks = (
     if chunks = [] then
       (if projection = ResultDetail then Inr [(''rows'', [])]
        else (case k of
            StockBalance \<Rightarrow> Inr [(''rows'', attach_chunk_metrics [] (zero_metrics stock_metric_keys))]
          | ARCustomerMovement \<Rightarrow> Inr [(''rows'', attach_chunk_metrics [] (zero_metrics ar_metric_keys))]
          | _ \<Rightarrow> Inl (EmptyChunksUnsupported k)))
     else if projection = ResultDetail then Inr [(''rows'', concat (map (\<lambda>c. step_rows c ''rows'') chunks))]
     else (case k of
         StockBalance \<Rightarrow> merge_stock_summary_chunks chunks
       | ARCustomerMovement \<Rightarrow> merge_ar_summary_chunks chunks
       | _ \<Rightarrow> Inl (SummaryChunksUnsupported k)))"

section \<open>The split\<close>

definition mk_manifest :: "(string \<Rightarrow> string) \<Rightarrow> nat \<Rightarrow> string list \<Rightarrow> chunk_manifest" where
  "mk_manifest digest n ks = \<lparr>cm_number = n + 1, cm_key = chunk_key digest n ks, cm_cursor_from = hd ks,
     cm_cursor_to = last ks, cm_unit_keys = ks\<rparr>"

lemma mk_manifest_simps [simp]:
  "cm_unit_keys (mk_manifest digest n ks) = ks" "cm_number (mk_manifest digest n ks) = n + 1"
  "cm_cursor_from (mk_manifest digest n ks) = hd ks" "cm_cursor_to (mk_manifest digest n ks) = last ks"
  by (simp_all add: mk_manifest_def)

lemma split_Nil [simp]: "split_manifests digest sz n [] = []"
  by (simp add: split_manifests.simps)

lemma split_step: "ukeys \<noteq> [] \<Longrightarrow> 0 < sz \<Longrightarrow> split_manifests digest sz n ukeys =
    mk_manifest digest n (take sz ukeys) # split_manifests digest sz (n + 1) (drop sz ukeys)"
  by (subst split_manifests.simps) (simp add: mk_manifest_def Let_def)

text \<open>Induction over the chunks of a list.\<close>

lemma chunk_induct [consumes 1, case_names Nil Chunk]:
  assumes "0 < sz" "\<And>n. P n []"
    "\<And>n ks. ks \<noteq> [] \<Longrightarrow> P (n + 1) (drop sz ks) \<Longrightarrow> P n ks"
  shows "P (n::nat) (ks :: string list)"
proof (induction "length ks" arbitrary: n ks rule: less_induct)
  case less
  show ?case
  proof (cases "ks = []")
    case False
    then have "length (drop sz ks) < length ks" using assms(1) by simp
    then have "P (n + 1) (drop sz ks)" by (rule less)
    with False show ?thesis by (rule assms(3))
  qed (simp add: assms(2))
qed

lemma split_units:
  assumes "0 < sz" shows "concat (map cm_unit_keys (split_manifests digest sz n ukeys)) = ukeys"
  using assms by (induction n ukeys rule: chunk_induct) (simp_all add: split_step assms)

lemma split_each:
  assumes "0 < sz"
  shows "list_all (\<lambda>m. cm_unit_keys m \<noteq> [] \<and> length (cm_unit_keys m) \<le> sz
    \<and> cm_cursor_from m = hd (cm_unit_keys m) \<and> cm_cursor_to m = last (cm_unit_keys m))
    (split_manifests digest sz n ukeys)"
  using assms by (induction n ukeys rule: chunk_induct) (simp_all add: split_step assms)

lemma split_numbers:
  assumes "0 < sz"
  shows "map cm_number (split_manifests digest sz n ukeys) =
    [n + 1..<n + 1 + length (split_manifests digest sz n ukeys)]"
  using assms by (induction n ukeys rule: chunk_induct) (simp_all add: split_step assms upt_conv_Cons del: upt_Suc)

lemma split_full:
  assumes "0 < sz" "i + 1 < length (split_manifests digest sz n ukeys)"
  shows "length (cm_unit_keys (split_manifests digest sz n ukeys ! i)) = sz"
  using assms
proof (induction n ukeys arbitrary: i rule: chunk_induct)
  case (Chunk n ks)
  note step = split_step[OF Chunk.hyps(1) assms(1), of digest n]
  show ?case
  proof (cases i)
    case 0
    with Chunk.prems step have "split_manifests digest sz (n + 1) (drop sz ks) \<noteq> []" by auto
    then have "drop sz ks \<noteq> []" by auto
    with 0 step show ?thesis by simp
  next
    case (Suc j)
    with Chunk step show ?thesis by simp
  qed
qed simp

lemma collect_keys_Inr:
  "collect_keys rows ukeys = Inr ks \<Longrightarrow> distinct ukeys \<Longrightarrow>
   distinct ks \<and> set ks = set ukeys \<union> (\<lambda>r. fld r ''unit_key'') ` set rows"
  by (induction rows ukeys rule: collect_keys.induct) (auto simp: Let_def split: if_splits)

lemma string_less_weak: "weak_order ((<) :: string \<Rightarrow> string \<Rightarrow> bool)"
  by (rule weak_orderI) auto

lemma chunk_keys_Inr:
  assumes "chunk_keys rows = Inr ukeys"
  shows "distinct ukeys" "set ukeys = (\<lambda>r. fld r ''unit_key'') ` set rows" "sorted ukeys"
proof -
  obtain ks where ks: "collect_keys rows [] = Inr ks" "ukeys = sort_by (<) ks"
    using assms by (auto simp: chunk_keys_def)
  from collect_keys_Inr[OF ks(1)] ks(2)
  show "distinct ukeys" "set ukeys = (\<lambda>r. fld r ''unit_key'') ` set rows" by simp_all
  show "sorted ukeys"
    using sorted_sort_by[OF string_less_weak, of ks] ks(2) by (simp add: not_less)
qed

section \<open>Merged metrics\<close>

lemma starts_with_metric [simp]: "starts_with ''_metric_'' (''_metric_'' @ k)"
  by (simp add: starts_with_def)

lemma fold_update_other:
  "c \<notin> f ` fst ` set ms \<Longrightarrow> fold (\<lambda>(k, v) m. m(f k \<mapsto> v)) ms r c = r c"
  by (induction ms arbitrary: r) auto

lemma fold_update_in:
  "inj f \<Longrightarrow> distinct (map fst ms) \<Longrightarrow> (k, v) \<in> set ms \<Longrightarrow> fold (\<lambda>(k, v) m. m(f k \<mapsto> v)) ms r (f k) = Some v"
proof (induction ms arbitrary: r)
  case (Cons p ms)
  show ?case
  proof (cases "(k, v) = p")
    case True
    have "f k \<notin> f ` fst ` set ms"
      using Cons.prems(1,2) by (simp add: inj_image_mem_iff flip: True)
    then have "fold (\<lambda>(k, v) m. m(f k \<mapsto> v)) ms (r(f k \<mapsto> v)) (f k) = (r(f k \<mapsto> v)) (f k)"
      by (rule fold_update_other)
    then show ?thesis
      by (simp only: True[symmetric] fold.simps comp_apply prod.case fun_upd_same)
  next
    case False
    with Cons show ?thesis by (cases p) auto
  qed
qed simp

lemma fold_metrics_in:
  "distinct (map fst ms) \<Longrightarrow> (k, v) \<in> set ms \<Longrightarrow>
   fold (\<lambda>(k, v) m. m(''_metric_'' @ k \<mapsto> v)) ms r (''_metric_'' @ k) = Some v"
  by (rule fold_update_in[of "(@) ''_metric_''"]) (auto simp: inj_def)

lemma attach_nonempty: "attach_chunk_metrics rows ms \<noteq> []"
  by (simp add: attach_chunk_metrics_def)

text \<open>Reading a metric back from the merged result.\<close>

lemma attach_summary_metric:
  assumes "distinct (map fst ms)" "(k, v) \<in> set ms" "v \<noteq> ''''"
  shows "summary_metric [(''rows'', attach_chunk_metrics rows ms)] k = Some v"
proof -
  let ?f = "\<lambda>r. fold (\<lambda>(k, v) m. m(''_metric_'' @ k \<mapsto> v)) ms r"
  have f: "?f r (''_metric_'' @ k) = Some v" for r
    by (rule fold_metrics_in[OF assms(1,2)])
  define s where "s = (if rows = [] then [[''_summary_metric_row'' \<mapsto> ''true'']] else rows)"
  have a: "attach_chunk_metrics rows ms = map ?f s" "s \<noteq> []"
    by (simp_all only: attach_chunk_metrics_def s_def) simp
  have "filter (has_metric k) (map ?f s) = map ?f s"
    using f assms(3) by (auto simp: has_metric_def filter_id_conv)
  then show ?thesis
    using a f by (cases s) (simp_all add: summary_metric_def)
qed

lemma float_string_nonempty [simp]: "float_string p x \<noteq> ''''"
  by (simp add: float_string_def Let_def)

lemma int_str_nonempty [simp]: "int_str i \<noteq> ''''"
  by (simp add: int_str_def)

lemma metric_text_nonempty: "metric_text k x \<noteq> ''''"
  by (auto simp: metric_text_def integer_text_def split: sum.splits)

text \<open>The values one metric has in the chunks, in order.\<close>

definition chunk_values :: "string \<Rightarrow> steps list \<Rightarrow> rat list \<Rightarrow> bool" where
  "chunk_values k chunks xs \<longleftrightarrow> list_all2 (\<lambda>c x. chunk_metric k c = Inr x) chunks xs"

lemma add_chunks_totals:
  assumes "add_chunks ukeys chunks totals rows = Inr (totals', rows')" "length totals = length ukeys"
    and "i < length ukeys"
  shows "length totals' = length ukeys \<and>
    (\<exists>xs. chunk_values (ukeys ! i) chunks xs \<and> totals' ! i = totals ! i + sum_list xs)"
  using assms(1,2)
proof (induction chunks arbitrary: totals rows)
  case (Cons c chunks)
  then obtain xs where xs: "map_res (\<lambda>k. chunk_metric k c) ukeys = Inr xs"
    and rec: "add_chunks ukeys chunks (map2 (+) totals xs)
       (rows @ map copy_row (real_summary_rows (step_rows c ''rows''))) = Inr (totals', rows')"
    by auto
  have len: "length xs = length ukeys" using xs by (rule map_res_length)
  have xi: "chunk_metric (ukeys ! i) c = Inr (xs ! i)"
    using xs assms(3) by (simp add: map_res_Inr_iff list_all2_conv_all_nth)
  obtain ys where "length totals' = length ukeys" "chunk_values (ukeys ! i) chunks ys"
    "totals' ! i = map2 (+) totals xs ! i + sum_list ys"
    using Cons.IH[OF rec] len Cons.prems(2) by auto
  moreover have "map2 (+) totals xs ! i = totals ! i + xs ! i"
    using len Cons.prems(2) assms(3) by simp
  ultimately show ?case
    using xi by (auto simp: chunk_values_def intro!: exI[of _ "xs ! i # ys"])
qed (auto simp: chunk_values_def)

lemma merge_metrics_value:
  assumes "merge_chunk_metrics chunks ukeys = Inr (ms, rows)" "distinct ukeys" "k \<in> set ukeys"
  shows "distinct (map fst ms) \<and> (\<exists>xs. chunk_values k chunks xs \<and> (k, metric_text k (sum_list xs)) \<in> set ms)"
proof -
  obtain totals where a: "add_chunks ukeys chunks (map (\<lambda>_. 0) ukeys) [] = Inr (totals, rows)"
    and ms: "ms = map2 (\<lambda>k x. (k, metric_text k x)) ukeys totals"
    using assms(1) by (auto simp: merge_chunk_metrics_def)
  obtain i where i: "i < length ukeys" "ukeys ! i = k" using assms(3) by (auto simp: in_set_conv_nth)
  from add_chunks_totals[OF a _ i(1)] i obtain xs where len: "length totals = length ukeys"
    and xs: "chunk_values k chunks xs" "totals ! i = sum_list xs" by auto
  have "map fst ms = ukeys" using len by (simp add: ms comp_def case_prod_unfold)
  moreover have "ms ! i = (k, metric_text k (sum_list xs))" "i < length ms"
    using i len xs(2) by (simp_all add: ms)
  ultimately show ?thesis using assms(2) xs(1) by (metis nth_mem)
qed

lemma select_row_codes: "row_code ` set (select_row r rows) = insert (row_code r) (row_code ` set rows)"
  by (induction rows) auto

lemma select_row_distinct: "distinct (map row_code rows) \<Longrightarrow> distinct (map row_code (select_row r rows))"
proof (induction rows)
  case (Cons s rows)
  then show ?case using select_row_codes[of r rows] by auto
qed simp

lemma select_row_length: "length (select_row r rows) \<le> Suc (length rows)"
  by (induction rows) auto

lemma fold_select_length: "length (fold (\<lambda>i. select_row (rs_row i)) xs rows) \<le> length xs + length rows"
proof (induction xs arbitrary: rows)
  case (Cons x xs)
  have "length (fold (\<lambda>i. select_row (rs_row i)) xs (select_row (rs_row x) rows))
      \<le> length xs + length (select_row (rs_row x) rows)" by (rule Cons.IH)
  also have "... \<le> length xs + Suc (length rows)" using select_row_length by simp
  finally show ?case by simp
qed simp

lemma fold_select_distinct:
  "distinct (map row_code rows) \<Longrightarrow> distinct (map row_code (fold (\<lambda>i. select_row (rs_row i)) xs rows))"
  by (induction xs arbitrary: rows) (auto simp: select_row_distinct)

lemma select_stock_length: "length (select_stock ranked) \<le> 20"
proof -
  let ?b = "sort_by (stock_less rs_balance) ranked"
  let ?m = "sort_by (stock_less rs_movement) ?b"
  have "length (fold (\<lambda>i. select_row (rs_row i)) (take 10 ?m) (fold (\<lambda>i. select_row (rs_row i)) (take 10 ?b) []))
     \<le> length (take 10 ?m) + length (fold (\<lambda>i. select_row (rs_row i)) (take 10 ?b) [])"
    by (rule fold_select_length)
  also have "... \<le> 10 + (length (take 10 ?b) + length ([] :: row list))"
    by (intro add_mono fold_select_length) simp
  also have "... \<le> 20" by simp
  finally show ?thesis by (simp add: select_stock_def Let_def)
qed

lemma distinct_map_sort_by: "distinct (map f (sort_by lt xs)) = distinct (map f xs)"
  by (metis mset_map mset_sort_by mset_eq_imp_distinct_iff)

lemma select_stock_distinct: "distinct (map row_code (select_stock ranked))"
  by (simp add: select_stock_def Let_def distinct_map_sort_by fold_select_distinct)

section \<open>Properties\<close>

text \<open>C23: the chunks of a manifest partition the unit keys of the report.  The keys are sorted and
  without duplicates, the chunks hold them in that order and nothing else, are numbered from 1,
  never empty, at most as long as the chunk size, and all full but the last.\<close>

theorem manifest_partitions_units:
  assumes "chunk_keys rows = Inr ukeys" "ms = build_manifests digest chunk_size ukeys"
    and "sz = (if chunk_size < minimum_chunk_size then minimum_chunk_size else chunk_size)"
  shows "concat (map cm_unit_keys ms) = ukeys \<and> sorted ukeys \<and> distinct ukeys
    \<and> set ukeys = (\<lambda>r. fld r ''unit_key'') ` set rows
    \<and> map cm_number ms = [1..<1 + length ms]
    \<and> list_all (\<lambda>m. cm_unit_keys m \<noteq> [] \<and> length (cm_unit_keys m) \<le> sz
        \<and> cm_cursor_from m = hd (cm_unit_keys m) \<and> cm_cursor_to m = last (cm_unit_keys m)) ms
    \<and> list_all (\<lambda>m. length (cm_unit_keys m) = sz) (butlast ms)"
proof -
  have sz: "0 < sz" using assms(3) by (auto simp: minimum_chunk_size_def)
  have ms: "ms = split_manifests digest sz 0 ukeys" using assms(2,3) by (simp add: build_manifests_def)
  have "length (cm_unit_keys m) = sz" if "m \<in> set (butlast ms)" for m
  proof -
    from that[unfolded in_set_conv_nth] obtain i where i: "i < length (butlast ms)" "butlast ms ! i = m"
      by blast
    then have "i + 1 < length ms" "ms ! i = m" using nth_butlast[OF i(1)] by simp_all
    with split_full[OF sz, of i digest 0 ukeys] show ?thesis by (simp add: ms)
  qed
  then show ?thesis
    using chunk_keys_Inr[OF assms(1)] split_units[OF sz, of digest 0 ukeys]
      split_each[OF sz, of digest 0 ukeys] split_numbers[OF sz, of digest 0 ukeys]
    by (auto simp: ms list_all_iff)
qed

theorem manifest_partitions_units_witness:
  "concat (map cm_unit_keys (build_manifests id 500 [''A'', ''B''])) = [''A'', ''B'']"
proof -
  have "chunk_keys [[''unit_key'' \<mapsto> ''B''], [''unit_key'' \<mapsto> ''A''], [''unit_key'' \<mapsto> ''B'']] = Inr [''A'', ''B'']"
    by (simp add: chunk_keys_def fld_def)
  from manifest_partitions_units[OF this refl refl, of id 500] show ?thesis by blast
qed

lemma customer_rows_length: "length (concat (map customer_rows (take 10 xs))) \<le> 20"
proof -
  have "length (concat (map customer_rows ys)) = 2 * length ys" for ys
    by (induction ys) (simp_all add: customer_rows_def)
  then show ?thesis by simp
qed

lemma merged_shape:
  assumes "merge_chunked_steps report ResultSummary chunks = Inr merged" "chunks \<noteq> []"
    and "ukeys = (if report = StockBalance then stock_metric_keys else ar_metric_keys)"
  obtains ms rows out where "merge_chunk_metrics chunks ukeys = Inr (ms, rows)"
    "merged = [(''rows'', attach_chunk_metrics out ms)]" "length out \<le> 20"
proof -
  have "report = StockBalance \<or> report = ARCustomerMovement"
    using assms(1,2) by (cases report) (simp_all add: merge_chunked_steps_def)
  then show thesis
  proof
    assume r: "report = StockBalance"
    then obtain ms rows ranked where "merge_chunk_metrics chunks stock_metric_keys = Inr (ms, rows)"
      "merged = [(''rows'', attach_chunk_metrics (select_stock ranked) ms)]"
      using assms(1,2) by (auto simp: merge_chunked_steps_def merge_stock_summary_chunks_def)
    with that r assms(3) select_stock_length show thesis by simp
  next
    assume r: "report = ARCustomerMovement"
    then obtain ms rows customers where "merge_chunk_metrics chunks ar_metric_keys = Inr (ms, rows)"
      "merged = [(''rows'', attach_chunk_metrics
         (concat (map customer_rows (take 10 (sort_by customer_less customers)))) ms)]"
      using assms(1,2) by (auto simp: merge_chunked_steps_def merge_ar_summary_chunks_def)
    with that r assms(3) customer_rows_length show thesis by simp
  qed
qed

text \<open>merging keeps the totals.  Every metric of the merged summary of a chunked report reads
  as the sum of that metric over the chunks, and at most twenty rows are kept.\<close>

theorem merged_metrics_are_sums:
  assumes "merge_chunked_steps report ResultSummary chunks = Inr merged" "chunks \<noteq> []"
    and "k \<in> set (if report = StockBalance then stock_metric_keys else ar_metric_keys)"
  shows "\<exists>xs. list_all2 (\<lambda>c x. chunk_metric k c = Inr x) chunks xs
    \<and> summary_metric merged k = Some (metric_text k (sum_list xs))
    \<and> length (step_rows merged ''rows'') \<le> 20"
proof -
  let ?keys = "if report = StockBalance then stock_metric_keys else ar_metric_keys"
  obtain ms rows result where m: "merge_chunk_metrics chunks ?keys = Inr (ms, rows)"
    and merged: "merged = [(''rows'', attach_chunk_metrics result ms)]" and l: "length result \<le> 20"
    by (rule merged_shape[OF assms(1,2) refl])
  have "distinct ?keys" by (simp add: stock_metric_keys_def ar_metric_keys_def)
  from merge_metrics_value[OF m this assms(3)] obtain xs where
    "chunk_values k chunks xs" "(k, metric_text k (sum_list xs)) \<in> set ms" "distinct (map fst ms)" by blast
  moreover from this have "summary_metric merged k = Some (metric_text k (sum_list xs))"
    unfolding merged by (intro attach_summary_metric) (simp_all add: metric_text_nonempty)
  moreover have "length (step_rows merged ''rows'') \<le> 20"
    using l by (simp add: merged step_rows_def attach_chunk_metrics_def)
  ultimately show ?thesis by (auto simp: chunk_values_def)
qed

theorem merged_metrics_are_sums_witness:
  "\<exists>merged. merge_chunked_steps StockBalance ResultSummary
      (replicate 2 [(''rows'', attach_chunk_metrics [] (map (\<lambda>k. (k, ''9'')) stock_metric_keys))]) = Inr merged
     \<and> summary_metric merged ''balance_amount'' = Some (float_string 4 18)"
proof -
  let ?c = "[(''rows'', attach_chunk_metrics [] (map (\<lambda>k. (k, ''9'')) stock_metric_keys))] :: steps"
  have sm: "summary_metric ?c k = Some ''9''" if "k \<in> set stock_metric_keys" for k
    using that by (intro attach_summary_metric) (auto simp: stock_metric_keys_def)
  have cm: "chunk_metric k ?c = Inr 9" if "k \<in> set stock_metric_keys" for k
    using sm[OF that] by (simp add: chunk_metric_def field_decimal_def decimal_9)
  then have mr: "map_res (\<lambda>k. chunk_metric k ?c) stock_metric_keys = Inr (map (\<lambda>_. 9) stock_metric_keys)"
    by (intro map_res_total) auto
  have rows: "real_summary_rows (step_rows ?c ''rows'') = []"
    by (simp add: step_rows_def attach_chunk_metrics_def real_summary_rows_def is_metric_row_def is_true_def
        fld_def stock_metric_keys_def)
  obtain merged where m: "merge_chunked_steps StockBalance ResultSummary (replicate 2 ?c) = Inr merged"
    by (auto simp: merge_chunked_steps_def merge_stock_summary_chunks_def merge_chunk_metrics_def
        numeral_2_eq_2 mr rows)
  from merged_metrics_are_sums[OF m, of "''balance_amount''"] obtain xs where
    "list_all2 (\<lambda>c x. chunk_metric ''balance_amount'' c = Inr x) (replicate 2 ?c) xs"
    "summary_metric merged ''balance_amount'' = Some (metric_text ''balance_amount'' (sum_list xs))"
    by (auto simp: stock_metric_keys_def)
  with m cm[of "''balance_amount''"] show ?thesis
    by (auto simp: numeral_2_eq_2 list_all2_Cons1 stock_metric_keys_def metric_text_def is_count_metric_def)
qed

end
