(* ===== verification/RunStore.thy ===== *)
theory RunStore
  imports Tables Chunks
begin

text \<open>
  The queue of report runs (database/report_store.go): enqueue, cancel, claim, lease recovery,
  and the operations of a worker on the run it has claimed.  now is the clock the caller passes,
  new ids are arguments, and locked holds the rows other transactions have locked (FOR UPDATE SKIP
  LOCKED passes over them).  A run is read as its row; scanReportRun shows a succeeded run whose
  rows have expired as EXPIRED (run_view).
\<close>

section \<open>Configuration\<close>

definition bounded_env_int :: "string \<Rightarrow> int \<Rightarrow> int \<Rightarrow> int \<Rightarrow> int" where
  "bounded_env_int v fallback minimum maximum = (case atoi v of
     None \<Rightarrow> fallback
   | Some n \<Rightarrow> if n < minimum \<or> n > maximum then fallback else n)"

text \<open>fingerprint stands for report.QueryPlanFingerprint, a hash of the query texts.\<close>

record store_config =
  cfg_global :: int
  cfg_host :: int
  cfg_generation_cache :: bool
  cfg_fingerprint :: "key \<Rightarrow> result_kind \<Rightarrow> string"

definition new_report_store :: "(string \<Rightarrow> string) \<Rightarrow> (key \<Rightarrow> result_kind \<Rightarrow> string) \<Rightarrow> store_config" where
  "new_report_store getenv fingerprint = \<lparr>
     cfg_global = bounded_env_int (getenv ''REPORT_GLOBAL_QUERY_CONCURRENCY'') 4 1 32,
     cfg_host = bounded_env_int (getenv ''REPORT_HOST_QUERY_CONCURRENCY'') 2 1 16,
     cfg_generation_cache = False, cfg_fingerprint = fingerprint\<rparr>"

lemma bounded_env_int_bounds:
  "minimum \<le> fallback \<Longrightarrow> fallback \<le> maximum \<Longrightarrow>
   minimum \<le> bounded_env_int v fallback minimum maximum \<and> bounded_env_int v fallback minimum maximum \<le> maximum"
  by (simp add: bounded_env_int_def split: option.splits)

section \<open>Rows of the queue\<close>

definition is_active :: "run_row \<Rightarrow> bool" where
  "is_active r \<longleftrightarrow> r_status r = StatusClaimed \<or> r_status r = StatusRunning"

definition is_unfinished :: "run_row \<Rightarrow> bool" where
  "is_unfinished r \<longleftrightarrow> r_status r = StatusQueued \<or> is_active r"

definition run_view :: "instant \<Rightarrow> run_row \<Rightarrow> run_row" where
  "run_view now r = (if r_status r = StatusSucceeded \<and> r_expires_at r \<le> now
     then r\<lparr>r_status := StatusExpired\<rparr> else r)"

definition host_of :: "db \<Rightarrow> uuid \<Rightarrow> string option" where
  "host_of db tenant = map_option k_host (find_where (\<lambda>k. k_tenant k = tenant) (db_connections db))"

section \<open>Enqueue\<close>

record enqueue_input =
  in_tenant :: uuid
  in_key :: key
  in_source :: source
  in_idempotency :: string
  in_period :: period
  in_recipient :: "uuid option"
  in_kind :: result_kind
  in_priority :: int
  in_execution_key :: string

definition default_kind :: "enqueue_input \<Rightarrow> result_kind" where
  "default_kind i = (if in_kind i = ResultKindUnset
     then if in_source i = SourceSchedule \<or> in_source i = SourceBackground then ResultSummary else ResultDetail
     else in_kind i)"

definition default_priority :: "enqueue_input \<Rightarrow> int" where
  "default_priority i = (if in_priority i = 0
     then (case in_source i of
         SourceSchedule \<Rightarrow> 100
       | SourceDashboard \<Rightarrow> 90
       | _ \<Rightarrow> (case definition_for (in_key i) of
           None \<Rightarrow> 20
         | Some d \<Rightarrow> if def_refresh_class d = RefreshFast then 30
                    else if def_refresh_class d = RefreshStandard then 25 else 20))
     else in_priority i)"

definition tenant_open :: "db \<Rightarrow> uuid \<Rightarrow> instant \<Rightarrow> bool" where
  "tenant_open db tenant now = opt_rel (\<lambda>t. t_status t = TenantActive \<and> t_access_ends_at t > now)
     (find_where (\<lambda>t. t_id t = tenant) (db_tenants db))"

definition may_read :: "db \<Rightarrow> uuid \<Rightarrow> uuid \<Rightarrow> key \<Rightarrow> bool" where
  "may_read db tenant recipient k \<longleftrightarrow>
     list_ex (\<lambda>p. p_tenant p = tenant \<and> p_recipient p = recipient \<and> p_key p = k) (db_permissions db)
     \<and> list_ex (\<lambda>m. m_tenant m = tenant \<and> m_recipient m = recipient \<and> m_status m = RecipientActive) (db_memberships db)
     \<and> list_ex (\<lambda>u. u_id u = recipient \<and> u_status u = RecipientActive) (db_recipients db)"

text \<open>The duration estimate: the percentiles of at most thirty recent runs of a similar length.\<close>

definition duration_bounds :: "int \<Rightarrow> int \<times> int" where
  "duration_bounds days = (if days \<le> 1 then (1, 1) else if days \<le> 7 then (2, 7)
     else if days \<le> 31 then (8, 31) else if days \<le> 90 then (32, 90) else (91, 366))"

definition period_length :: "period \<Rightarrow> int option" where
  "period_length p = (case (parse_date (date_from p), parse_date (date_to p)) of
     (Some f, Some t) \<Rightarrow> Some (t - f + 1) | _ \<Rightarrow> None)"

definition duration_ms :: "run_row \<Rightarrow> rat option" where
  "duration_ms r = (case (r_started_at r, r_finished_at r) of
     (Some s, Some f) \<Rightarrow> Some (of_int (f - s) / 1000000) | _ \<Rightarrow> None)"

definition percentile_cont :: "rat \<Rightarrow> rat list \<Rightarrow> rat" where
  "percentile_cont p xs = (let ys = sort xs; pos = p * of_nat (length ys - 1);
       lo = nat \<lfloor>pos\<rfloor>; hi = nat \<lceil>pos\<rceil>
     in ys ! lo + (pos - of_nat lo) * (ys ! hi - ys ! lo))"

definition load_duration_estimate :: "db \<Rightarrow> uuid \<Rightarrow> key \<Rightarrow> period \<Rightarrow> int \<times> int \<times> int" where
  "load_duration_estimate db tenant k p = (case (parse_date (date_from p), parse_date (date_to p)) of
     (Some f, Some t) \<Rightarrow> (let (lo, hi) = duration_bounds (days_between f t + 1);
        recent = take 30 (sort_by (\<lambda>a b. coalesce (r_finished_at a) 0 > coalesce (r_finished_at b) 0)
          (filter (\<lambda>r. r_tenant r = tenant \<and> r_key r = k \<and> r_status r = StatusSucceeded
             \<and> duration_ms r \<noteq> None
             \<and> opt_rel (\<lambda>n. lo \<le> n \<and> n \<le> hi) (period_length (r_period r))) (db_runs db)));
        ds = map (\<lambda>r. coalesce (duration_ms r) 0) recent
      in if length ds < 5 then (0, 0, int (length ds))
         else (rat_trunc (percentile_cont (1/2) ds), rat_trunc (percentile_cont (9/10) ds), int (length ds)))
   | _ \<Rightarrow> (0, 0, 0))"

text \<open>The unique indexes an insert into report_runs can run into.\<close>

definition insert_conflict :: "run_row \<Rightarrow> run_row \<Rightarrow> bool" where
  "insert_conflict new r \<longleftrightarrow>
     r_tenant r = r_tenant new \<and>
     (r_source r = r_source new \<and> r_idempotency r = r_idempotency new
      \<or> r_execution_key new \<noteq> None \<and> r_execution_key r = r_execution_key new \<and> is_unfinished r \<and> is_unfinished new \<and>
        (r_source r = SourceBackground \<and> r_source new = SourceBackground
         \<or> r_source r \<in> {SourceDashboard, SourceBackground} \<and> r_source new \<in> {SourceDashboard, SourceBackground}
           \<and> r_kind r = ResultSummary \<and> r_kind new = ResultSummary))"

definition new_run :: "db \<Rightarrow> store_config \<Rightarrow> enqueue_input \<Rightarrow> uuid \<Rightarrow> string \<Rightarrow> instant \<Rightarrow> run_row" where
  "new_run db cfg i new_id version now = (
     let kind = default_kind i;
         (p50, p90, samples) = load_duration_estimate db (in_tenant i) (in_key i) (in_period i)
     in \<lparr> r_id = new_id, r_tenant = in_tenant i, r_key = in_key i, r_source = in_source i, r_kind = kind,
          r_priority = default_priority i,
          r_execution_key = (if in_execution_key i = '''' then None else Some (in_execution_key i)),
          r_idempotency = in_idempotency i, r_status = StatusQueued, r_period = in_period i,
          r_recipient = in_recipient i, r_claimed_by = None, r_claimed_at = None, r_lease = None,
          r_attempt = 0, r_row_count = 0, r_summary = Map.empty, r_reconciliation = Map.empty,
          r_dashboard = None, r_error_code = None, r_error_message = None, r_queued_at = now,
          r_started_at = None, r_finished_at = None, r_source_started_at = None,
          r_source_finished_at = None, r_expires_at = now + 24 * hour, r_created_at = now,
          r_updated_at = now, r_definition_version = version,
          r_data_version = (case find_where (\<lambda>k. k_tenant k = in_tenant i) (db_connections db) of
             None \<Rightarrow> 0 | Some k \<Rightarrow> k_version k),
          r_fingerprint = cfg_fingerprint cfg (in_key i) kind, r_strategy = ExecutionDirect,
          r_consistency = ConsistencyStatement, r_phase = ProgressQueued, r_progress_seq = 0,
          r_completed_steps = 0, r_total_steps = 0, r_progress_updated_at = Some now,
          r_expected_p50 = (if p50 = 0 then None else Some p50),
          r_expected_p90 = (if p90 = 0 then None else Some p90),
          r_sample_count = samples, r_completed_chunks = 0, r_total_chunks = 0 \<rparr>)"

definition active_background :: "db \<Rightarrow> enqueue_input \<Rightarrow> run_row option" where
  "active_background db i = select_first
     (\<lambda>a b. r_queued_at a < r_queued_at b \<or> r_queued_at a = r_queued_at b \<and> r_id a < r_id b)
     (\<lambda>r. r_tenant r = in_tenant i \<and> r_source r = SourceBackground
        \<and> r_execution_key r = Some (in_execution_key i) \<and> is_unfinished r) (db_runs db)"

definition recent_dashboard :: "db \<Rightarrow> enqueue_input \<Rightarrow> instant \<Rightarrow> run_row option" where
  "recent_dashboard db i now = select_first
     (\<lambda>a b. r_created_at a > r_created_at b \<or> r_created_at a = r_created_at b \<and> r_id a > r_id b)
     (\<lambda>r. r_tenant r = in_tenant i \<and> r_source r = SourceDashboard \<and> r_recipient r = in_recipient i
        \<and> r_key r = in_key i \<and> date_from (r_period r) = date_from (in_period i)
        \<and> date_to (r_period r) = date_to (in_period i) \<and> is_unfinished r
        \<and> r_created_at r \<ge> now - 60 * second) (db_runs db)"

text \<open>What the circuit of the tenant says to a dashboard request: an error, or whether this run
  is to be the half-open probe.\<close>

definition circuit_gate :: "db \<Rightarrow> uuid \<Rightarrow> instant \<Rightarrow> run_error + bool" where
  "circuit_gate db tenant now = (case find_where (\<lambda>c. c_tenant c = tenant) (db_circuits db) of
     None \<Rightarrow> Inr False
   | Some c \<Rightarrow> (case c_open_until c of
       None \<Rightarrow> Inr False
     | Some until \<Rightarrow> if until > now then Inl ErrRunCircuitOpen
         else if c_half_open_run c \<noteq> None then Inl ErrRunCircuitOpen else Inr True))"

definition reserve_probe :: "db \<Rightarrow> uuid \<Rightarrow> uuid \<Rightarrow> instant \<Rightarrow> run_error + db" where
  "reserve_probe db tenant run now = (
     let p = (\<lambda>c. c_tenant c = tenant \<and> opt_rel (\<lambda>u. u > now) (c_open_until c) \<and> c_half_open_run c = None)
     in if count_where p (db_circuits db) \<noteq> 1 then Inl ErrRunCircuitOpen
        else Inr (db\<lparr>db_circuits := update_where p
               (\<lambda>c. c\<lparr>c_half_open_run := Some run, c_updated_at := now\<rparr>) (db_circuits db)\<rparr>))"

definition enqueue_new :: "db \<Rightarrow> store_config \<Rightarrow> enqueue_input \<Rightarrow> uuid \<Rightarrow> instant \<Rightarrow> bool
    \<Rightarrow> run_error + (db \<times> run_row)" where
  "enqueue_new db cfg i new_id now probe = (
     case find_where (\<lambda>d. d_key d = in_key i) (db_definitions db) of
       None \<Rightarrow> Inl (ErrRun ''load report execution versions'')
     | Some d \<Rightarrow>
         if cfg_fingerprint cfg (in_key i) (default_kind i) = '''' then Inl ErrRunNotFound
         else (let new = new_run db cfg i new_id (d_version d) now;
                   inserted = \<not> list_ex (insert_conflict new) (db_runs db);
                   created = (if inserted then Some (db\<lparr>db_runs := db_runs db @ [new]\<rparr>, new)
                     else if in_source i = SourceBackground
                     then map_option (\<lambda>r. (db, run_view now r)) (active_background db i) else None)
               in case created of
                    None \<Rightarrow> Inl (ErrRun ''insert report run'')
                  | Some (db', run) \<Rightarrow>
                      if probe then bindr (reserve_probe db' (in_tenant i) (r_id run) now) (\<lambda>db''. Inr (db'', run))
                      else Inr (db', run)))"

definition enqueue :: "db \<Rightarrow> store_config \<Rightarrow> enqueue_input \<Rightarrow> uuid \<Rightarrow> instant \<Rightarrow> run_error + (db \<times> run_row)" where
  "enqueue db cfg i new_id now = (
     if definition_for (in_key i) = None \<or> length (in_idempotency i) < 8 \<or> length (in_idempotency i) > 200
     then Inl ErrRunIdempotencyConflict
     else if in_source i = SourceBackground \<and>
       (in_recipient i \<noteq> None \<or> in_execution_key i = '''' \<or> in_kind i \<noteq> ResultSummary)
     then Inl ErrRunForbidden
     else (let existing = find_where (\<lambda>r. r_tenant r = in_tenant i \<and> r_source r = in_source i
                            \<and> r_idempotency r = in_idempotency i) (db_runs db)
       in if opt_rel (\<lambda>r. r_key r \<noteq> in_key i \<or> r_period r \<noteq> in_period i) existing
          then Inl ErrRunIdempotencyConflict
       else if \<not> tenant_open db (in_tenant i) now then Inl ErrRunNotFound
       else if in_source i = SourceDashboard \<and>
         \<not> opt_rel (\<lambda>u. may_read db (in_tenant i) u (in_key i)) (in_recipient i)
       then Inl ErrRunForbidden
       else (case existing of Some r \<Rightarrow> Inr (db, run_view now r)
       | None \<Rightarrow>
         bindr (if in_source i = SourceDashboard then circuit_gate db (in_tenant i) now else Inr False) (\<lambda>probe.
         if in_source i = SourceBackground
         then (case active_background db i of
             Some r \<Rightarrow> Inr (db, run_view now r)
           | None \<Rightarrow> if count_where (\<lambda>r. r_tenant r = in_tenant i \<and> r_source r = SourceBackground \<and> is_unfinished r)
                         (db_runs db) \<ge> 10
                     then Inl ErrRunConcurrencyLimit
                     else enqueue_new db cfg i new_id now probe)
         else if in_source i = SourceDashboard
         then (case recent_dashboard db i now of
             Some r \<Rightarrow> Inr (db, run_view now r)
           | None \<Rightarrow> if count_where (\<lambda>r. r_tenant r = in_tenant i \<and> r_source r = SourceDashboard \<and> is_unfinished r)
                         (db_runs db) \<ge> 2
                     then Inl ErrRunConcurrencyLimit
                     else enqueue_new db cfg i new_id now probe)
         else enqueue_new db cfg i new_id now probe))))"

section \<open>Cancel\<close>

definition update_run :: "uuid \<Rightarrow> (run_row \<Rightarrow> bool) \<Rightarrow> (run_row \<Rightarrow> run_row) \<Rightarrow> db \<Rightarrow> db" where
  "update_run rid p f db = db\<lparr>db_runs := update_where (\<lambda>r. r_id r = rid \<and> p r) f (db_runs db)\<rparr>"

definition find_run :: "db \<Rightarrow> uuid \<Rightarrow> run_row option" where
  "find_run db rid = find_where (\<lambda>r. r_id r = rid) (db_runs db)"

definition cancel_run :: "db \<Rightarrow> uuid \<Rightarrow> instant \<Rightarrow> run_error + (db \<times> run_row)" where
  "cancel_run db rid now = (case find_run db rid of
     None \<Rightarrow> Inl ErrRunNotFound
   | Some r \<Rightarrow> (let run = run_view now r in
       if r_status run = StatusCancelled then Inr (db, run)
       else if r_status run \<noteq> StatusQueued then Inl ErrRunNotCancellable
       else (let cancelled = r\<lparr>r_status := StatusCancelled, r_claimed_by := None, r_claimed_at := None,
               r_lease := None, r_finished_at := Some now, r_updated_at := now\<rparr>
             in Inr (update_run rid (\<lambda>_. True) (\<lambda>_. cancelled) db, cancelled))))"

section \<open>Claim\<close>

definition effective_priority :: "instant \<Rightarrow> run_row \<Rightarrow> int" where
  "effective_priority now r = max (r_priority r)
     (min 99 (r_priority r + (now - r_queued_at r) div (600 * second)))"

text \<open>coalesce(last_claimed_at, '-infinity'): None is before every instant.\<close>

definition last_claimed :: "db \<Rightarrow> uuid \<Rightarrow> instant option" where
  "last_claimed db tenant = (case find_where (\<lambda>q. q_tenant q = tenant) (db_runtime db) of
     None \<Rightarrow> None | Some q \<Rightarrow> q_last_claimed_at q)"

fun instant_before :: "instant option \<Rightarrow> instant option \<Rightarrow> bool" where
  "instant_before None None = False"
| "instant_before None (Some _) = True"
| "instant_before (Some _) None = False"
| "instant_before (Some a) (Some b) = (a < b)"

definition claim_before :: "db \<Rightarrow> instant \<Rightarrow> run_row \<Rightarrow> run_row \<Rightarrow> bool" where
  "claim_before db now a b = (
     let pa = effective_priority now a; pb = effective_priority now b;
         la = last_claimed db (r_tenant a); lb = last_claimed db (r_tenant b)
     in if pa \<noteq> pb then pa > pb
        else if la \<noteq> lb then instant_before la lb
        else if r_queued_at a \<noteq> r_queued_at b then r_queued_at a < r_queued_at b
        else r_id a < r_id b)"

definition tenant_circuit_open :: "db \<Rightarrow> uuid \<Rightarrow> instant \<Rightarrow> bool" where
  "tenant_circuit_open db tenant now =
     list_ex (\<lambda>c. c_tenant c = tenant \<and> opt_rel (\<lambda>u. u > now) (c_open_until c)) (db_circuits db)"

definition host_circuit_open :: "db \<Rightarrow> uuid \<Rightarrow> instant \<Rightarrow> bool" where
  "host_circuit_open db tenant now = opt_rel (\<lambda>h.
     list_ex (\<lambda>c. h_host c = h \<and> opt_rel (\<lambda>u. u > now) (h_open_until c)) (db_host_circuits db)) (host_of db tenant)"

definition host_active_count :: "db \<Rightarrow> uuid \<Rightarrow> nat" where
  "host_active_count db tenant = (case host_of db tenant of
     None \<Rightarrow> 0
   | Some h \<Rightarrow> count_where (\<lambda>a. is_active a \<and> host_of db (r_tenant a) = Some h) (db_runs db))"

text \<open>A heavy interactive run waits when a schedule on the same host is due soon.\<close>

definition schedule_due_soon :: "db \<Rightarrow> run_row \<Rightarrow> instant \<Rightarrow> bool" where
  "schedule_due_soon db r now = (
     let window = max 300 (min 900 (coalesce (r_expected_p90 r) 0 div 1000 + 60)) * second
     in list_ex (\<lambda>s. s_status s = ScheduleActive \<and> opt_rel (\<lambda>t. now \<le> t \<and> t \<le> now + window) (s_next_run_at s)
          \<and> host_of db (s_tenant s) \<noteq> None \<and> host_of db (s_tenant s) = host_of db (r_tenant r)) (db_schedules db))"

definition claimable :: "store_config \<Rightarrow> db \<Rightarrow> instant \<Rightarrow> run_row \<Rightarrow> bool" where
  "claimable cfg db now r \<longleftrightarrow>
     r_status r = StatusQueued \<and> r_queued_at r \<le> now
     \<and> \<not> tenant_circuit_open db (r_tenant r) now
     \<and> int (count_where is_active (db_runs db)) < cfg_global cfg
     \<and> (r_source r = SourceSchedule
        \<or> int (count_where (\<lambda>a. is_active a \<and> r_source a \<noteq> SourceSchedule) (db_runs db)) < max 1 (cfg_global cfg - 1))
     \<and> \<not> list_ex (\<lambda>a. r_tenant a = r_tenant r \<and> r_id a \<noteq> r_id r \<and> is_active a) (db_runs db)
     \<and> int (host_active_count db (r_tenant r)) < cfg_host cfg
     \<and> \<not> host_circuit_open db (r_tenant r) now
     \<and> \<not> (r_source r \<in> {SourceDashboard, SourceBackground} \<and> r_key r \<in> {StockBalance, ARCustomerMovement}
          \<and> schedule_due_soon db r now)"

definition select_claim :: "store_config \<Rightarrow> db \<Rightarrow> uuid list \<Rightarrow> instant \<Rightarrow> run_row option" where
  "select_claim cfg db locked now =
     select_first (claim_before db now) (\<lambda>r. claimable cfg db now r \<and> r_id r \<notin> set locked) (db_runs db)"

text \<open>
  The update of the selected row.  The partial unique index on the tenant of active rows refuses it
  when another row of the tenant has become active in the meantime.
\<close>

definition mark_claimed :: "string \<Rightarrow> duration \<Rightarrow> instant \<Rightarrow> run_row \<Rightarrow> run_row" where
  "mark_claimed worker lease now r = r\<lparr>r_status := StatusClaimed, r_claimed_by := Some worker,
     r_claimed_at := Some now, r_lease := Some (now + lease), r_attempt := r_attempt r + 1, r_updated_at := now\<rparr>"

definition claim_row :: "db \<Rightarrow> run_row \<Rightarrow> string \<Rightarrow> duration \<Rightarrow> instant \<Rightarrow> run_error + (db \<times> run_row)" where
  "claim_row db r worker lease now = (
     if list_ex (\<lambda>a. r_tenant a = r_tenant r \<and> r_id a \<noteq> r_id r \<and> is_active a) (db_runs db)
     then Inl ErrNoQueuedRun
     else (let claimed = mark_claimed worker lease now r;
               db' = update_run (r_id r) (\<lambda>_. True) (mark_claimed worker lease now) db
       in Inr (db'\<lparr>db_runtime := upsert_where (\<lambda>q. q_tenant q = r_tenant r)
                  (\<lambda>q. q\<lparr>q_last_claimed_at := Some now, q_updated_at := now\<rparr>)
                  \<lparr>q_tenant = r_tenant r, q_last_claimed_at = Some now, q_updated_at = now\<rparr> (db_runtime db')\<rparr>,
               claimed)))"

definition claim_run :: "store_config \<Rightarrow> db \<Rightarrow> uuid list \<Rightarrow> string \<Rightarrow> duration \<Rightarrow> instant
    \<Rightarrow> run_error + (db \<times> run_row)" where
  "claim_run cfg db locked worker lease now = (case select_claim cfg db locked now of
     None \<Rightarrow> Inl ErrNoQueuedRun
   | Some r \<Rightarrow> claim_row db r worker lease now)"

section \<open>Dashboard generations of a run (dashboard_generation.go)\<close>

definition generation_runs :: "db \<Rightarrow> uuid \<Rightarrow> run_row list" where
  "generation_runs db g = concat (map (\<lambda>l. filter (\<lambda>r. r_id r = gl_run l) (db_runs db))
     (filter (\<lambda>l. gl_generation l = g) (db_generation_links db)))"

definition is_failed :: "run_row \<Rightarrow> bool" where
  "is_failed r \<longleftrightarrow> r_status r = StatusFailed \<or> r_status r = StatusCancelled \<or> r_status r = StatusExpired"

definition recount_generation :: "db \<Rightarrow> instant \<Rightarrow> generation_row \<Rightarrow> generation_row" where
  "recount_generation db now g = (
     let runs = generation_runs db (g_id g);
         succeeded = int (count_where (\<lambda>r. r_status r = StatusSucceeded) runs);
         failed = int (count_where is_failed runs);
         published = (failed = 0 \<and> succeeded = g_total g)
     in g\<lparr>g_completed := succeeded, g_failed := failed,
          g_source_started_at := min_some (map r_source_started_at runs),
          g_source_finished_at := max_some (map r_source_finished_at runs),
          g_consistency := (if list_ex (\<lambda>r. r_consistency r = ConsistencyChunkWindow) runs
             then ConsistencyChunkWindow else ConsistencySerialWindow),
          g_status := (if failed > 0 then GenerationFailed
             else if succeeded = g_total g then GenerationPublished else GenerationBuilding),
          g_published_at := (if published then Some now else None),
          g_finished_at := (if failed > 0 \<or> succeeded = g_total g then Some now else None),
          g_updated_at := now\<rparr>)"

definition affected_generation :: "db \<Rightarrow> uuid \<Rightarrow> generation_row \<Rightarrow> bool" where
  "affected_generation db run g \<longleftrightarrow> g_status g = GenerationBuilding
     \<and> list_ex (\<lambda>l. gl_generation l = g_id g \<and> gl_run l = run) (db_generation_links db)
     \<and> generation_runs db (g_id g) \<noteq> []"

definition publish_head :: "instant \<Rightarrow> generation_row \<Rightarrow> head_row list \<Rightarrow> head_row list" where
  "publish_head now g = upsert_where (\<lambda>h. hd_tenant h = g_tenant g \<and> hd_key h = g_key g)
     (\<lambda>h. h\<lparr>hd_generation := g_id g, hd_version := hd_version h + 1, hd_updated_at := now\<rparr>)
     \<lparr>hd_tenant = g_tenant g, hd_key = g_key g, hd_generation = g_id g, hd_version = 1, hd_updated_at = now\<rparr>"

definition update_generations :: "uuid \<Rightarrow> instant \<Rightarrow> db \<Rightarrow> db" where
  "update_generations run now db = (
     let updated = map (recount_generation db now) (filter (affected_generation db run) (db_generations db))
     in db\<lparr>db_generations := update_where (affected_generation db run) (recount_generation db now) (db_generations db),
           db_heads := fold (publish_head now) (filter (\<lambda>g. g_status g = GenerationPublished) updated) (db_heads db)\<rparr>)"

section \<open>Failing the occurrence of a scheduled run\<close>

definition open_notification :: "notification_row \<Rightarrow> bool" where
  "open_notification n \<longleftrightarrow> n_status n = NotificationQueued \<or> n_status n = NotificationCollecting
     \<or> n_status n = NotificationReady"

definition linked :: "db \<Rightarrow> uuid \<Rightarrow> uuid \<Rightarrow> bool" where
  "linked db notification run = list_ex (\<lambda>l. l_notification l = notification \<and> l_run l = run) (db_notification_links db)"

definition is_sibling :: "db \<Rightarrow> uuid \<Rightarrow> uuid \<Rightarrow> run_row \<Rightarrow> bool" where
  "is_sibling db notification failed r \<longleftrightarrow> linked db notification (r_id r) \<and> r_id r \<noteq> failed \<and> r_status r = StatusQueued"

definition cancel_sibling :: "instant \<Rightarrow> run_row \<Rightarrow> run_row" where
  "cancel_sibling now r = r\<lparr>r_status := StatusCancelled, r_error_code := Some ''REPORT_SET_INCOMPLETE'',
     r_error_message := None, r_finished_at := Some now, r_lease := None,
     r_progress_updated_at := Some now, r_updated_at := now\<rparr>"

definition fail_scheduled_occurrence :: "uuid \<Rightarrow> instant \<Rightarrow> db \<Rightarrow> db \<times> nat" where
  "fail_scheduled_occurrence failed now db = (
     let p = (\<lambda>n. open_notification n \<and> linked db (n_id n) failed) in
     case find_where p (db_notifications db) of
       None \<Rightarrow> (db, 0)
     | Some n \<Rightarrow> (let sib = is_sibling db (n_id n) failed in
         (db\<lparr>db_notifications := update_where p (\<lambda>n. n\<lparr>n_status := NotificationFailed,
               n_error_code := Some ''REPORT_SET_INCOMPLETE'', n_finished_at := Some now, n_lease := None,
               n_updated_at := now\<rparr>) (db_notifications db),
             db_runs := update_where sib (cancel_sibling now) (db_runs db)\<rparr>,
          count_where sib (db_runs db))))"

definition fail_occurrence_of :: "source \<Rightarrow> uuid \<Rightarrow> instant \<Rightarrow> db \<Rightarrow> db" where
  "fail_occurrence_of src run now db =
     (if src = SourceSchedule then fst (fail_scheduled_occurrence run now db) else db)"

section \<open>Recovering expired leases\<close>

record lease_recovery =
  lr_requeued_claimed :: nat
  lr_failed_running :: nat
  lr_cancelled_siblings :: nat

definition lease_expired :: "instant \<Rightarrow> run_row \<Rightarrow> bool" where
  "lease_expired now r \<longleftrightarrow> opt_rel (\<lambda>l. l < now) (r_lease r)"

definition requeue_expired :: "instant \<Rightarrow> run_row \<Rightarrow> run_row" where
  "requeue_expired now r = r\<lparr>r_status := StatusQueued, r_claimed_by := None, r_claimed_at := None,
     r_lease := None, r_phase := ProgressWaitingRetry, r_queued_at := min (r_queued_at r) now,
     r_progress_seq := r_progress_seq r + 1, r_progress_updated_at := Some now, r_updated_at := now\<rparr>"

definition fail_expired :: "instant \<Rightarrow> run_row \<Rightarrow> run_row" where
  "fail_expired now r = r\<lparr>r_status := StatusFailed, r_error_code := Some ''REPORT_LEASE_EXPIRED'',
     r_error_message := Some ''Report worker lease expired after query dispatch.'',
     r_finished_at := Some now, r_source_finished_at := Some now, r_lease := None,
     r_progress_updated_at := Some now, r_updated_at := now\<rparr>"

definition open_circuit :: "uuid \<Rightarrow> instant \<Rightarrow> instant \<Rightarrow> circuit_row list \<Rightarrow> circuit_row list" where
  "open_circuit tenant now until = upsert_where (\<lambda>c. c_tenant c = tenant)
     (\<lambda>c. c\<lparr>c_failures := max (c_failures c) 1,
            c_window_started_at := Some (coalesce (c_window_started_at c) now),
            c_open_until := Some (max (coalesce (c_open_until c) now) until),
            c_half_open_run := None, c_updated_at := now\<rparr>)
     \<lparr>c_tenant = tenant, c_failures = 1, c_window_started_at = Some now, c_open_until = Some until,
      c_half_open_run = None, c_updated_at = now\<rparr>"

definition recover_one :: "instant \<Rightarrow> run_row \<Rightarrow> db \<times> lease_recovery \<Rightarrow> db \<times> lease_recovery" where
  "recover_one now item = (\<lambda>(db, res).
     if r_status item = StatusClaimed
     then (let p = (\<lambda>r. r_status r = StatusClaimed \<and> lease_expired now r) in
       (update_run (r_id item) p (requeue_expired now) db,
        res\<lparr>lr_requeued_claimed := lr_requeued_claimed res
              + count_where (\<lambda>r. r_id r = r_id item \<and> p r) (db_runs db)\<rparr>))
     else (let p = (\<lambda>r. r_status r = StatusRunning \<and> lease_expired now r) in
       if count_where (\<lambda>r. r_id r = r_id item \<and> p r) (db_runs db) = 0 then (db, res)
       else (let db1 = update_run (r_id item) p (fail_expired now) db;
                 db2 = db1\<lparr>db_circuits := open_circuit (r_tenant item) now (now + 10 * minute) (db_circuits db1)\<rparr>;
                 (db3, cancelled) = (if r_source item = SourceSchedule
                    then fail_scheduled_occurrence (r_id item) now db2 else (db2, 0))
             in (update_generations (r_id item) now db3,
                 res\<lparr>lr_failed_running := lr_failed_running res + 1,
                     lr_cancelled_siblings := lr_cancelled_siblings res + cancelled\<rparr>))))"

definition expired_leases :: "db \<Rightarrow> uuid list \<Rightarrow> instant \<Rightarrow> run_row list" where
  "expired_leases db locked now = take 100 (sort_by
     (\<lambda>a b. coalesce (r_lease a) 0 < coalesce (r_lease b) 0
            \<or> coalesce (r_lease a) 0 = coalesce (r_lease b) 0 \<and> r_id a < r_id b)
     (filter (\<lambda>r. is_active r \<and> lease_expired now r \<and> r_id r \<notin> set locked) (db_runs db)))"

definition recover_expired_leases :: "db \<Rightarrow> uuid list \<Rightarrow> instant \<Rightarrow> db \<times> lease_recovery" where
  "recover_expired_leases db locked now = fold (recover_one now) (expired_leases db locked now)
     (db, \<lparr>lr_requeued_claimed = 0, lr_failed_running = 0, lr_cancelled_siblings = 0\<rparr>)"

section \<open>The worker's operations on its run\<close>

definition owned :: "string \<Rightarrow> instant \<Rightarrow> run_row \<Rightarrow> bool" where
  "owned worker now r \<longleftrightarrow> r_claimed_by r = Some worker \<and> opt_rel (\<lambda>l. l \<ge> now) (r_lease r)"

text \<open>An update whose WHERE names the run, the worker and the lease; no row means the lease is lost.\<close>

definition guarded_update :: "uuid \<Rightarrow> (run_row \<Rightarrow> bool) \<Rightarrow> (run_row \<Rightarrow> run_row) \<Rightarrow> db \<Rightarrow> run_error + db" where
  "guarded_update run p f db = (
     if count_where (\<lambda>r. r_id r = run \<and> p r) (db_runs db) \<noteq> 1 then Inl ErrRunLeaseLost
     else Inr (update_run run p f db))"

definition extend_lease :: "db \<Rightarrow> uuid \<Rightarrow> string \<Rightarrow> duration \<Rightarrow> instant \<Rightarrow> run_error + db" where
  "extend_lease db run worker lease now = guarded_update run (\<lambda>r. owned worker now r \<and> is_active r)
     (\<lambda>r. r\<lparr>r_lease := Some (now + lease), r_updated_at := now\<rparr>) db"

definition phase_rank :: "progress_phase \<Rightarrow> int" where
  "phase_rank ph = (case ph of
     ProgressQueued \<Rightarrow> 0 | ProgressWaitingRetry \<Rightarrow> 0 | ProgressConnecting \<Rightarrow> 10
   | ProgressQueryingCurrent \<Rightarrow> 20 | ProgressQueryingComparison \<Rightarrow> 30 | ProgressBuildingDashboard \<Rightarrow> 40
   | ProgressSavingResult \<Rightarrow> 50 | ProgressCompleted \<Rightarrow> 60)"

definition update_progress :: "db \<Rightarrow> uuid \<Rightarrow> string \<Rightarrow> progress_phase \<Rightarrow> int \<Rightarrow> int \<Rightarrow> instant \<Rightarrow> run_error + db" where
  "update_progress db run worker phase completed steps now = guarded_update run
     (\<lambda>r. owned worker now r \<and> r_status r = StatusRunning \<and> phase_rank (r_phase r) < phase_rank phase)
     (\<lambda>r. r\<lparr>r_phase := phase, r_progress_seq := r_progress_seq r + 1, r_completed_steps := completed,
            r_total_steps := steps, r_progress_updated_at := Some now, r_updated_at := now\<rparr>) db"

definition requeue :: "string \<Rightarrow> instant \<Rightarrow> instant \<Rightarrow> run_row \<Rightarrow> run_row" where
  "requeue code available_at now r = r\<lparr>r_status := StatusQueued, r_queued_at := available_at,
     r_claimed_by := None, r_claimed_at := None, r_lease := None, r_error_code := Some code,
     r_error_message := None, r_phase := ProgressWaitingRetry, r_progress_seq := r_progress_seq r + 1,
     r_progress_updated_at := Some now, r_updated_at := now\<rparr>"

definition retry_run :: "db \<Rightarrow> uuid \<Rightarrow> string \<Rightarrow> string \<Rightarrow> instant \<Rightarrow> instant \<Rightarrow> run_error + db" where
  "retry_run db run worker code available_at now = guarded_update run
     (\<lambda>r. owned worker now r \<and> is_active r) (requeue code available_at now) db"

text \<open>The host circuit counts failures before the request within two minutes; the second opens it.\<close>

definition bump_host_circuit :: "instant \<Rightarrow> host_circuit_row \<Rightarrow> host_circuit_row" where
  "bump_host_circuit now h = (
     let fresh = (case h_window_started_at h of None \<Rightarrow> True | Some w \<Rightarrow> w < now - 2 * minute);
         n = (if fresh then 1 else h_failures h + 1)
     in h\<lparr>h_failures := n,
          h_window_started_at := (if fresh then Some now else h_window_started_at h),
          h_open_until := (if n \<ge> 2 then Some (max (coalesce (h_open_until h) now) (now + 5 * minute))
                           else h_open_until h),
          h_half_open_run := None, h_updated_at := now\<rparr>)"

definition record_host_failure :: "uuid \<Rightarrow> instant \<Rightarrow> db \<Rightarrow> run_error + db" where
  "record_host_failure tenant now db = (case host_of db tenant of
     None \<Rightarrow> Inl (ErrRun ''record SML host pre-request failure: connection missing'')
   | Some host \<Rightarrow> Inr (db\<lparr>db_host_circuits := upsert_where (\<lambda>h. h_host h = host) (bump_host_circuit now)
        \<lparr>h_host = host, h_failures = 1, h_window_started_at = Some now, h_open_until = None,
         h_half_open_run = None, h_updated_at = now\<rparr> (db_host_circuits db)\<rparr>))"

text \<open>What RETURNING tenant_id, source gives of the updated run.\<close>

definition run_identity :: "db \<Rightarrow> uuid \<Rightarrow> uuid \<times> source" where
  "run_identity db run = (case find_run db run of
     None \<Rightarrow> (nil_uuid, OtherSource '''') | Some r \<Rightarrow> (r_tenant r, r_source r))"

definition retry_pre_request_failure :: "db \<Rightarrow> uuid \<Rightarrow> string \<Rightarrow> string \<Rightarrow> instant \<Rightarrow> instant \<Rightarrow> run_error + db" where
  "retry_pre_request_failure db run worker code available_at now =
     bindr (guarded_update run (\<lambda>r. owned worker now r \<and> is_active r) (requeue code available_at now) db) (\<lambda>db1.
     record_host_failure (fst (run_identity db run)) now db1)"

definition fail_row :: "string \<Rightarrow> string \<Rightarrow> instant \<Rightarrow> bool \<Rightarrow> run_row \<Rightarrow> run_row" where
  "fail_row code message now source_done r = r\<lparr>r_status := StatusFailed, r_error_code := Some code,
     r_error_message := Some message, r_finished_at := Some now,
     r_source_finished_at := (if source_done then Some now else r_source_finished_at r),
     r_lease := None, r_progress_updated_at := Some now, r_updated_at := now\<rparr>"

definition fail_pre_request_failure :: "db \<Rightarrow> uuid \<Rightarrow> string \<Rightarrow> string \<Rightarrow> string \<Rightarrow> instant \<Rightarrow> run_error + db" where
  "fail_pre_request_failure db run worker code message now = (
     let (tenant, src) = run_identity db run in
     bindr (guarded_update run (\<lambda>r. owned worker now r \<and> is_active r) (fail_row code message now True) db) (\<lambda>db1.
     bindr (record_host_failure tenant now db1) (\<lambda>db2.
     Inr (update_generations run now (fail_occurrence_of src run now db2)))))"

definition mark_running :: "db \<Rightarrow> uuid \<Rightarrow> string \<Rightarrow> duration \<Rightarrow> instant \<Rightarrow> run_error + db" where
  "mark_running db run worker lease now = guarded_update run
     (\<lambda>r. owned worker now r \<and> r_status r = StatusClaimed)
     (\<lambda>r. r\<lparr>r_status := StatusRunning, r_started_at := Some (coalesce (r_started_at r) now),
            r_source_started_at := Some (coalesce (r_source_started_at r) now),
            r_lease := Some (now + lease), r_updated_at := now\<rparr>) db"

text \<open>
  Complete.  encoded_length is the length of the JSON encoding of a dashboard.  The rows of a
  dashboard run are stored with their ordinals, the circuits of the tenant and its host are reset.
\<close>

definition number_rows :: "uuid \<Rightarrow> uuid \<Rightarrow> instant \<Rightarrow> instant \<Rightarrow> row list \<Rightarrow> result_row list" where
  "number_rows run tenant now expires rows = map (\<lambda>i. \<lparr>rr_run = run, rr_tenant = tenant, rr_ordinal = i + 1,
     rr_row = rows ! i, rr_created_at = now, rr_expires_at = expires\<rparr>) [0..<length rows]"

definition complete_row :: "summary_result \<Rightarrow> dashboard option \<Rightarrow> instant \<Rightarrow> instant \<Rightarrow> run_row \<Rightarrow> run_row" where
  "complete_row summary dash now expires r = r\<lparr>r_status := StatusSucceeded,
     r_row_count := sum_row_count summary, r_summary := sum_metrics summary,
     r_reconciliation := sum_reconciliation summary, r_dashboard := dash, r_finished_at := Some now,
     r_source_finished_at := Some now, r_expires_at := expires, r_lease := None,
     r_phase := ProgressCompleted, r_progress_seq := r_progress_seq r + 1,
     r_completed_steps := r_total_steps r, r_progress_updated_at := Some now, r_updated_at := now\<rparr>"

definition reset_circuit :: "uuid \<Rightarrow> instant \<Rightarrow> circuit_row list \<Rightarrow> circuit_row list" where
  "reset_circuit tenant now = upsert_where (\<lambda>c. c_tenant c = tenant)
     (\<lambda>c. c\<lparr>c_failures := 0, c_window_started_at := None, c_open_until := None, c_half_open_run := None,
            c_updated_at := now\<rparr>)
     \<lparr>c_tenant = tenant, c_failures = 0, c_window_started_at = None, c_open_until = None,
      c_half_open_run = None, c_updated_at = now\<rparr>"

definition reset_host_circuit :: "string option \<Rightarrow> instant \<Rightarrow> host_circuit_row list \<Rightarrow> host_circuit_row list" where
  "reset_host_circuit host now = update_where (\<lambda>h. Some (h_host h) = host)
     (\<lambda>h. h\<lparr>h_failures := 0, h_window_started_at := None, h_open_until := None, h_half_open_run := None,
            h_updated_at := now\<rparr>)"

definition stamp_dashboard :: "(dashboard \<Rightarrow> nat) \<Rightarrow> key \<Rightarrow> instant \<Rightarrow> dashboard option \<Rightarrow> run_error + dashboard option" where
  "stamp_dashboard encoded_length k now dash = (case dash of
     None \<Rightarrow> Inr None
   | Some d \<Rightarrow> if dash_report_key d \<noteq> k \<or> dash_version d = ''''
       then Inl (ErrRun ''dashboard identity does not match report run'')
       else (let stamped = d\<lparr>dash_generated_at := Some now\<rparr> in
         if encoded_length stamped > 128 * 1024 then Inl (ErrRun ''report dashboard exceeds 128 KiB'')
         else Inr (Some stamped)))"

definition complete_run :: "(dashboard \<Rightarrow> nat) \<Rightarrow> db \<Rightarrow> uuid \<Rightarrow> string \<Rightarrow> summary_result \<Rightarrow> bool \<Rightarrow> instant \<Rightarrow> run_error + db" where
  "complete_run encoded_length db run worker summary persist_rows now = (
     case find_where (\<lambda>r. r_id r = run \<and> owned worker now r \<and> r_status r = StatusRunning) (db_runs db) of
       None \<Rightarrow> Inl ErrRunLeaseLost
     | Some r \<Rightarrow>
       (let expires = now + 24 * hour;
            kept = filter (\<lambda>x. rr_run x \<noteq> run) (db_result_rows db);
            copied = (if persist_rows \<and> r_source r = SourceDashboard
                      then number_rows run (r_tenant r) now expires (sum_rows summary) else [])
        in bindr (stamp_dashboard encoded_length (r_key r) now (sum_dashboard summary)) (\<lambda>dash.
           bindr (guarded_update run (\<lambda>r. r_claimed_by r = Some worker \<and> r_status r = StatusRunning)
                    (complete_row summary dash now expires) (db\<lparr>db_result_rows := kept @ copied\<rparr>)) (\<lambda>db1.
           Inr (update_generations run now (db1\<lparr>
              db_chunks := filter (\<lambda>c. ch_run c \<noteq> run) (db_chunks db1),
              db_circuits := reset_circuit (r_tenant r) now (db_circuits db1),
              db_host_circuits := reset_host_circuit (host_of db1 (r_tenant r)) now (db_host_circuits db1)\<rparr>))))))"

definition is_sml_circuit_failure :: "string \<Rightarrow> bool" where
  "is_sml_circuit_failure code \<longleftrightarrow> code \<in> {''SML_TIMEOUT'', ''SML_UNREACHABLE'', ''SML_QUERY_FAILED'',
     ''SML_CONNECTION_LOAD_FAILED'', ''SML_RESPONSE_READ_FAILED''}"

text \<open>Three failures of a tenant within ten minutes open its circuit for fifteen.\<close>

definition bump_circuit :: "instant \<Rightarrow> circuit_row \<Rightarrow> circuit_row" where
  "bump_circuit now c = (
     let fresh = (case c_window_started_at c of None \<Rightarrow> True | Some w \<Rightarrow> w < now - 10 * minute);
         n = (if fresh then 1 else c_failures c + 1)
     in c\<lparr>c_failures := n,
          c_window_started_at := (if fresh then Some now else c_window_started_at c),
          c_open_until := (if n \<ge> 3 then Some (now + 15 * minute) else c_open_until c),
          c_half_open_run := (if fresh then None else c_half_open_run c), c_updated_at := now\<rparr>)"

definition record_circuit_failure :: "uuid \<Rightarrow> instant \<Rightarrow> circuit_row list \<Rightarrow> circuit_row list" where
  "record_circuit_failure tenant now = upsert_where (\<lambda>c. c_tenant c = tenant) (bump_circuit now)
     \<lparr>c_tenant = tenant, c_failures = 1, c_window_started_at = Some now, c_open_until = None,
      c_half_open_run = None, c_updated_at = now\<rparr>"

definition fail_run :: "db \<Rightarrow> uuid \<Rightarrow> string \<Rightarrow> string \<Rightarrow> string \<Rightarrow> instant \<Rightarrow> run_error + db" where
  "fail_run db run worker code message now = (
     let (tenant, src) = run_identity db run in
     bindr (guarded_update run (\<lambda>r. owned worker now r \<and> is_active r) (fail_row code message now False) db) (\<lambda>db1.
     let db2 = (if is_sml_circuit_failure code
                then db1\<lparr>db_circuits := record_circuit_failure tenant now (db_circuits db1)\<rparr> else db1)
     in Inr (update_generations run now (fail_occurrence_of src run now db2))))"

definition fail_remote_unknown :: "db \<Rightarrow> uuid \<Rightarrow> string \<Rightarrow> string \<Rightarrow> string \<Rightarrow> instant \<Rightarrow> instant \<Rightarrow> run_error + db" where
  "fail_remote_unknown db run worker code message now open_until = (
     if open_until \<le> now then Inl (ErrRun ''uncertainty circuit expiry must be in the future'')
     else (let (tenant, src) = run_identity db run in
       bindr (guarded_update run (\<lambda>r. owned worker now r \<and> is_active r) (fail_row code message now True) db) (\<lambda>db1.
       let db2 = db1\<lparr>db_circuits := open_circuit tenant now open_until (db_circuits db1)\<rparr>
       in Inr (update_generations run now (fail_occurrence_of src run now db2)))))"

section \<open>Chunks of a run (report_chunk_store.go)\<close>

definition set_source_consistency :: "db \<Rightarrow> uuid \<Rightarrow> string \<Rightarrow> source_consistency \<Rightarrow> instant \<Rightarrow> run_error + db" where
  "set_source_consistency db run worker consistency now = (
     if consistency \<noteq> ConsistencyStatement \<and> consistency \<noteq> ConsistencySerialWindow
     then Inl (ErrRun ''direct source consistency is invalid'')
     else guarded_update run (\<lambda>r. owned worker now r \<and> r_status r = StatusRunning)
       (\<lambda>r. r\<lparr>r_strategy := ExecutionDirect, r_consistency := consistency, r_updated_at := now\<rparr>) db)"

definition new_chunk :: "uuid \<Rightarrow> chunk_manifest \<Rightarrow> chunk_row" where
  "new_chunk run m = \<lparr>ch_run = run, ch_number = cm_number m, ch_key = cm_key m, ch_from = cm_cursor_from m,
     ch_to = cm_cursor_to m, ch_units = cm_unit_keys m, ch_status = ChunkQueued, ch_attempt = 0,
     ch_row_count = 0, ch_result = ''{}'', ch_error_code = None, ch_started_at = None, ch_finished_at = None\<rparr>"

definition prepare_chunks :: "db \<Rightarrow> uuid \<Rightarrow> string \<Rightarrow> chunk_manifest list \<Rightarrow> instant \<Rightarrow> run_error + db" where
  "prepare_chunks db run worker manifests now =
     bindr (guarded_update run (\<lambda>r. owned worker now r \<and> r_status r = StatusRunning)
       (\<lambda>r. r\<lparr>r_strategy := ExecutionChunked, r_consistency := ConsistencyChunkWindow,
              r_completed_chunks := 0, r_total_chunks := int (length manifests), r_updated_at := now\<rparr>) db) (\<lambda>db1.
     Inr (db1\<lparr>db_chunks := filter (\<lambda>c. ch_run c \<noteq> run) (db_chunks db1) @ map (new_chunk run) manifests\<rparr>))"

definition run_owned :: "db \<Rightarrow> uuid \<Rightarrow> string \<Rightarrow> instant \<Rightarrow> bool" where
  "run_owned db run worker now =
     list_ex (\<lambda>r. r_id r = run \<and> owned worker now r \<and> r_status r = StatusRunning) (db_runs db)"

definition chunk_update :: "db \<Rightarrow> uuid \<Rightarrow> string \<Rightarrow> nat \<Rightarrow> chunk_status \<Rightarrow> (chunk_row \<Rightarrow> chunk_row) \<Rightarrow> instant \<Rightarrow> run_error + db" where
  "chunk_update db run worker number st f now = (
     let p = (\<lambda>c. ch_run c = run \<and> ch_number c = number \<and> run_owned db run worker now \<and> ch_status c = st)
     in if count_where p (db_chunks db) \<noteq> 1 then Inl ErrRunLeaseLost
        else Inr (db\<lparr>db_chunks := update_where p f (db_chunks db)\<rparr>))"

definition start_chunk :: "db \<Rightarrow> uuid \<Rightarrow> string \<Rightarrow> nat \<Rightarrow> instant \<Rightarrow> run_error + db" where
  "start_chunk db run worker number now = chunk_update db run worker number ChunkQueued
     (\<lambda>c. c\<lparr>ch_status := ChunkRunning, ch_attempt := ch_attempt c + 1,
            ch_started_at := Some (coalesce (ch_started_at c) now)\<rparr>) now"

definition complete_chunk :: "db \<Rightarrow> uuid \<Rightarrow> string \<Rightarrow> nat \<Rightarrow> string \<Rightarrow> int \<Rightarrow> instant \<Rightarrow> run_error + db" where
  "complete_chunk db run worker number encoded row_count now = (
     if length encoded > 16 * 1024 * 1024 then Inl (ErrRun ''report chunk result exceeds 16 MiB'')
     else bindr (chunk_update db run worker number ChunkRunning
            (\<lambda>c. c\<lparr>ch_status := ChunkSucceeded, ch_result := encoded, ch_row_count := row_count,
                   ch_finished_at := Some now\<rparr>) now) (\<lambda>db1.
          guarded_update run (\<lambda>r. owned worker now r \<and> r_status r = StatusRunning)
            (\<lambda>r. r\<lparr>r_completed_chunks := r_completed_chunks r + 1, r_updated_at := now\<rparr>) db1))"

definition fail_chunk :: "db \<Rightarrow> uuid \<Rightarrow> string \<Rightarrow> nat \<Rightarrow> string \<Rightarrow> instant \<Rightarrow> run_error + db" where
  "fail_chunk db run worker number code now = chunk_update db run worker number ChunkRunning
     (\<lambda>c. c\<lparr>ch_status := ChunkFailed, ch_error_code := Some code, ch_result := ''{}'', ch_finished_at := Some now\<rparr>) now"

section \<open>Reading\<close>

definition queue_position :: "db \<Rightarrow> run_row \<Rightarrow> instant \<Rightarrow> nat" where
  "queue_position db t now = count_where (\<lambda>c. r_tenant c = r_tenant t \<and> r_status c = StatusQueued \<and> r_id c \<noteq> r_id t
     \<and> (effective_priority now c > effective_priority now t
        \<or> effective_priority now c = effective_priority now t
          \<and> (r_queued_at c < r_queued_at t \<or> r_queued_at c = r_queued_at t \<and> r_id c < r_id t))) (db_runs db) + 1"

text \<open>Get returns the run and, for a queued one, its position (0 otherwise).\<close>

definition get_run :: "db \<Rightarrow> uuid \<Rightarrow> instant \<Rightarrow> run_error + (run_row \<times> nat)" where
  "get_run db run now = (case find_run db run of
     None \<Rightarrow> Inl ErrRunNotFound
   | Some r \<Rightarrow> Inr (run_view now r, if r_status (run_view now r) = StatusQueued then queue_position db r now else 0))"

record rows_page =
  rp_rows :: "row list"
  rp_next_ordinal :: nat
  rp_has_more :: bool

definition list_rows :: "db \<Rightarrow> uuid \<Rightarrow> int \<Rightarrow> int \<Rightarrow> instant \<Rightarrow> run_error + rows_page" where
  "list_rows db run after page_size now = (
     if page_size < 1 \<or> page_size > 100 \<or> after < 0 then Inl (ErrRun ''invalid report row cursor'')
     else (case find_run db run of
       None \<Rightarrow> Inl ErrRunNotFound
     | Some r \<Rightarrow> if r_status r = StatusExpired \<or> r_expires_at r \<le> now then Inl ErrRunRowsExpired
         else if r_status r \<noteq> StatusSucceeded then Inl ErrRunNotFound
         else (let found = take (nat page_size + 1) (sort_by (\<lambda>a b. rr_ordinal a < rr_ordinal b)
                     (filter (\<lambda>x. rr_run x = run \<and> int (rr_ordinal x) > after) (db_result_rows db)));
                   items = take (nat page_size) found
               in Inr \<lparr>rp_rows = map rr_row items,
                       rp_next_ordinal = (if items = [] then 0 else rr_ordinal (last items)),
                       rp_has_more = length found > nat page_size\<rparr>)))"

end
