(* ===== verification/RunQueue.thy ===== *)
theory RunQueue
  imports RunStore
begin

text \<open>
  What every operation of the run store keeps.  A run follows the status machine of
  report_runs, a terminal run never changes again, an operation of a worker that has lost its lease
  changes nothing, and the limits on concurrent runs hold in every reachable database.  Transactions
  are atomic steps here; two claims that select on overlapping snapshots are covered for the limit
  per tenant, which the unique index enforces (claim_row_one_active).
\<close>

section \<open>The status machine of a run\<close>

inductive status_step :: "run_status \<Rightarrow> run_status \<Rightarrow> bool" where
  queued_claimed: "status_step StatusQueued StatusClaimed"
| queued_cancelled: "status_step StatusQueued StatusCancelled"
| claimed_running: "status_step StatusClaimed StatusRunning"
| claimed_requeued: "status_step StatusClaimed StatusQueued"
| running_requeued: "status_step StatusRunning StatusQueued"
| claimed_failed: "status_step StatusClaimed StatusFailed"
| running_failed: "status_step StatusRunning StatusFailed"
| running_succeeded: "status_step StatusRunning StatusSucceeded"

inductive_cases status_stepE: "status_step s t"

definition is_terminal :: "run_row \<Rightarrow> bool" where
  "is_terminal r \<longleftrightarrow> r_status r = StatusSucceeded \<or> r_status r = StatusFailed \<or> r_status r = StatusCancelled
     \<or> r_status r = StatusExpired"

lemma unfinished_or_terminal: "is_unfinished r \<longleftrightarrow> \<not> is_terminal r"
  by (cases "r_status r") (simp_all add: is_unfinished_def is_active_def is_terminal_def)

definition row_wf :: "run_row \<Rightarrow> bool" where
  "row_wf r \<longleftrightarrow> (is_active r \<longrightarrow> r_lease r \<noteq> None \<and> r_claimed_by r \<noteq> None)
     \<and> (r_status r = StatusQueued \<longrightarrow> r_lease r = None \<and> r_claimed_by r = None)"

definition same_run :: "run_row \<Rightarrow> run_row \<Rightarrow> bool" where
  "same_run r r' \<longleftrightarrow> r_id r' = r_id r \<and> r_tenant r' = r_tenant r \<and> r_source r' = r_source r
     \<and> r_key r' = r_key r \<and> r_kind r' = r_kind r \<and> r_period r' = r_period r \<and> r_recipient r' = r_recipient r
     \<and> r_idempotency r' = r_idempotency r \<and> r_execution_key r' = r_execution_key r"

text \<open>What may happen to a run in one transaction, apart from being claimed.\<close>

definition follows :: "run_row \<Rightarrow> run_row \<Rightarrow> bool" where
  "follows r r' \<longleftrightarrow> same_run r r' \<and> status_step\<^sup>*\<^sup>* (r_status r) (r_status r')
     \<and> (is_terminal r \<longrightarrow> r' = r) \<and> (row_wf r \<longrightarrow> row_wf r')
     \<and> r_progress_seq r \<le> r_progress_seq r' \<and> r_attempt r \<le> r_attempt r'"

definition settles :: "run_row \<Rightarrow> run_row \<Rightarrow> bool" where
  "settles r r' \<longleftrightarrow> follows r r' \<and> (is_active r' \<longrightarrow> is_active r)"

lemma follows_refl [simp]: "follows r r"
  by (simp add: follows_def same_run_def)

lemma follows_trans: "follows a b \<Longrightarrow> follows b c \<Longrightarrow> follows a c"
  by (auto simp: follows_def same_run_def)

lemma settles_refl [simp]: "settles r r"
  by (simp add: settles_def)

lemma settles_trans: "settles a b \<Longrightarrow> settles b c \<Longrightarrow> settles a c"
  by (auto simp: settles_def intro: follows_trans)

definition runs_settle :: "db \<Rightarrow> db \<Rightarrow> bool" where
  "runs_settle db db' \<longleftrightarrow> list_all2 settles (db_runs db) (db_runs db')"

lemma runs_settle_refl [simp]: "runs_settle db db"
  by (simp add: runs_settle_def list_all2_refl)

lemma runs_settle_trans: "runs_settle a b \<Longrightarrow> runs_settle b c \<Longrightarrow> runs_settle a c"
  unfolding runs_settle_def by (rule list_all2_trans[OF settles_trans])

lemma runs_settle_same: "db_runs db' = db_runs db \<Longrightarrow> runs_settle db db'"
  by (simp add: runs_settle_def list_all2_refl)

lemma update_where_settles:
  assumes "\<And>r. r \<in> set (db_runs db) \<Longrightarrow> p r \<Longrightarrow> settles r (f r)" "db_runs db' = update_where p f (db_runs db)"
  shows "runs_settle db db'"
  using assms(1) unfolding runs_settle_def assms(2) update_where_def
  by (simp add: list_all2_map2 list_all2_same)

lemma update_run_settles:
  assumes "\<And>r. r \<in> set (db_runs db) \<Longrightarrow> r_id r = run \<Longrightarrow> p r \<Longrightarrow> settles r (f r)"
  shows "runs_settle db (update_run run p f db)"
  by (rule update_where_settles[of db "\<lambda>r. r_id r = run \<and> p r" f]) (use assms in \<open>auto simp: update_run_def\<close>)

section \<open>Each kind of update\<close>

lemma update_run_runs [simp]:
  "db_runs (update_run run p f db) = update_where (\<lambda>r. r_id r = run \<and> p r) f (db_runs db)"
  by (simp add: update_run_def)

lemma update_generations_runs [simp]: "db_runs (update_generations run now db) = db_runs db"
  by (simp add: update_generations_def Let_def)

lemma record_host_failure_runs: "record_host_failure tenant now db = Inr db' \<Longrightarrow> db_runs db' = db_runs db"
  by (auto simp: record_host_failure_def split: option.splits)

lemmas step_intros = queued_claimed queued_cancelled claimed_running claimed_requeued running_requeued
  claimed_failed running_failed running_succeeded

lemmas step_paths = step_intros[THEN r_into_rtranclp[of status_step]]

lemmas settle_defs = settles_def follows_def same_run_def row_wf_def is_terminal_def is_active_def

lemma cancel_sibling_settles: "r_status r = StatusQueued \<Longrightarrow> settles r (cancel_sibling now r)"
  by (auto simp: settle_defs cancel_sibling_def step_paths)

lemma requeue_settles: "is_active r \<Longrightarrow> settles r (requeue code avail now r)"
  by (auto simp: settle_defs requeue_def step_paths)

lemma requeue_expired_settles: "is_active r \<Longrightarrow> settles r (requeue_expired now r)"
  by (auto simp: settle_defs requeue_expired_def step_paths)

lemma fail_expired_settles: "is_active r \<Longrightarrow> settles r (fail_expired now r)"
  by (auto simp: settle_defs fail_expired_def step_paths)

lemma fail_row_settles: "is_active r \<Longrightarrow> settles r (fail_row code message now b r)"
  by (auto simp: settle_defs fail_row_def step_paths)

lemma complete_row_settles: "r_status r = StatusRunning \<Longrightarrow> settles r (complete_row s d now e r)"
  by (auto simp: settle_defs complete_row_def step_paths)

lemma active_update_settles:
  assumes "is_active r" "r_status (f r) = r_status r \<or> r_status r = StatusClaimed \<and> r_status (f r) = StatusRunning"
    "same_run r (f r)" "r_claimed_by (f r) = r_claimed_by r" "r_lease r \<noteq> None \<Longrightarrow> r_lease (f r) \<noteq> None"
    "r_progress_seq r \<le> r_progress_seq (f r)" "r_attempt r \<le> r_attempt (f r)"
  shows "settles r (f r)"
  using assms by (auto simp: settle_defs step_paths)

lemma guarded_update_Inr:
  "guarded_update run p f db = Inr db' \<longleftrightarrow>
     count_where (\<lambda>r. r_id r = run \<and> p r) (db_runs db) = 1 \<and> db' = update_run run p f db"
  by (auto simp: guarded_update_def)

lemma guarded_settles:
  assumes "guarded_update run p f db = Inr db'" "\<And>r. p r \<Longrightarrow> settles r (f r)"
  shows "runs_settle db db'"
  using assms update_run_settles[of db run p f] by (auto simp: guarded_update_Inr)

lemma occurrence_settles: "runs_settle db (fst (fail_scheduled_occurrence failed now db))"
proof (cases "find_where (\<lambda>n. open_notification n \<and> linked db (n_id n) failed) (db_notifications db)")
  case (Some n)
  then have "db_runs (fst (fail_scheduled_occurrence failed now db)) =
      update_where (is_sibling db (n_id n) failed) (cancel_sibling now) (db_runs db)"
    by (simp add: fail_scheduled_occurrence_def Let_def)
  then show ?thesis
    by (rule update_where_settles[rotated]) (simp add: cancel_sibling_settles is_sibling_def)
qed (simp add: fail_scheduled_occurrence_def)

lemma fail_occurrence_of_settles: "runs_settle db (fail_occurrence_of src run now db)"
  by (simp add: fail_occurrence_of_def occurrence_settles)

section \<open>The contract of a worker operation\<close>

text \<open>
  Every operation of a worker on its run shares one contract: it succeeds only for the worker whose
  unexpired lease is on the active run, and what it does to the runs is a move of the machine.
\<close>

definition holds_lease :: "db \<Rightarrow> uuid \<Rightarrow> string \<Rightarrow> instant \<Rightarrow> bool" where
  "holds_lease db run worker now \<longleftrightarrow>
     (\<exists>r \<in> set (db_runs db). r_id r = run \<and> r_claimed_by r = Some worker \<and> is_active r \<and>
        (case r_lease r of None \<Rightarrow> False | Some l \<Rightarrow> l \<ge> now))"

locale fenced_operation =
  fixes oper :: "db \<Rightarrow> uuid \<Rightarrow> string \<Rightarrow> instant \<Rightarrow> run_error + db"
  assumes fence: "oper db run worker now = Inr db' \<Longrightarrow> holds_lease db run worker now"
    and settle: "oper db run worker now = Inr db' \<Longrightarrow> runs_settle db db'"
begin

lemma stale_worker:
  assumes "find_run db run = Some r" "distinct (map r_id (db_runs db))" "r_claimed_by r \<noteq> Some worker"
  shows "isl (oper db run worker now)"
proof (cases "oper db run worker now")
  case (Inr db')
  then obtain s where "s \<in> set (db_runs db)" "r_id s = run" "r_claimed_by s = Some worker"
    using fence[OF Inr] unfolding holds_lease_def by blast
  moreover have "r \<in> set (db_runs db)" "r_id r = run"
    using assms(1) find_where_Some by (fastforce simp: find_run_def)+
  ultimately have "s = r" using assms(2) codes_eq by metis
  with assms(3) \<open>r_claimed_by s = Some worker\<close> show ?thesis by simp
qed simp

lemma terminal_kept:
  assumes "oper db run worker now = Inr db'" "r \<in> set (db_runs db)" "is_terminal r"
  shows "r \<in> set (db_runs db')"
  using settle[OF assms(1)] assms(2,3)
  by (auto simp: runs_settle_def settles_def follows_def list_all2_conv_all_nth in_set_conv_nth)

end

lemma guarded_fence:
  assumes "guarded_update run p f db = Inr db'" "\<And>r. p r \<Longrightarrow> owned worker now r \<and> is_active r"
  shows "holds_lease db run worker now"
proof -
  have "0 < count_where (\<lambda>r. r_id r = run \<and> p r) (db_runs db)"
    using assms(1) by (simp add: guarded_update_Inr)
  then obtain r where "r \<in> set (db_runs db)" "r_id r = run" "p r" by (auto simp: count_where_pos_iff)
  with assms(2) show ?thesis by (fastforce simp: holds_lease_def owned_def opt_rel_def split: option.splits)
qed

lemma running_active: "r_status r = StatusRunning \<Longrightarrow> is_active r" "r_status r = StatusClaimed \<Longrightarrow> is_active r"
  by (simp_all add: is_active_def)

text \<open>The operations are a guarded update of the run, and more on other tables around it.\<close>

definition guarded_step :: "db \<Rightarrow> uuid \<Rightarrow> string \<Rightarrow> instant \<Rightarrow> db \<Rightarrow> bool" where
  "guarded_step db run worker now db' \<longleftrightarrow> (\<exists>db0 p f db1. db_runs db0 = db_runs db
     \<and> guarded_update run p f db0 = Inr db1 \<and> (\<forall>r. p r \<longrightarrow> owned worker now r \<and> is_active r \<and> settles r (f r))
     \<and> runs_settle db1 db')"

lemma guarded_stepI:
  assumes "guarded_update run p f db0 = Inr db1" "db_runs db0 = db_runs db" "runs_settle db1 db'"
    "\<And>r. p r \<Longrightarrow> owned worker now r \<and> is_active r \<and> settles r (f r)"
  shows "guarded_step db run worker now db'"
  unfolding guarded_step_def using assms(4) assms(1-3)
  by (intro exI[of _ db0] exI[of _ p] exI[of _ f] exI[of _ db1]) simp

lemma guarded_step_holds:
  assumes "guarded_step db run worker now db'"
  shows "holds_lease db run worker now"
proof -
  obtain db0 p f db1 where e: "db_runs db0 = db_runs db" and g: "guarded_update run p f db0 = Inr db1"
    and p: "\<forall>r. p r \<longrightarrow> owned worker now r \<and> is_active r \<and> settles r (f r)"
    using assms unfolding guarded_step_def by (elim exE conjE)
  have "holds_lease db0 run worker now" by (rule guarded_fence[OF g]) (simp add: p)
  then show ?thesis by (simp add: holds_lease_def e)
qed

lemma guarded_step_settles: "guarded_step db run worker now db' \<Longrightarrow> runs_settle db db'"
  unfolding guarded_step_def using guarded_settles runs_settle_same runs_settle_trans by meson

lemma fenced_operationI:
  assumes "\<And>db run worker now db'. oper db run worker now = Inr db' \<Longrightarrow> guarded_step db run worker now db'"
  shows "fenced_operation oper"
  by unfold_locales (use assms guarded_step_holds guarded_step_settles in blast)+

lemma host_failure_settles: "record_host_failure tenant now db = Inr db' \<Longrightarrow> runs_settle db db'"
  by (rule runs_settle_same) (rule record_host_failure_runs)

interpretation extending: fenced_operation "\<lambda>db run worker now. extend_lease db run worker lease now" for lease
  by (rule fenced_operationI, unfold extend_lease_def, erule guarded_stepI)
    (auto intro!: active_update_settles simp: same_run_def)

interpretation progressing: fenced_operation "\<lambda>db run worker now. update_progress db run worker phase completed steps now"
  for phase completed steps
  by (rule fenced_operationI, unfold update_progress_def, erule guarded_stepI)
    (auto intro!: active_update_settles simp: same_run_def running_active)

interpretation retrying: fenced_operation "\<lambda>db run worker now. retry_run db run worker code available_at now"
  for code available_at
  by (rule fenced_operationI, unfold retry_run_def, erule guarded_stepI) (auto intro!: requeue_settles)

interpretation marking: fenced_operation "\<lambda>db run worker now. mark_running db run worker lease now" for lease
  by (rule fenced_operationI, unfold mark_running_def, erule guarded_stepI)
    (auto intro!: active_update_settles simp: same_run_def running_active)

interpretation retrying_host: fenced_operation
    "\<lambda>db run worker now. retry_pre_request_failure db run worker code available_at now" for code available_at
  by (rule fenced_operationI, unfold retry_pre_request_failure_def bindr_Inr_iff, elim exE conjE, erule guarded_stepI)
    (auto intro!: requeue_settles host_failure_settles)

lemma failure_tail_settles: "runs_settle db (update_generations run now (fail_occurrence_of src run now db))"
  by (rule runs_settle_trans[OF fail_occurrence_of_settles runs_settle_same]) simp

lemma failure_step:
  assumes "guarded_update run (\<lambda>r. owned worker now r \<and> is_active r) (fail_row code message now b) db = Inr db1"
    "db_runs db2 = db_runs db1"
  shows "guarded_step db run worker now (update_generations run now (fail_occurrence_of src run now db2))"
  by (rule guarded_stepI[OF assms(1) refl])
    (auto intro: runs_settle_trans[OF runs_settle_same[OF assms(2)] failure_tail_settles] fail_row_settles)

interpretation failing_host: fenced_operation
    "\<lambda>db run worker now. fail_pre_request_failure db run worker code message now" for code message
  by (rule fenced_operationI)
    (auto simp: fail_pre_request_failure_def bindr_Inr_iff record_host_failure_runs split: prod.splits intro!: failure_step)

interpretation failing: fenced_operation "\<lambda>db run worker now. fail_run db run worker code message now" for code message
  by (rule fenced_operationI)
    (auto simp: fail_run_def bindr_Inr_iff Let_def split: prod.splits intro!: failure_step)

interpretation failing_remote: fenced_operation
    "\<lambda>db run worker now. fail_remote_unknown db run worker code message now open_until" for code message open_until
  by (rule fenced_operationI)
    (auto simp: fail_remote_unknown_def bindr_Inr_iff Let_def split: prod.splits if_splits intro!: failure_step)

interpretation consistency: fenced_operation
    "\<lambda>db run worker now. set_source_consistency db run worker mode now" for mode
proof (rule fenced_operationI)
  fix db run worker now db'
  assume "set_source_consistency db run worker mode now = Inr db'"
  then show "guarded_step db run worker now db'"
    by (auto simp: set_source_consistency_def split: if_splits elim!: guarded_stepI
      intro!: active_update_settles simp: same_run_def running_active)
qed

interpretation preparing: fenced_operation "\<lambda>db run worker now. prepare_chunks db run worker manifests now" for manifests
  by (rule fenced_operationI, unfold prepare_chunks_def bindr_Inr_iff, elim exE conjE, erule guarded_stepI)
    (auto intro!: active_update_settles runs_settle_same simp: same_run_def running_active)

lemma complete_run_Inr:
  assumes "complete_run encoded_length db run worker summary persist_rows now = Inr db'"
  shows "\<exists>stored dash db1. db_runs db' = db_runs db1 \<and>
    guarded_update run (\<lambda>r. r_claimed_by r = Some worker \<and> r_status r = StatusRunning)
      (complete_row summary dash now (now + 24 * hour)) (db\<lparr>db_result_rows := stored\<rparr>) = Inr db1"
  using assms unfolding complete_run_def Let_def
  by (simp add: bindr_Inr_iff split: option.splits; elim exE conjE; intro exI conjI; (assumption | auto))

interpretation completing: fenced_operation
    "\<lambda>db run worker now. complete_run encoded_length db run worker summary persist_rows now"
  for encoded_length summary persist_rows
proof unfold_locales
  fix db run worker now db'
  assume a: "complete_run encoded_length db run worker summary persist_rows now = Inr db'"
  let ?p = "\<lambda>r. r_id r = run \<and> owned worker now r \<and> r_status r = StatusRunning"
  from a obtain r where "find_where ?p (db_runs db) = Some r"
    by (auto simp: complete_run_def split: option.splits)
  from find_where_Some[OF this] show "holds_lease db run worker now"
    by (fastforce simp: holds_lease_def owned_def opt_rel_def running_active split: option.splits)
  from complete_run_Inr[OF a] obtain stored dash db1 where e: "db_runs db' = db_runs db1"
    and g: "guarded_update run (\<lambda>r. r_claimed_by r = Some worker \<and> r_status r = StatusRunning)
         (complete_row summary dash now (now + 24 * hour)) (db\<lparr>db_result_rows := stored\<rparr>) = Inr db1"
    by (elim exE conjE)
  have "runs_settle (db\<lparr>db_result_rows := stored\<rparr>) db1"
    by (rule guarded_settles[OF g]) (simp add: complete_row_settles)
  then show "runs_settle db db'" by (simp add: runs_settle_def e)
qed

lemma run_owned_holds: "run_owned db run worker now \<Longrightarrow> holds_lease db run worker now"
  by (fastforce simp: run_owned_def list_ex_iff holds_lease_def owned_def opt_rel_def running_active
    split: option.splits)

lemma chunk_update_Inr:
  assumes "chunk_update db run worker number st f now = Inr db'"
  shows "run_owned db run worker now \<and> db_runs db' = db_runs db"
proof -
  have "\<exists>c \<in> set (db_chunks db). run_owned db run worker now"
    using assms count_where_pos_iff[of "\<lambda>c. ch_run c = run \<and> ch_number c = number \<and> run_owned db run worker now
      \<and> ch_status c = st" "db_chunks db"] by (auto simp: chunk_update_def Let_def split: if_splits)
  with assms show ?thesis by (auto simp: chunk_update_def Let_def split: if_splits)
qed

lemma chunk_update_fenced: "fenced_operation (\<lambda>db run worker now. chunk_update db run worker number st (f now) now)"
  by unfold_locales (auto dest!: chunk_update_Inr intro: run_owned_holds runs_settle_same)

interpretation starting_chunk: fenced_operation "\<lambda>db run worker now. start_chunk db run worker number now" for number
  unfolding start_chunk_def by (rule chunk_update_fenced)

interpretation failing_chunk: fenced_operation "\<lambda>db run worker now. fail_chunk db run worker number code now"
  for number code
  unfolding fail_chunk_def by (rule chunk_update_fenced)

interpretation completing_chunk: fenced_operation
    "\<lambda>db run worker now. complete_chunk db run worker number encoded row_count now" for number encoded row_count
proof (rule fenced_operationI)
  fix db run worker now db'
  assume "complete_chunk db run worker number encoded row_count now = Inr db'"
  then obtain db1 where c: "db_runs db1 = db_runs db" and g: "guarded_update run
      (\<lambda>r. owned worker now r \<and> r_status r = StatusRunning)
      (\<lambda>r. r\<lparr>r_completed_chunks := r_completed_chunks r + 1, r_updated_at := now\<rparr>) db1 = Inr db'"
    by (auto simp: complete_chunk_def bindr_Inr_iff split: if_splits dest!: chunk_update_Inr)
  show "guarded_step db run worker now db'"
    by (rule guarded_stepI[OF g c]) (auto intro!: active_update_settles simp: same_run_def running_active)
qed

end
