(* ===== verification/RunLimits.thy ===== *)
theory RunLimits
  imports RunQueue
begin

text \<open>
  The transactions of the run store as steps of a transition system, and what holds in every database
  the system reaches: ids stay unique, claimed and running rows carry a worker and a lease, a tenant
  has at most one active run, and the limits on the queries of the whole installation hold.  A step
  is one transaction; a claim that selects on an older snapshot is treated separately.
\<close>

section \<open>The steps\<close>

text \<open>The operations of a worker on the run it has claimed.\<close>

datatype worker_op =
    Extend duration
  | Progress progress_phase int int
  | Retry string instant
  | RetryPreRequest string instant
  | FailPreRequest string string
  | Mark duration
  | Complete summary_result bool
  | Fail string string
  | FailRemote string string instant
  | SetConsistency source_consistency
  | PrepareChunks "chunk_manifest list"
  | StartChunk nat
  | CompleteChunk nat string int
  | FailChunk nat string

fun run_op :: "(dashboard \<Rightarrow> nat) \<Rightarrow> worker_op \<Rightarrow> db \<Rightarrow> uuid \<Rightarrow> string \<Rightarrow> instant \<Rightarrow> run_error + db" where
  "run_op enc (Extend lease) db run worker now = extend_lease db run worker lease now"
| "run_op enc (Progress phase completed steps) db run worker now = update_progress db run worker phase completed steps now"
| "run_op enc (Retry code avail) db run worker now = retry_run db run worker code avail now"
| "run_op enc (RetryPreRequest code avail) db run worker now = retry_pre_request_failure db run worker code avail now"
| "run_op enc (FailPreRequest code message) db run worker now = fail_pre_request_failure db run worker code message now"
| "run_op enc (Mark lease) db run worker now = mark_running db run worker lease now"
| "run_op enc (Complete summary persist) db run worker now = complete_run enc db run worker summary persist now"
| "run_op enc (Fail code message) db run worker now = fail_run db run worker code message now"
| "run_op enc (FailRemote code message until) db run worker now = fail_remote_unknown db run worker code message now until"
| "run_op enc (SetConsistency mode) db run worker now = set_source_consistency db run worker mode now"
| "run_op enc (PrepareChunks manifests) db run worker now = prepare_chunks db run worker manifests now"
| "run_op enc (StartChunk number) db run worker now = start_chunk db run worker number now"
| "run_op enc (CompleteChunk number encoded n) db run worker now = complete_chunk db run worker number encoded n now"
| "run_op enc (FailChunk number code) db run worker now = fail_chunk db run worker number code now"

lemmas operation_fences = extending.fence progressing.fence retrying.fence retrying_host.fence failing_host.fence
  marking.fence completing.fence failing.fence failing_remote.fence consistency.fence
  preparing.fence starting_chunk.fence completing_chunk.fence failing_chunk.fence

lemmas operation_settles = extending.settle progressing.settle retrying.settle retrying_host.settle failing_host.settle
  marking.settle completing.settle failing.settle failing_remote.settle consistency.settle
  preparing.settle starting_chunk.settle completing_chunk.settle failing_chunk.settle

interpretation working: fenced_operation "run_op enc op" for enc op
proof unfold_locales
  fix db run worker now db'
  assume a: "run_op enc op db run worker now = Inr db'"
  show "holds_lease db run worker now" using a by (cases op; simp; elim operation_fences)
  show "runs_settle db db'" using a by (cases op; simp; elim operation_settles)
qed

text \<open>environment: a statement of another store, which leaves report_runs alone.\<close>

inductive queue_step :: "store_config \<Rightarrow> db \<Rightarrow> db \<Rightarrow> bool" for cfg where
  enqueued: "enqueue db cfg i new_id now = Inr (db', r) \<Longrightarrow> new_id \<notin> r_id ` set (db_runs db) \<Longrightarrow> queue_step cfg db db'"
| cancelled: "cancel_run db run now = Inr (db', r) \<Longrightarrow> queue_step cfg db db'"
| claimed: "claim_run cfg db locked worker lease now = Inr (db', r) \<Longrightarrow> queue_step cfg db db'"
| recovered: "recover_expired_leases db locked now = (db', recovery) \<Longrightarrow> queue_step cfg db db'"
| worked: "run_op enc op db run worker now = Inr db' \<Longrightarrow> queue_step cfg db db'"
| environment: "db_runs db' = db_runs db \<Longrightarrow> queue_step cfg db db'"

inductive_cases queue_stepE: "queue_step cfg db db'"

inductive reachable :: "store_config \<Rightarrow> db \<Rightarrow> bool" for cfg where
  empty: "db_runs db = [] \<Longrightarrow> reachable cfg db"
| step: "reachable cfg db \<Longrightarrow> queue_step cfg db db' \<Longrightarrow> reachable cfg db'"

section \<open>The invariant\<close>

definition active_of :: "uuid \<Rightarrow> run_row \<Rightarrow> bool" where
  "active_of tenant r \<longleftrightarrow> is_active r \<and> r_tenant r = tenant"

definition interactive_active :: "run_row \<Rightarrow> bool" where
  "interactive_active r \<longleftrightarrow> is_active r \<and> r_source r \<noteq> SourceSchedule"

definition one_active :: "run_row list \<Rightarrow> bool" where
  "one_active rows \<longleftrightarrow> (\<forall>t. count_where (active_of t) rows \<le> 1)"

definition queue_inv :: "store_config \<Rightarrow> db \<Rightarrow> bool" where
  "queue_inv cfg db \<longleftrightarrow> distinct (map r_id (db_runs db)) \<and> list_all row_wf (db_runs db) \<and> one_active (db_runs db)
     \<and> int (count_where is_active (db_runs db)) \<le> max 0 (cfg_global cfg)
     \<and> int (count_where interactive_active (db_runs db)) \<le> max 1 (cfg_global cfg - 1)"

lemma settle_counts:
  assumes "runs_settle db db'" "\<And>r r'. settles r r' \<Longrightarrow> p r' \<Longrightarrow> p r"
  shows "count_where p (db_runs db') \<le> count_where p (db_runs db)"
  using assms(1) unfolding runs_settle_def
  by (induction rule: list_all2_induct) (auto dest: assms(2))

lemma settle_ids: "runs_settle db db' \<Longrightarrow> map r_id (db_runs db') = map r_id (db_runs db)"
  unfolding runs_settle_def
  by (induction rule: list_all2_induct) (auto simp: settles_def follows_def same_run_def)

lemma settle_wf: "runs_settle db db' \<Longrightarrow> list_all row_wf (db_runs db) \<Longrightarrow> list_all row_wf (db_runs db')"
  unfolding runs_settle_def
  by (induction rule: list_all2_induct) (auto simp: settles_def follows_def)

lemma settles_active:
  assumes "settles r r'"
  shows "is_active r' \<Longrightarrow> is_active r" "active_of t r' \<Longrightarrow> active_of t r" "interactive_active r' \<Longrightarrow> interactive_active r"
  using assms by (auto simp: settles_def follows_def same_run_def active_of_def interactive_active_def)

lemma settle_inv:
  assumes s: "runs_settle db db'" and "queue_inv cfg db"
  shows "queue_inv cfg db'"
proof -
  have "one_active (db_runs db')"
    using assms(2) settle_counts[OF s settles_active(2)] unfolding queue_inv_def one_active_def
    by (meson order_trans)
  moreover have "count_where is_active (db_runs db') \<le> count_where is_active (db_runs db)"
    "count_where interactive_active (db_runs db') \<le> count_where interactive_active (db_runs db)"
    using settle_counts[OF s] settles_active by blast+
  ultimately show ?thesis
    using assms(2) settle_wf[OF s] settle_ids[OF s] unfolding queue_inv_def by auto
qed

section \<open>Enqueue, cancel and recovery\<close>

lemma new_run_simps [simp]:
  "r_id (new_run db cfg i new_id v now) = new_id" "r_status (new_run db cfg i new_id v now) = StatusQueued"
  "r_tenant (new_run db cfg i new_id v now) = in_tenant i" "r_source (new_run db cfg i new_id v now) = in_source i"
  "r_lease (new_run db cfg i new_id v now) = None" "r_claimed_by (new_run db cfg i new_id v now) = None"
  "r_key (new_run db cfg i new_id v now) = in_key i" "r_period (new_run db cfg i new_id v now) = in_period i"
  "r_idempotency (new_run db cfg i new_id v now) = in_idempotency i"
  by (simp_all add: new_run_def Let_def split: prod.splits)

lemma reserve_probe_runs: "reserve_probe db tenant run now = Inr db' \<Longrightarrow> db_runs db' = db_runs db"
  by (auto simp: reserve_probe_def Let_def split: if_splits)

definition enqueue_effect :: "db \<Rightarrow> store_config \<Rightarrow> enqueue_input \<Rightarrow> uuid \<Rightarrow> instant \<Rightarrow> db \<times> run_row \<Rightarrow> bool" where
  "enqueue_effect db cfg i new_id now out \<longleftrightarrow>
     db_runs (fst out) = db_runs db \<and> (\<exists>r \<in> set (db_runs db). snd out = run_view now r)
     \<or> (\<exists>v. db_runs (fst out) = db_runs db @ [new_run db cfg i new_id v now] \<and> snd out = new_run db cfg i new_id v now
          \<and> \<not> list_ex (insert_conflict (snd out)) (db_runs db))"

lemma enqueue_new_effect:
  assumes "enqueue_new db cfg i new_id now probe = Inr out"
  shows "enqueue_effect db cfg i new_id now out"
proof -
  obtain d where d: "find_where (\<lambda>d. d_key d = in_key i) (db_definitions db) = Some d"
    using assms by (auto simp: enqueue_new_def split: option.splits)
  let ?new = "new_run db cfg i new_id (d_version d) now"
  show ?thesis
  proof (cases "list_ex (insert_conflict ?new) (db_runs db)")
    case True
    then have "active_background db i \<noteq> None"
      using assms d by (cases "active_background db i") (auto simp: enqueue_new_def Let_def split: if_splits)
    then obtain r where r: "active_background db i = Some r" by blast
    then have "r \<in> set (db_runs db)" unfolding active_background_def by (blast dest: select_first_Some)
    moreover have "db_runs (fst out) = db_runs db \<and> snd out = run_view now r"
      using assms d True r by (auto simp: enqueue_new_def Let_def bindr_Inr_iff reserve_probe_runs split: if_splits)
    ultimately show ?thesis unfolding enqueue_effect_def by blast
  next
    case False
    then have "db_runs (fst out) = db_runs db @ [?new] \<and> snd out = ?new"
      using assms d by (auto simp: enqueue_new_def Let_def bindr_Inr_iff reserve_probe_runs split: if_splits)
    with False show ?thesis unfolding enqueue_effect_def by auto
  qed
qed

lemma enqueue_cases:
  assumes "enqueue db cfg i new_id now = Inr out"
  shows "enqueue_effect db cfg i new_id now out"
proof -
  consider s where "out = (db, run_view now s)" "s \<in> set (db_runs db)" | probe where "enqueue_new db cfg i new_id now probe = Inr out"
    using assms unfolding enqueue_def Let_def
    by (auto simp: bindr_Inr_iff active_background_def recent_dashboard_def
      dest!: find_where_Some select_first_Some split: if_splits option.splits)
  then show ?thesis
    by cases (fastforce simp: enqueue_effect_def, rule enqueue_new_effect)
qed

lemma count_where_snoc: "\<not> p r \<Longrightarrow> count_where p (rows @ [r]) = count_where p rows"
  by simp

lemma enqueue_inv:
  assumes "enqueue db cfg i new_id now = Inr (db', r)" "new_id \<notin> r_id ` set (db_runs db)" "queue_inv cfg db"
  shows "queue_inv cfg db'"
  using enqueue_cases[OF assms(1)] assms(2,3)
  by (auto simp: enqueue_effect_def queue_inv_def one_active_def active_of_def interactive_active_def
    is_active_def row_wf_def)

lemma cancel_settles:
  assumes "cancel_run db run now = Inr (db', r)" "distinct (map r_id (db_runs db))"
  shows "runs_settle db db'"
proof (cases "db' = db")
  case False
  from assms(1) False obtain s where f: "find_run db run = Some s" and q: "r_status (run_view now s) = StatusQueued"
    and e: "db' = update_run run (\<lambda>_. True) (\<lambda>_. s\<lparr>r_status := StatusCancelled, r_claimed_by := None,
        r_claimed_at := None, r_lease := None, r_finished_at := Some now, r_updated_at := now\<rparr>) db"
    by (auto simp: cancel_run_def Let_def split: option.splits if_splits)
  have s: "s \<in> set (db_runs db)" "r_id s = run" using f find_where_Some unfolding find_run_def by fastforce+
  have "r_status s = StatusQueued" using q by (simp add: run_view_def split: if_splits)
  then have "settles s (s\<lparr>r_status := StatusCancelled, r_claimed_by := None,
        r_claimed_at := None, r_lease := None, r_finished_at := Some now, r_updated_at := now\<rparr>)"
    by (simp add: settle_defs step_paths)
  moreover have "x = s" if "x \<in> set (db_runs db)" "r_id x = run" for x
    using that s assms(2) codes_eq by metis
  ultimately show ?thesis unfolding e by (auto intro: update_run_settles)
qed simp

lemma occurrence_settles_after:
  assumes "fail_scheduled_occurrence failed now db1 = (db2, n)" "db_runs db1 = db_runs db"
  shows "runs_settle db (update_generations run now db2)"
proof -
  have "runs_settle db1 db2" using occurrence_settles[of db1 failed now] assms(1) by simp
  then show ?thesis by (simp add: runs_settle_def assms(2))
qed

lemma recover_one_settles:
  assumes "runs_settle db0 (fst s)"
  shows "runs_settle db0 (fst (recover_one now item s))"
proof -
  obtain db res where s: "s = (db, res)" by (cases s)
  have upd: "runs_settle db (update_run (r_id item) (\<lambda>r. r_status r = StatusRunning \<and> lease_expired now r) (fail_expired now) db)"
      "runs_settle db (update_run (r_id item) (\<lambda>r. r_status r = StatusClaimed \<and> lease_expired now r) (requeue_expired now) db)"
    by (auto intro!: update_run_settles fail_expired_settles requeue_expired_settles simp: running_active)
  have "runs_settle db (fst (recover_one now item (db, res)))"
    unfolding recover_one_def Let_def prod.case
    by (simp add: upd split: prod.splits)
      (auto intro!: runs_settle_trans[OF upd(1)] intro: runs_settle_same occurrence_settles_after)
  then show ?thesis using assms runs_settle_trans unfolding s by simp
qed

lemma recover_settles: "runs_settle db (fst (recover_expired_leases db locked now))"
proof -
  have "runs_settle db (fst (fold (recover_one now) items s))" if "runs_settle db (fst s)" for items s
    using that by (induction items arbitrary: s) (simp_all add: recover_one_settles del: split_paired_All)
  then show ?thesis unfolding recover_expired_leases_def by simp
qed

section \<open>Claim\<close>

lemma claim_row_Inr:
  assumes "claim_row db r worker lease now = Inr (db', c)"
  shows "c = mark_claimed worker lease now r"
    "db_runs db' = update_where (\<lambda>x. r_id x = r_id r) (mark_claimed worker lease now) (db_runs db)"
    "\<And>a. a \<in> set (db_runs db) \<Longrightarrow> r_tenant a = r_tenant r \<Longrightarrow> is_active a \<Longrightarrow> r_id a = r_id r"
  using assms by (auto simp: claim_row_def Let_def list_ex_iff split: if_splits)

lemma mark_claimed_simps [simp]:
  "r_id (mark_claimed worker lease now r) = r_id r" "r_tenant (mark_claimed worker lease now r) = r_tenant r"
  "r_source (mark_claimed worker lease now r) = r_source r" "is_active (mark_claimed worker lease now r)"
  "row_wf (mark_claimed worker lease now r)"
  by (simp_all add: mark_claimed_def is_active_def row_wf_def)

lemma claim_row_shape:
  assumes "claim_row db r worker lease now = Inr (db', c)" "distinct (map r_id (db_runs db))" "list_all row_wf (db_runs db)"
  shows "distinct (map r_id (db_runs db'))" "list_all row_wf (db_runs db')"
    "count_where p (db_runs db') \<le> Suc (count_where p (db_runs db))"
proof -
  note e = claim_row_Inr(2)[OF assms(1)]
  have "map r_id (db_runs db') = map r_id (db_runs db)" unfolding e by (rule map_update_where) simp
  then show "distinct (map r_id (db_runs db'))" using assms(2) by simp
  show "list_all row_wf (db_runs db')" using assms(3) by (auto simp: e list_all_iff set_update_where)
  show "count_where p (db_runs db') \<le> Suc (count_where p (db_runs db))"
    unfolding e by (rule count_where_update_key[OF assms(2)]) simp
qed

text \<open>
  The limit per tenant needs nothing of the snapshot the row was selected on: the row itself is
  locked, hence still queued, and the unique index does the rest.
\<close>

lemma claim_row_one_active:
  assumes c: "claim_row db r worker lease now = Inr (db', c)" and d: "distinct (map r_id (db_runs db))"
    and r: "r \<in> set (db_runs db)" "r_status r = StatusQueued" and o: "one_active (db_runs db)"
  shows "one_active (db_runs db')"
  unfolding one_active_def
proof
  fix t
  note e = claim_row_Inr[OF c]
  have same: "x = r" if "x \<in> set (db_runs db)" "r_id x = r_id r" for x using that r(1) d codes_eq by metis
  show "count_where (active_of t) (db_runs db') \<le> 1"
  proof (cases "t = r_tenant r")
    case True
    have "\<not> active_of t x" if "x \<in> set (db_runs db)" for x
      using e(3)[OF that] same[OF that] r(2) True by (auto simp: active_of_def is_active_def)
    then have "count_where (active_of t) (db_runs db) = 0" by (simp add: count_where_0_iff)
    moreover have "count_where (active_of t) (db_runs db') \<le> Suc (count_where (active_of t) (db_runs db))"
      unfolding e(2) by (rule count_where_update_key[OF d]) simp
    ultimately show ?thesis by simp
  next
    case False
    have "count_where (active_of t) (db_runs db') \<le> count_where (active_of t) (db_runs db)"
      unfolding e(2) using False by (intro count_where_update_le) (auto simp: active_of_def dest!: same)
    with o show ?thesis unfolding one_active_def by (meson order_trans)
  qed
qed

lemma claim_run_Inr:
  assumes "claim_run cfg db locked worker lease now = Inr (db', c)"
  obtains r where "r \<in> set (db_runs db)" "claimable cfg db now r" "r_id r \<notin> set locked"
    "claim_row db r worker lease now = Inr (db', c)" "select_claim cfg db locked now = Some r"
proof -
  from assms obtain r where s: "select_claim cfg db locked now = Some r"
      and c: "claim_row db r worker lease now = Inr (db', c)"
    by (auto simp: claim_run_def split: option.splits)
  with select_first_Some[of _ _ "db_runs db"] that show ?thesis unfolding select_claim_def by blast
qed

lemma claim_inv:
  assumes c: "claim_run cfg db locked worker lease now = Inr (db', c)" and inv: "queue_inv cfg db"
  shows "queue_inv cfg db'"
proof -
  obtain r where r: "r \<in> set (db_runs db)" "claimable cfg db now r" "claim_row db r worker lease now = Inr (db', c)"
    using claim_run_Inr[OF c] by metis
  have d: "distinct (map r_id (db_runs db))" "list_all row_wf (db_runs db)" "one_active (db_runs db)"
    and i: "int (count_where interactive_active (db_runs db)) \<le> max 1 (cfg_global cfg - 1)"
    using inv unfolding queue_inv_def by blast+
  note shape = claim_row_shape[OF r(3) d(1,2)]
  have a: "int (count_where is_active (db_runs db')) \<le> max 0 (cfg_global cfg)"
    using shape(3)[of is_active] r(2) by (simp add: claimable_def)
  have "int (count_where interactive_active (db_runs db')) \<le> max 1 (cfg_global cfg - 1)"
  proof (cases "r_source r = SourceSchedule")
    case True
    have "count_where interactive_active (db_runs db') \<le> count_where interactive_active (db_runs db)"
      unfolding claim_row_Inr(2)[OF r(3)] using True r(1) d(1)
      by (intro count_where_update_le) (auto simp: interactive_active_def codes_eq dest: codes_eq)
    with i show ?thesis by simp
  next
    case False
    then have "int (count_where interactive_active (db_runs db)) < max 1 (cfg_global cfg - 1)"
      using r(2) by (simp add: claimable_def interactive_active_def[abs_def])
    with shape(3)[of interactive_active] show ?thesis by simp
  qed
  with a shape(1,2) claim_row_one_active[OF r(3) d(1) r(1) _ d(3)] r(2) show ?thesis
    unfolding queue_inv_def claimable_def by blast
qed

section \<open>Every reachable database\<close>

lemma queue_step_inv: "queue_step cfg db db' \<Longrightarrow> queue_inv cfg db \<Longrightarrow> queue_inv cfg db'"
proof (induction rule: queue_step.induct)
  case (enqueued db i new_id now db' r) then show ?case by (blast intro: enqueue_inv)
next
  case (cancelled db run now db' r)
  then show ?case using settle_inv[OF cancel_settles] unfolding queue_inv_def by blast
next
  case (claimed db locked worker lease now db' r) then show ?case by (blast intro: claim_inv)
next
  case (recovered db locked now db' recovery)
  then show ?case using settle_inv recover_settles[of db locked now] by simp
next
  case (worked enc op db run worker now db')
  from settle_inv[OF working.settle[OF worked(1)] worked(2)] show ?case .
next
  case (environment db' db) then show ?case by (simp add: queue_inv_def)
qed

lemma reachable_inv: "reachable cfg db \<Longrightarrow> queue_inv cfg db"
proof (induction rule: reachable.induct)
  case (empty db) then show ?case by (simp add: queue_inv_def one_active_def)
qed (rule queue_step_inv)

lemma count_one_eq: "count_where p xs \<le> 1 \<Longrightarrow> x \<in> set xs \<Longrightarrow> y \<in> set xs \<Longrightarrow> p x \<Longrightarrow> p y \<Longrightarrow> x = y"
  by (induction xs) (auto simp: count_where_0_iff split: if_splits)

end
