(* ===== verification/Evaluation.thy ===== *)
theory Evaluation
  imports RunLimits
begin

text \<open>
  Code equations for the examples: the catalogue is read without its labels, and the percentiles of a
  duration estimate are computed on integers.
\<close>

section \<open>The catalogue\<close>

declare keys_eq [code]

lemma definition_known [code_unfold]:
  "definition_for k = None \<longleftrightarrow> k \<notin> set keys" "Option.is_none (definition_for k) \<longleftrightarrow> k \<notin> set keys"
  by (simp_all add: definition_for_None Option.is_none_def split: option.splits)

text \<open>What the keys and priorities of runs take from a definition.\<close>

fun kind_of :: "key \<Rightarrow> parameter_kind" where
  "kind_of StockBalance = AsOfDate"
| "kind_of ARCustomerMovement = AsOfDate"
| "kind_of StockReorder = CurrentOnly"
| "kind_of _ = DateRange"

lemma definition_fields:
  assumes "definition_for k = Some d"
  shows "def_parameter_kind d = kind_of k" "def_version d = ''1.0.0''" "def_refresh_class d = refresh_class_of k"
proof -
  have "\<forall>d \<in> set ordered_definitions. def_parameter_kind d = kind_of (def_key d) \<and> def_version d = ''1.0.0''
      \<and> def_refresh_class d = refresh_class_of (def_key d)"
    by (simp add: ordered_definitions_def)
  then show "def_parameter_kind d = kind_of k" "def_version d = ''1.0.0''" "def_refresh_class d = refresh_class_of k"
    using definition_for_in[OF assms] definition_for_key[OF assms] by blast+
qed

lemma default_priority_code [code]:
  "default_priority i = (if in_priority i = 0
     then (case in_source i of
         SourceSchedule \<Rightarrow> 100
       | SourceDashboard \<Rightarrow> 90
       | _ \<Rightarrow> if in_key i \<in> set keys then if refresh_class_of (in_key i) = RefreshFast then 30
            else if refresh_class_of (in_key i) = RefreshStandard then 25 else 20 else 20)
     else in_priority i)"
  using definition_for_None[of "in_key i"]
  by (cases "definition_for (in_key i)") (simp_all add: default_priority_def definition_fields split: source.split)

section \<open>Duration estimates\<close>

definition duration_ns :: "run_row \<Rightarrow> int option" where
  "duration_ns r = (case (r_started_at r, r_finished_at r) of (Some s, Some f) \<Rightarrow> Some (f - s) | _ \<Rightarrow> None)"

lemma duration_ms_ns: "duration_ms r = map_option (\<lambda>i. of_int i / 1000000) (duration_ns r)"
  by (simp add: duration_ms_def duration_ns_def split: option.split)

text \<open>The a/b percentile, in units of 1/b of a nanosecond, and its milliseconds.\<close>

definition percentile_ns :: "int \<Rightarrow> int \<Rightarrow> int list \<Rightarrow> int" where
  "percentile_ns a b xs = (let ys = sort xs; n = a * int (length ys - 1); lo = nat (n div b); hi = nat (- ((- n) div b))
     in b * ys ! lo + (n mod b) * (ys ! hi - ys ! lo))"

definition trunc_div :: "int \<Rightarrow> int \<Rightarrow> int" where
  "trunc_div x d = (if x < 0 then - ((- x) div d) else x div d)"

lemma floor_rat: "\<lfloor>of_int x / of_int d :: rat\<rfloor> = x div d"
  by (rule floor_divide_of_int_eq)

lemma rat_trunc_div:
  assumes "0 < d" shows "rat_trunc (of_int x / of_int d) = trunc_div x d"
proof -
  have "\<lfloor>- (of_int x / of_int d) :: rat\<rfloor> = - x div d"
    using floor_rat[of "- x" d] by simp
  then show ?thesis using assms by (auto simp: rat_trunc_def trunc_div_def floor_rat divide_less_0_iff)
qed

lemma sort_map_mono: "(\<And>x y. f x \<le> f y \<longleftrightarrow> x \<le> y) \<Longrightarrow> sort (map f xs) = map f (sort xs)"
  by (rule properties_for_sort) (auto simp: sorted_map intro: sorted_wrt_mono_rel[OF _ sorted_sort])

lemma percentile_ms:
  assumes "0 < a" "a < b" "xs \<noteq> []"
  shows "percentile_cont (of_int a / of_int b) (map (\<lambda>i. of_int i / 1000000) xs) = of_int (percentile_ns a b xs) / of_int (b * 1000000)"
proof -
  let ?f = "\<lambda>i. of_int i / 1000000 :: rat" and ?ys = "sort xs"
  define n where "n = a * int (length xs - 1)"
  have n: "0 \<le> n" using assms by (simp add: n_def)
  have pos: "of_int a / of_int b * of_nat (length xs - 1) = (of_int n / of_int b :: rat)" by (simp add: n_def)
  have lo: "\<lfloor>of_int n / of_int b :: rat\<rfloor> = n div b" by (rule floor_divide_of_int_eq)
  have hi: "\<lceil>of_int n / of_int b :: rat\<rceil> = - (- n div b)"
    using floor_rat[of "- n" b] by (simp add: ceiling_def)
  have last: "n \<le> b * int (length xs - 1)"
    unfolding n_def by (rule mult_right_mono) (use assms in auto)
  have "n div b \<le> int (length xs - 1)" "- (- n div b) \<le> int (length xs - 1)"
  proof -
    show "n div b \<le> int (length xs - 1)" using zdiv_mono1[OF last, of b] assms by simp
    have "- int (length xs - 1) \<le> - n div b" using zdiv_mono1[of "(- int (length xs - 1)) * b" "- n" b] last assms
      by (simp only: nonzero_mult_div_cancel_right) (simp add: mult.commute)
    then show "- (- n div b) \<le> int (length xs - 1)" by simp
  qed
  then have idx: "nat (n div b) < length ?ys" "nat (- (- n div b)) < length ?ys" using assms by (cases xs; auto)+
  have frac: "of_int n / of_int b - of_nat (nat (n div b)) = (of_int (n mod b) / of_int b :: rat)"
  proof -
    have "0 \<le> n div b" using n assms by (simp add: pos_imp_zdiv_nonneg_iff)
    moreover have "(of_int n :: rat) = of_int b * of_int (n div b) + of_int (n mod b)"
      by (metis mult_div_mod_eq of_int_add of_int_mult)
    ultimately show ?thesis using assms by (simp add: field_simps)
  qed
  have srt: "sort (map ?f xs) = map ?f ?ys" by (rule sort_map_mono) (simp add: divide_le_cancel)
  have "percentile_cont (of_int a / of_int b) (map ?f xs) =
      ?f (?ys ! nat (n div b)) + of_int (n mod b) / of_int b * (?f (?ys ! nat (- (- n div b))) - ?f (?ys ! nat (n div b)))"
    unfolding percentile_cont_def Let_def srt length_map length_sort pos lo hi frac using idx by simp
  also have "\<dots> = of_int (percentile_ns a b xs) / of_int (b * 1000000)"
  proof -
    have "percentile_ns a b xs = b * ?ys ! nat (n div b) + (n mod b) * (?ys ! nat (- (- n div b)) - ?ys ! nat (n div b))"
      by (simp only: percentile_ns_def Let_def length_sort flip: n_def)
    then show ?thesis using assms by (simp only: of_int_add of_int_mult of_int_diff) (simp add: field_simps)
  qed
  finally show ?thesis .
qed

lemma percentile_trunc:
  assumes "0 < a" "a < b" "xs \<noteq> []"
  shows "rat_trunc (percentile_cont (of_int a / of_int b) (map (\<lambda>i. of_int i / 1000000) xs)) = trunc_div (percentile_ns a b xs) (b * 1000000)"
  unfolding percentile_ms[OF assms] by (rule rat_trunc_div) (use assms in simp)

lemma load_duration_estimate_code [code]:
  "load_duration_estimate db tenant k p = (case (parse_date (date_from p), parse_date (date_to p)) of
     (Some f, Some t) \<Rightarrow> (let (lo, hi) = duration_bounds (days_between f t + 1);
        recent = take 30 (sort_by (\<lambda>a b. coalesce (r_finished_at a) 0 > coalesce (r_finished_at b) 0)
          (filter (\<lambda>r. r_tenant r = tenant \<and> r_key r = k \<and> r_status r = StatusSucceeded
             \<and> \<not> Option.is_none (duration_ns r)
             \<and> opt_rel (\<lambda>n. lo \<le> n \<and> n \<le> hi) (period_length (r_period r))) (db_runs db)));
        ds = map (\<lambda>r. coalesce (duration_ns r) 0) recent
      in if length ds < 5 then (0, 0, int (length ds))
         else (trunc_div (percentile_ns 1 2 ds) 2000000, trunc_div (percentile_ns 9 10 ds) 10000000, int (length ds)))
   | _ \<Rightarrow> (0, 0, 0))"
proof -
  have c: "coalesce (map_option (\<lambda>i. of_int i / 1000000 :: rat) x) 0 = of_int (coalesce x 0) / 1000000" for x
    by (cases x) (simp_all add: coalesce_def)
  have m: "map (\<lambda>r. coalesce (duration_ms r) 0) rs = map (\<lambda>i. of_int i / 1000000) (map (\<lambda>r. coalesce (duration_ns r) 0) rs)" for rs
    by (simp add: duration_ms_ns c)
  have half: "rat_trunc (percentile_cont (1 / 2) (map (\<lambda>i. of_int i / 1000000) xs)) = trunc_div (percentile_ns 1 2 xs) 2000000"
    if "\<not> length xs < 5" for xs
    using percentile_trunc[of 1 2 xs] that
    by (cases "xs = []") simp_all
  have ninety: "rat_trunc (percentile_cont (9 / 10) (map (\<lambda>i. of_int i / 1000000) xs)) = trunc_div (percentile_ns 9 10 xs) 10000000"
    if "\<not> length xs < 5" for xs
    using percentile_trunc[of 9 10 xs] that
    by (cases "xs = []") simp_all
  show ?thesis
    unfolding load_duration_estimate_def m
    by (auto simp: Let_def half ninety duration_ms_ns Option.is_none_def simp del: map_map split: option.splits prod.splits)
qed

section \<open>Sizes\<close>

text \<open>The limit is compared as an integer, so that evaluation does not count to it.\<close>

lemma stamp_dashboard_code [code]:
  "stamp_dashboard encoded_length k now dash = (case dash of
     None \<Rightarrow> Inr None
   | Some d \<Rightarrow> if dash_report_key d \<noteq> k \<or> dash_version d = ''''
       then Inl (ErrRun ''dashboard identity does not match report run'')
       else (let stamped = d\<lparr>dash_generated_at := Some now\<rparr> in
         if int (encoded_length stamped) > 131072 then Inl (ErrRun ''report dashboard exceeds 128 KiB'')
         else Inr (Some stamped)))"
  by (simp add: stamp_dashboard_def Let_def split: option.splits)

end
