(* ===== verification/Sample.thy ===== *)
theory Sample
  imports Evaluation
begin

text \<open>
  A small installation on which the properties of the run store are evaluated: one tenant with a
  connection, a recipient allowed to read one report, the definitions and no run.
\<close>

definition empty_db :: db where
  "empty_db = \<lparr>db_runs = [], db_circuits = [], db_host_circuits = [], db_connections = [], db_definitions = [],
     db_tenants = [], db_runtime = [], db_permissions = [], db_memberships = [], db_recipients = [],
     db_schedules = [], db_notifications = [], db_notification_links = [], db_generations = [],
     db_generation_links = [], db_heads = [], db_refreshes = [], db_refresh_links = [], db_chunks = [],
     db_result_rows = [], db_invitations = [],
     db_deliveries = [], db_outbox = [], db_access_links = [], db_quota = [], db_idempotency = []\<rparr>"

definition sample_db :: db where
  "sample_db = empty_db\<lparr>
     db_connections := [\<lparr>k_tenant = 1, k_host = ''sml.example'', k_version = 1,
       k_readiness = ReadinessReady, k_last_tested_at = Some 0\<rparr>],
     db_definitions := [\<lparr>d_key = SalesGoodsServices, d_version = ''1.0.0''\<rparr>],
     db_tenants := [\<lparr>t_id = 1, t_slug = ''tenant'', t_name = ''Tenant'', t_timezone = ''Asia/Bangkok'', t_status = TenantActive, t_access_ends_at = 1000 * hour, t_version = 1, t_created_at = 0, t_updated_at = 0, t_archived_at = None\<rparr>],
     db_permissions := [\<lparr>p_tenant = 1, p_recipient = 7, p_key = SalesGoodsServices\<rparr>],
     db_memberships := [\<lparr>m_tenant = 1, m_recipient = 7, m_status = RecipientActive, m_permissions_version = 1, m_updated_at = 0\<rparr>],
     db_recipients := [\<lparr>u_id = 7, u_line_hash = Some ''h7'', u_line_user = Some ''u7'', u_display_name = ''n7'', u_status = RecipientActive,
       u_verified_at = Some 0, u_created_at = 0, u_updated_at = 0\<rparr>]\<rparr>"

definition sample_config :: store_config where
  "sample_config = new_report_store (\<lambda>_. '''') (\<lambda>_ _. ''v1'')"

definition sample_input :: enqueue_input where
  "sample_input = \<lparr>in_tenant = 1, in_key = SalesGoodsServices, in_source = SourceDashboard,
     in_idempotency = ''request-1'', in_period = \<lparr>preset = Yesterday, date_from = ''2025-03-04'', date_to = ''2025-03-04''\<rparr>,
     in_recipient = Some 7, in_kind = ResultSummary, in_priority = 0, in_execution_key = ''''\<rparr>"

text \<open>A request, its claim and its start.\<close>

definition queued_db :: db where
  "queued_db = (case enqueue sample_db sample_config sample_input 100 (10 * hour) of Inr (db, _) \<Rightarrow> db | _ \<Rightarrow> empty_db)"

definition claimed_db :: db where
  "claimed_db = (case claim_run sample_config queued_db [] ''w1'' minute (10 * hour + second) of
     Inr (db, _) \<Rightarrow> db | _ \<Rightarrow> empty_db)"

definition running_db :: db where
  "running_db = (case mark_running claimed_db 100 ''w1'' minute (10 * hour + 2 * second) of
     Inr db \<Rightarrow> db | _ \<Rightarrow> empty_db)"

lemma evaluated: "(case x of Inr y \<Rightarrow> P y | Inl _ \<Rightarrow> False) \<Longrightarrow> \<exists>y. x = Inr y \<and> P y"
  by (cases x) auto

lemma evaluated_option: "(case x of None \<Rightarrow> False | Some y \<Rightarrow> P y) \<Longrightarrow> \<exists>y. x = Some y \<and> P y"
  by (cases x) auto

lemma sample_steps:
  "queue_step sample_config sample_db queued_db" "queue_step sample_config queued_db claimed_db"
  "queue_step sample_config claimed_db running_db"
proof -
  have "\<not> isl (enqueue sample_db sample_config sample_input 100 (10 * hour))" by code_simp
  then obtain r where "enqueue sample_db sample_config sample_input 100 (10 * hour) = Inr (queued_db, r)"
    by (cases "enqueue sample_db sample_config sample_input 100 (10 * hour)") (auto simp: queued_db_def)
  moreover have "100 \<notin> r_id ` set (db_runs sample_db)" by code_simp
  ultimately show "queue_step sample_config sample_db queued_db" by (rule enqueued)
  have "\<not> isl (claim_run sample_config queued_db [] ''w1'' minute (10 * hour + second))" by code_simp
  then obtain r where "claim_run sample_config queued_db [] ''w1'' minute (10 * hour + second) = Inr (claimed_db, r)"
    by (cases "claim_run sample_config queued_db [] ''w1'' minute (10 * hour + second)") (auto simp: claimed_db_def)
  then show "queue_step sample_config queued_db claimed_db" by (rule claimed)
  have "\<not> isl (mark_running claimed_db 100 ''w1'' minute (10 * hour + 2 * second))" by code_simp
  then have "run_op (\<lambda>_. 0) (Mark minute) claimed_db 100 ''w1'' (10 * hour + 2 * second) = Inr running_db"
    by (cases "mark_running claimed_db 100 ''w1'' minute (10 * hour + 2 * second)") (auto simp: running_db_def)
  then show "queue_step sample_config claimed_db running_db" by (rule worked)
qed

lemma sample_reachable: "reachable sample_config queued_db" "reachable sample_config claimed_db"
  "reachable sample_config running_db"
proof -
  have "reachable sample_config sample_db" by (rule reachable.empty) (simp add: sample_db_def empty_db_def)
  then show "reachable sample_config queued_db" by (rule reachable.step) (rule sample_steps)
  then show "reachable sample_config claimed_db" by (rule reachable.step) (rule sample_steps)
  then show "reachable sample_config running_db" by (rule reachable.step) (rule sample_steps)
qed

end
