(* ===== verification/RunProps.thy ===== *)
theory RunProps
  imports Sample
begin

text \<open>
  The properties of the queue of report runs: the limits, the lease fence, the status machine,
  the order of claims, idempotent requests, the circuits and the recovery of expired leases.
\<close>

section \<open>Limits and fences\<close>



text \<open>C2: An operation of a worker succeeds only while that worker's lease on the run is unexpired,
  and every run follows the status machine under it: terminal runs are left alone, no run becomes
  active, progress and attempts never go back.\<close>

theorem worker_operations_fenced:
  assumes "run_op enc op db run worker now = Inr db'"
  shows "holds_lease db run worker now \<and> list_all2 settles (db_runs db) (db_runs db')"
  using working.fence[OF assms] working.settle[OF assms] by (simp add: runs_settle_def)

lemma worker_operations_fenced_witness:
  "\<exists>db'. run_op (\<lambda>_. 0) (Fail ''SML_TIMEOUT'' ''late'') running_db 100 ''w1'' (10 * hour + 3 * second) = Inr db'
     \<and> map r_status (db_runs db') = [StatusFailed] \<and> holds_lease running_db 100 ''w1'' (10 * hour + 3 * second)"
proof -
  have "\<exists>db'. run_op (\<lambda>_. 0) (Fail ''SML_TIMEOUT'' ''late'') running_db 100 ''w1'' (10 * hour + 3 * second) = Inr db'
      \<and> map r_status (db_runs db') = [StatusFailed]"
    by (rule evaluated) code_simp
  then obtain db' where d: "run_op (\<lambda>_. 0) (Fail ''SML_TIMEOUT'' ''late'') running_db 100 ''w1''
      (10 * hour + 3 * second) = Inr db'" "map r_status (db_runs db') = [StatusFailed]"
    by (elim exE conjE)
  then show ?thesis using worker_operations_fenced[OF d(1)] by (intro exI conjI) auto
qed

text \<open>A worker whose claim was taken over, or whose lease has run out, can change nothing.\<close>

theorem stale_worker_refused:
  assumes "find_run db run = Some r" "distinct (map r_id (db_runs db))"
    "r_claimed_by r \<noteq> Some worker \<or> \<not> is_active r \<or> opt_rel (\<lambda>l. l < now) (r_lease r)"
  shows "isl (run_op enc op db run worker now)"
proof (cases "run_op enc op db run worker now")
  case (Inr db')
  have "r \<in> set (db_runs db)" "r_id r = run" using assms(1) find_where_Some by (fastforce simp: find_run_def)+
  then have "s = r" if "s \<in> set (db_runs db)" "r_id s = run" for s using that assms(2) codes_eq by metis
  with working.fence[OF Inr] assms(3) show ?thesis
    by (auto simp: holds_lease_def opt_rel_def split: option.splits)
qed simp

lemma stale_worker_refused_witness:
  "isl (run_op (\<lambda>_. 0) (Retry ''SML_TIMEOUT'' (11 * hour)) running_db 100 ''w2'' (10 * hour + 3 * second))"
proof -
  have "distinct (map r_id (db_runs running_db))" by code_simp
  moreover have "map_option r_claimed_by (find_run running_db 100) = Some (Some ''w1'')" by code_simp
  then obtain r where "find_run running_db 100 = Some r" "r_claimed_by r \<noteq> Some ''w2''" by auto
  ultimately show ?thesis by (intro stale_worker_refused) auto
qed

section \<open>The life of a run\<close>

definition runs_follow :: "db \<Rightarrow> db \<Rightarrow> bool" where
  "runs_follow db db' \<longleftrightarrow> (\<forall>r \<in> set (db_runs db). \<exists>r' \<in> set (db_runs db'). follows r r')"

lemma settle_follow: "runs_settle db db' \<Longrightarrow> runs_follow db db'"
  unfolding runs_settle_def runs_follow_def
  by (induction rule: list_all2_induct) (auto simp: settles_def)

lemma runs_follow_trans: "runs_follow a b \<Longrightarrow> runs_follow b c \<Longrightarrow> runs_follow a c"
  unfolding runs_follow_def using follows_trans by blast

lemma mark_claimed_follows: "r_status r = StatusQueued \<Longrightarrow> follows r (mark_claimed worker lease now r)"
  by (simp add: mark_claimed_def settle_defs step_paths)

lemma claim_follow:
  assumes "claim_run cfg db locked worker lease now = Inr (db', c)" "distinct (map r_id (db_runs db))"
  shows "runs_follow db db'"
proof -
  obtain r where r: "r \<in> set (db_runs db)" "r_status r = StatusQueued"
      "claim_row db r worker lease now = Inr (db', c)"
    using claim_run_Inr[OF assms(1)] unfolding claimable_def by metis
  have "follows x (if r_id x = r_id r then mark_claimed worker lease now x else x)" if "x \<in> set (db_runs db)" for x
    using mark_claimed_follows[OF r(2)] codes_eq[OF assms(2) that r(1)] by auto
  then show ?thesis unfolding runs_follow_def claim_row_Inr(2)[OF r(3)] set_update_where by blast
qed

lemma queue_step_follow: "queue_step cfg db db' \<Longrightarrow> queue_inv cfg db \<Longrightarrow> runs_follow db db'"
proof (induction rule: queue_step.induct)
  case (enqueued db i new_id now db' r)
  from enqueue_cases[OF enqueued(1)] show ?case
    by (auto simp: enqueue_effect_def runs_follow_def intro: follows_refl)
next
  case (cancelled db run now db' r)
  then show ?case using settle_follow[OF cancel_settles] unfolding queue_inv_def by blast
next
  case (claimed db locked worker lease now db' r)
  then show ?case using claim_follow unfolding queue_inv_def by blast
next
  case (recovered db locked now db' recovery)
  then show ?case using settle_follow recover_settles[of db locked now] by simp
next
  case (worked enc op db run worker now db')
  from settle_follow[OF working.settle[OF worked(1)]] show ?case .
next
  case (environment db' db) then show ?case by (auto simp: runs_follow_def intro: follows_refl)
qed



section \<open>The order of claims\<close>

lemma instant_before_total: "x \<noteq> y \<Longrightarrow> instant_before x y \<longleftrightarrow> \<not> instant_before y x"
  by (cases x; cases y) auto

lemma instant_before_trans: "instant_before x y \<Longrightarrow> instant_before y z \<Longrightarrow> instant_before x z"
  by (cases x; cases y; cases z) auto

lemma instant_before_irrefl: "\<not> instant_before x x"
  by (cases x) auto

lemma claim_before_order: "weak_order (claim_before db now)"
proof -
  have base: "weak_order (\<lambda>a b. r_id a < r_id b)" by (rule weak_orderI) auto
  have "weak_order (\<lambda>a b. if r_queued_at a \<noteq> r_queued_at b then r_queued_at a < r_queued_at b else r_id a < r_id b)"
    by (rule weak_order_lex[OF base]) auto
  from weak_order_lex[where lt = instant_before and f = "\<lambda>r. last_claimed db (r_tenant r)",
      OF this instant_before_total instant_before_trans instant_before_irrefl]
  have "weak_order (\<lambda>a b. if last_claimed db (r_tenant a) \<noteq> last_claimed db (r_tenant b)
      then instant_before (last_claimed db (r_tenant a)) (last_claimed db (r_tenant b))
      else if r_queued_at a \<noteq> r_queued_at b then r_queued_at a < r_queued_at b else r_id a < r_id b)" .
  note rest = this
  have "weak_order (\<lambda>a b. if effective_priority now a \<noteq> effective_priority now b
      then effective_priority now a > effective_priority now b
      else if last_claimed db (r_tenant a) \<noteq> last_claimed db (r_tenant b)
      then instant_before (last_claimed db (r_tenant a)) (last_claimed db (r_tenant b))
      else if r_queued_at a \<noteq> r_queued_at b then r_queued_at a < r_queued_at b else r_id a < r_id b)"
    by (rule weak_order_lex[where lt = "\<lambda>a b. b < a" and f = "effective_priority now", OF rest]) (auto simp: not_less)
  then show ?thesis unfolding claim_before_def[abs_def] Let_def .
qed

lemma effective_priority_bounds: "r_priority r \<le> effective_priority now r" "effective_priority now r \<le> max (r_priority r) 99"
  by (auto simp: effective_priority_def)

text \<open>Two requests of two tenants that have waited for three hours.\<close>

definition waiting_row :: "uuid \<Rightarrow> run_row" where
  "waiting_row n = (new_run sample_db sample_config sample_input n ''1.0.0'' 0)\<lparr>r_tenant := n\<rparr>"

definition waiting_db :: db where
  "waiting_db = empty_db\<lparr>db_runs := [waiting_row 2, waiting_row 1]\<rparr>"

lemma waiting_claim:
  "\<exists>p. claim_run sample_config waiting_db [] ''w1'' minute (3 * hour) = Inr p
     \<and> r_id (snd p) = 1 \<and> r_priority (snd p) = 90"
  by (rule evaluated) code_simp


text \<open>Waiting raises the effective priority of a run by one every ten minutes, up to 99: a run
  that has waited (99 - priority) * 10 minutes is on a par with every interactive run, so among
  interactive runs it can only lose to one as old or to a tenant served less recently.\<close>

theorem waiting_run_catches_up:
  assumes "claim_run cfg db locked worker lease now = Inr (db', c)" "s \<in> set (db_runs db)" "claimable cfg db now s"
    "r_id s \<notin> set locked" "(99 - r_priority s) * (600 * second) \<le> now - r_queued_at s" "r_priority c \<le> 99"
    "r_id c \<noteq> r_id s"
  shows "effective_priority now s \<ge> 99 \<and> effective_priority now c = 99 \<and>
    (last_claimed db (r_tenant c) \<noteq> last_claimed db (r_tenant s)
       \<and> instant_before (last_claimed db (r_tenant c)) (last_claimed db (r_tenant s))
     \<or> last_claimed db (r_tenant c) = last_claimed db (r_tenant s) \<and> r_queued_at c \<le> r_queued_at s)"
proof -
  obtain r where r: "r \<in> set (db_runs db)" "claim_row db r worker lease now = Inr (db', c)"
      "select_claim cfg db locked now = Some r"
    using claim_run_Inr[OF assms(1)] by metis
  have c: "c = mark_claimed worker lease now r" using claim_row_Inr(1)[OF r(2)] .
  have p: "r_priority c = r_priority r" "r_queued_at c = r_queued_at r" by (simp_all add: c mark_claimed_def)
  then have ep: "effective_priority now c = effective_priority now r" by (simp add: effective_priority_def)
  have "99 - r_priority s \<le> (now - r_queued_at s) div (600 * second)"
    using zdiv_mono1[OF assms(5), of "600 * second"] by (simp add: second_def)
  then have s: "99 \<le> effective_priority now s" by (simp add: effective_priority_def)
  have "\<not> claim_before db now s r"
    using select_first_least[OF claim_before_order r(3)[unfolded select_claim_def], of s] assms(2-4) by simp
  moreover have "effective_priority now r \<le> 99"
    using effective_priority_bounds(2)[of now r] assms(6) p by simp
  ultimately have "effective_priority now r = 99" "effective_priority now s = 99"
    "\<not> claim_before db now s r" using s by (auto simp: claim_before_def Let_def split: if_splits)
  then show ?thesis
    using instant_before_total[of "last_claimed db (r_tenant r)" "last_claimed db (r_tenant s)"] ep p
    by (auto simp: c claim_before_def Let_def split: if_splits)
qed

section \<open>Requests\<close>

lemma find_where_snoc: "find_where p rows = None \<Longrightarrow> p r \<Longrightarrow> find_where p (rows @ [r]) = Some r"
  by (induction rows) (auto split: if_splits)

lemma enqueue_new_Inr:
  assumes "enqueue_new db cfg i new_id now probe = Inr (db', r)" "in_source i = SourceBackground \<longrightarrow> active_background db i = None"
  shows "\<exists>v. r = new_run db cfg i new_id v now" "db_runs db' = db_runs db @ [r]"
    "db_tenants db' = db_tenants db" "db_permissions db' = db_permissions db" "db_memberships db' = db_memberships db"
    "db_recipients db' = db_recipients db" "\<not> list_ex (insert_conflict r) (db_runs db)"
  using assms by (auto simp: enqueue_new_def reserve_probe_def Let_def bindr_Inr_iff split: option.splits if_splits)

text \<open>A request that has no run yet either joins one, whatever the new id, or creates one.\<close>

lemma enqueue_shape:
  assumes "enqueue db cfg i new_id now = Inr out"
    "find_where (\<lambda>r. r_tenant r = in_tenant i \<and> r_source r = in_source i \<and> r_idempotency r = in_idempotency i) (db_runs db) = None"
  shows "(\<forall>nid. enqueue db cfg i nid now = Inr out) \<and> fst out = db \<or>
    (\<exists>probe. enqueue_new db cfg i new_id now probe = Inr out \<and> (in_source i = SourceBackground \<longrightarrow> active_background db i = None))"
proof (cases "in_source i = SourceDashboard")
  case True
  with assms(1)[unfolded enqueue_def Let_def assms(2)] obtain probe where "circuit_gate db (in_tenant i) now = Inr probe"
    by (auto simp: bindr_Inr_iff split: if_splits)
  with True assms show ?thesis
    by (cases "recent_dashboard db i now") (auto simp: enqueue_def Let_def split: if_splits)
next
  case False
  with assms show ?thesis
    by (cases "in_source i = SourceBackground"; cases "active_background db i") (auto simp: enqueue_def Let_def split: if_splits)
qed



lemma waiting_run_catches_up_witness:
  "effective_priority (3 * hour) (waiting_row 2) \<ge> 99 \<and> r_id (waiting_row 2) = 2"
proof -
  from waiting_claim obtain db' c where c: "claim_run sample_config waiting_db [] ''w1'' minute (3 * hour) = Inr (db', c)"
    "r_id c = 1" "r_priority c = 90" by auto
  have s: "waiting_row 2 \<in> set (db_runs waiting_db)" by (simp add: waiting_db_def)
  have q: "claimable sample_config waiting_db (3 * hour) (waiting_row 2)" "r_id (waiting_row 2) \<notin> set []"
    "(99 - r_priority (waiting_row 2)) * (600 * second) \<le> 3 * hour - r_queued_at (waiting_row 2)"
    "r_id (waiting_row 2) = 2" by code_simp+
  have "effective_priority (3 * hour) (waiting_row 2) \<ge> 99"
    by (rule waiting_run_catches_up[OF c(1) s q(1-3), THEN conjunct1]) (simp_all add: c q(4))
  with q(4) show ?thesis by blast
qed

section \<open>Concurrent claims\<close>

text \<open>Two claims may select on snapshots taken before either commits.  Whatever the snapshot said,
  the update of the locked, still queued row is refused by the unique index unless the tenant has no
  other active run, so no interleaving gives a tenant two active runs.\<close>

theorem racing_claims_one_active:
  assumes "queue_inv cfg db" "r \<in> set (db_runs db)" "r_status r = StatusQueued"
    "claim_row db r worker lease now = Inr (db', c)"
  shows "(\<forall>a \<in> set (db_runs db'). \<forall>b \<in> set (db_runs db'). is_active a \<and> is_active b \<and> r_tenant a = r_tenant b \<longrightarrow> a = b)
    \<and> (\<forall>a \<in> set (db_runs db). is_active a \<longrightarrow> r_tenant a \<noteq> r_tenant r)"
proof -
  have d: "distinct (map r_id (db_runs db))" "one_active (db_runs db)" using assms(1) by (simp_all add: queue_inv_def)
  have o: "one_active (db_runs db')" by (rule claim_row_one_active[OF assms(4) d(1) assms(2,3) d(2)])
  have "a = b" if "a \<in> set (db_runs db')" "b \<in> set (db_runs db')" "is_active a" "is_active b" "r_tenant a = r_tenant b" for a b
    by (rule count_one_eq[of "active_of (r_tenant a)" "db_runs db'"])
      (use o that in \<open>auto simp: one_active_def active_of_def\<close>)
  moreover have "r_tenant a \<noteq> r_tenant r" if "a \<in> set (db_runs db)" "is_active a" for a
    using claim_row_Inr(3)[OF assms(4) that(1)] that codes_eq[OF d(1) that(1) assms(2)] assms(3)
    by (auto simp: is_active_def)
  ultimately show ?thesis by blast
qed

lemma racing_claims_one_active_witness:
  "\<exists>p. claim_row queued_db (hd (db_runs queued_db)) ''w2'' minute (11 * hour) = Inr p
     \<and> (\<forall>a \<in> set (db_runs queued_db). is_active a \<longrightarrow> r_tenant a \<noteq> 1)"
proof -
  have "\<exists>p. claim_row queued_db (hd (db_runs queued_db)) ''w2'' minute (11 * hour) = Inr p \<and> r_id (snd p) = 100"
    by (rule evaluated) code_simp
  then obtain db' c where p: "claim_row queued_db (hd (db_runs queued_db)) ''w2'' minute (11 * hour) = Inr (db', c)" by auto
  have q: "db_runs queued_db \<noteq> []" "r_status (hd (db_runs queued_db)) = StatusQueued" "r_tenant (hd (db_runs queued_db)) = 1"
    by code_simp+
  from racing_claims_one_active[OF reachable_inv[OF sample_reachable(1)] hd_in_set[OF q(1)] q(2) p] q(3) p
  show ?thesis by auto
qed

text \<open>The limit on the whole installation is only a count on the snapshot: with a limit of one, two
  claims that both see an idle queue leave two active runs.\<close>

definition single_config :: store_config where
  "single_config = sample_config\<lparr>cfg_global := 1\<rparr>"

lemma racing_claims_exceed_global_limit:
  "\<exists>r1 r2 p1 p2.
     select_claim single_config waiting_db [] (3 * hour) = Some r1 \<and>
     select_claim single_config waiting_db [r_id r1] (3 * hour) = Some r2 \<and>
     claim_row waiting_db r1 ''w1'' minute (3 * hour) = Inr p1 \<and>
     claim_row (fst p1) r2 ''w2'' minute (3 * hour) = Inr p2 \<and>
     int (count_where is_active (db_runs (fst p2))) > cfg_global single_config"
proof -
  have "\<exists>r1. select_claim single_config waiting_db [] (3 * hour) = Some r1 \<and>
      (case select_claim single_config waiting_db [r_id r1] (3 * hour) of None \<Rightarrow> False | Some r2 \<Rightarrow>
      (case claim_row waiting_db r1 ''w1'' minute (3 * hour) of Inl _ \<Rightarrow> False | Inr p1 \<Rightarrow>
      (case claim_row (fst p1) r2 ''w2'' minute (3 * hour) of Inl _ \<Rightarrow> False | Inr p2 \<Rightarrow>
      int (count_where is_active (db_runs (fst p2))) > cfg_global single_config)))"
    by (rule evaluated_option) code_simp
  then show ?thesis
    by (elim exE conjE) (drule evaluated_option, elim exE conjE, drule evaluated, elim exE conjE, drule evaluated,
      elim exE conjE, intro exI conjI, assumption+)
qed

end
