(* ===== verification/RunRecovery.thy ===== *)
theory RunRecovery
  imports Sample
begin

text \<open>
  What happens when workers or sources fail: recovery of expired leases, the circuits of tenants and
  hosts, the cancellation of the siblings of a failed scheduled run.
\<close>

section \<open>Recovery\<close>

lemma occurrence_runs:
  "\<exists>sib. (\<forall>r. sib r \<longrightarrow> r_status r = StatusQueued) \<and>
     db_runs (fst (fail_scheduled_occurrence failed now db)) = update_where sib (cancel_sibling now) (db_runs db)"
proof (cases "find_where (\<lambda>n. open_notification n \<and> linked db (n_id n) failed) (db_notifications db)")
  case None
  then show ?thesis
    by (intro exI[of _ "\<lambda>_. False"]) (simp add: fail_scheduled_occurrence_def update_where_none)
next
  case (Some n)
  then show ?thesis
    by (intro exI[of _ "is_sibling db (n_id n) failed"]) (simp add: fail_scheduled_occurrence_def Let_def is_sibling_def)
qed

definition running_expired :: "instant \<Rightarrow> run_row \<Rightarrow> bool" where
  "running_expired now r \<longleftrightarrow> r_status r = StatusRunning \<and> lease_expired now r"

definition claimed_expired :: "instant \<Rightarrow> run_row \<Rightarrow> bool" where
  "claimed_expired now r \<longleftrightarrow> r_status r = StatusClaimed \<and> lease_expired now r"

text \<open>One item of the loop: its row is requeued or failed, and queued siblings may be cancelled.\<close>

definition recover_row :: "instant \<Rightarrow> uuid \<Rightarrow> (run_row \<Rightarrow> bool) \<Rightarrow> run_row \<Rightarrow> run_row" where
  "recover_row now rid sib r = (
     let r1 = (if r_id r = rid \<and> claimed_expired now r then requeue_expired now r
               else if r_id r = rid \<and> running_expired now r then fail_expired now r else r)
     in if sib r1 then cancel_sibling now r1 else r1)"

lemma recover_one_runs:
  assumes "r_status item = StatusClaimed \<or> r_status item = StatusRunning"
    and "\<forall>r \<in> set (db_runs (fst s)). r_id r = r_id item \<longrightarrow> r_status r = r_status item"
  shows "\<exists>sib. (\<forall>r. sib r \<longrightarrow> r_status r = StatusQueued) \<and>
    db_runs (fst (recover_one now item s)) = map (recover_row now (r_id item) sib) (db_runs (fst s))"
proof -
  obtain db res where s: "s = (db, res)" by (cases s)
  let ?p = "\<lambda>r. r_id r = r_id item \<and> running_expired now r"
  show ?thesis
  proof (cases "r_status item = StatusClaimed")
    case True
    with assms(2) show ?thesis
      by (intro exI[of _ "\<lambda>_. False"])
        (auto simp: s recover_one_def update_where_def recover_row_def Let_def claimed_expired_def running_expired_def)
  next
    case False
    with assms have nc: "r \<in> set (db_runs db) \<Longrightarrow> r_id r = r_id item \<Longrightarrow> \<not> claimed_expired now r" for r
      by (auto simp: s claimed_expired_def)
    show ?thesis
    proof (cases "count_where ?p (db_runs db) = 0")
      case none: True
      then have "r \<in> set (db_runs db) \<Longrightarrow> recover_row now (r_id item) (\<lambda>_. False) r = r" for r
        using nc by (auto simp: recover_row_def count_where_0_iff Let_def)
      with none False show ?thesis
        by (intro exI[of _ "\<lambda>_. False"]) (simp add: s recover_one_def Let_def running_expired_def map_idI)
    next
      case some: False
      define db1 where "db1 = update_run (r_id item) (running_expired now) (fail_expired now) db"
      define db2 where "db2 = db1\<lparr>db_circuits := open_circuit (r_tenant item) now (now + 10 * minute) (db_circuits db1)\<rparr>"
      obtain sib where sib: "\<forall>r. sib r \<longrightarrow> r_status r = StatusQueued"
        "db_runs (fst (fail_scheduled_occurrence (r_id item) now db2)) = update_where sib (cancel_sibling now) (db_runs db2)"
        using occurrence_runs by blast
      obtain db3 n where occ: "fail_scheduled_occurrence (r_id item) now db2 = (db3, n)" by fastforce
      with sib(2) have s3: "db_runs db3 = update_where sib (cancel_sibling now) (db_runs db1)" by (simp add: db2_def)
      let ?sib = "if r_source item = SourceSchedule then sib else (\<lambda>_. False)"
      have "db_runs (fst (recover_one now item s)) = update_where ?sib (cancel_sibling now) (db_runs db1)"
        using False some s3 occ[unfolded db2_def db1_def] unfolding s recover_one_def prod.case Let_def
        by (simp add: running_expired_def[abs_def] db1_def update_where_none)
      also have "... = map (recover_row now (r_id item) ?sib) (db_runs db)"
        using nc by (auto simp: db1_def update_where_def recover_row_def Let_def)
      finally show ?thesis using sib(1) by (intro exI[of _ ?sib]) (simp add: s)
    qed
  qed
qed

text \<open>What the loop has made of a row after the items with ids done.\<close>

definition recovered_row :: "instant \<Rightarrow> uuid set \<Rightarrow> run_row \<Rightarrow> run_row \<Rightarrow> bool" where
  "recovered_row now fin r r' \<longleftrightarrow>
     (if running_expired now r then r' = (if r_id r \<in> fin then fail_expired now r else r)
      else if claimed_expired now r then
        (if r_id r \<in> fin then r' = requeue_expired now r \<or> r' = cancel_sibling now (requeue_expired now r) else r' = r)
      else if r_status r = StatusQueued then r' = r \<or> r' = cancel_sibling now r else r' = r)"

lemma recover_row_step:
  assumes "recovered_row now fin r r'" "\<forall>r. sib r \<longrightarrow> r_status r = StatusQueued" "rid \<notin> fin"
  shows "recovered_row now (insert rid fin) r (recover_row now rid sib r')"
proof -
  have st: "r_status (fail_expired now r) = StatusFailed" "r_status (cancel_sibling now x) = StatusCancelled"
    "r_status (requeue_expired now r) = StatusQueued" "r_id (fail_expired now r) = r_id r"
    "r_id (cancel_sibling now x) = r_id x" "r_id (requeue_expired now r) = r_id r" for x
    by (simp_all add: fail_expired_def cancel_sibling_def requeue_expired_def)
  have ns: "\<not> sib x" if "r_status x \<noteq> StatusQueued" for x using assms(2) that by blast
  show ?thesis
  proof (cases "running_expired now r")
    case True
    then have q: "r_status r = StatusRunning" "\<not> claimed_expired now r" by (simp_all add: running_expired_def claimed_expired_def)
    with True assms(1) show ?thesis
      by (cases "r_id r \<in> fin") (auto simp: recovered_row_def recover_row_def Let_def st ns running_expired_def claimed_expired_def)
  next
    case nr: False
    show ?thesis
    proof (cases "claimed_expired now r")
      case True
      with nr assms(1,3) show ?thesis
        by (cases "r_id r \<in> fin")
          (auto simp: recovered_row_def recover_row_def Let_def st ns running_expired_def claimed_expired_def)
    next
      case False
      with nr assms(1) show ?thesis
        by (cases "r_status r = StatusQueued")
          (auto simp: recovered_row_def recover_row_def Let_def st ns running_expired_def claimed_expired_def)
    qed
  qed
qed

lemma upsert_ex:
  assumes "q new" "\<And>r. r \<in> set rows \<Longrightarrow> p r \<Longrightarrow> q (f r)"
  shows "list_ex q (upsert_where p f new rows)"
proof (cases "list_ex p rows")
  case True
  then obtain r where "r \<in> set rows" "p r" by (auto simp: list_ex_iff)
  then have "f r \<in> set (update_where p f rows)" "q (f r)" using assms(2) by (auto simp: set_update_where)
  with True show ?thesis by (auto simp: upsert_where_def list_ex_iff)
qed (simp add: upsert_where_def assms(1))

lemma upsert_keeps_ex:
  assumes "list_ex q rows" "\<And>r. q r \<Longrightarrow> p r \<Longrightarrow> q (f r)"
  shows "list_ex q (upsert_where p f new rows)"
proof -
  obtain r where r: "r \<in> set rows" "q r" using assms(1) by (auto simp: list_ex_iff)
  then have "(if p r then f r else r) \<in> set (update_where p f rows)" "q (if p r then f r else r)"
    using assms(2) by (auto simp: set_update_where)
  then have "list_ex q (update_where p f rows)" unfolding list_ex_iff by blast
  with assms(1) show ?thesis by (simp add: upsert_where_def)
qed

lemma open_circuit_opens: "t < until \<Longrightarrow> tenant_circuit_open (db\<lparr>db_circuits := open_circuit tenant now until cs\<rparr>) tenant t"
  by (auto simp: tenant_circuit_open_def open_circuit_def intro!: upsert_ex)

lemma open_circuit_keeps:
  "tenant_circuit_open db u t \<Longrightarrow> tenant_circuit_open (db\<lparr>db_circuits := open_circuit tenant now until (db_circuits db)\<rparr>) u t"
  by (auto simp: tenant_circuit_open_def open_circuit_def opt_rel_iff coalesce_def intro!: upsert_keeps_ex)

lemma circuit_open_cong: "db_circuits db = db_circuits db' \<Longrightarrow> tenant_circuit_open db u t = tenant_circuit_open db' u t"
  by (simp add: tenant_circuit_open_def)

lemma recover_one_circuits:
  assumes "r_status item \<noteq> StatusClaimed" "x \<in> set (db_runs (fst s))" "r_id x = r_id item" "running_expired now x"
  shows "db_circuits (fst (recover_one now item s)) = open_circuit (r_tenant item) now (now + 10 * minute) (db_circuits (fst s))"
proof -
  obtain db res where s: "s = (db, res)" by (cases s)
  have c: "0 < count_where (\<lambda>r. r_id r = r_id item \<and> r_status r = StatusRunning \<and> lease_expired now r) (db_runs db)"
    using assms(2-4) by (auto simp: s running_expired_def count_where_pos_iff)
  have occ: "fail_scheduled_occurrence f now d = (d', n) \<Longrightarrow> db_circuits d' = db_circuits d" for f d d' n
    by (auto simp: fail_scheduled_occurrence_def Let_def split: option.splits)
  from c assms(1) show ?thesis
    by (auto simp: s recover_one_def Let_def update_generations_def update_run_def occ split: prod.splits)
qed

lemma recover_one_circuits_keep:
  "tenant_circuit_open (fst s) u t \<Longrightarrow> tenant_circuit_open (fst (recover_one now item s)) u t"
proof -
  obtain db res where s: "s = (db, res)" by (cases s)
  have occ: "fail_scheduled_occurrence f now d = (d', n) \<Longrightarrow> db_circuits d' = db_circuits d" for f d d' n
    by (auto simp: fail_scheduled_occurrence_def Let_def split: option.splits)
  have "db_circuits (fst (recover_one now item s)) = db_circuits db \<or>
      db_circuits (fst (recover_one now item s)) = open_circuit (r_tenant item) now (now + 10 * minute) (db_circuits db)"
    by (auto simp: s recover_one_def Let_def update_generations_def update_run_def occ split: prod.splits)
  then show "tenant_circuit_open (fst s) u t \<Longrightarrow> ?thesis"
    using open_circuit_keeps[of db u t] by (auto simp: s tenant_circuit_open_def)
qed

lemma list_all2_fwd: "list_all2 R xs ys \<Longrightarrow> x \<in> set xs \<Longrightarrow> \<exists>y \<in> set ys. R x y"
  by (induction rule: list_all2_induct) auto

lemma list_all2_bwd: "list_all2 R xs ys \<Longrightarrow> y \<in> set ys \<Longrightarrow> \<exists>x \<in> set xs. R x y"
  by (induction rule: list_all2_induct) auto

definition recovery_inv :: "run_row list \<Rightarrow> instant \<Rightarrow> uuid set \<Rightarrow> db \<Rightarrow> bool" where
  "recovery_inv rows now fin db \<longleftrightarrow> list_all2 (recovered_row now fin) rows (db_runs db)
     \<and> (\<forall>r \<in> set rows. running_expired now r \<and> r_id r \<in> fin \<longrightarrow> (\<forall>t < now + 10 * minute. tenant_circuit_open db (r_tenant r) t))"

lemma recovered_row_todo:
  "recovered_row now fin r r' \<Longrightarrow> r_id r \<notin> fin \<Longrightarrow> running_expired now r \<or> claimed_expired now r \<Longrightarrow> r' = r"
  by (cases "running_expired now r") (auto simp: recovered_row_def running_expired_def claimed_expired_def)

lemma recovered_row_id: "recovered_row now fin r r' \<Longrightarrow> r_id r' = r_id r"
  by (auto simp: recovered_row_def fail_expired_def cancel_sibling_def requeue_expired_def split: if_splits)

lemma recovery_step:
  assumes d: "distinct (map r_id rows)" and i: "item \<in> set rows" "running_expired now item \<or> claimed_expired now item"
    "r_id item \<notin> fin" and inv: "recovery_inv rows now fin (fst s)"
  shows "recovery_inv rows now (insert (r_id item) fin) (fst (recover_one now item s))"
proof -
  have rel: "list_all2 (recovered_row now fin) rows (db_runs (fst s))" using inv by (simp add: recovery_inv_def)
  have cur: "x = item" if "x \<in> set (db_runs (fst s))" "r_id x = r_id item" for x
  proof -
    from list_all2_bwd[OF rel that(1)] obtain r where r: "r \<in> set rows" "recovered_row now fin r x" by blast
    then have "r = item" using recovered_row_id[OF r(2)] that(2) codes_eq[OF d r(1) i(1)] by simp
    with r(2) i(2,3) show ?thesis using recovered_row_todo by blast
  qed
  have there: "item \<in> set (db_runs (fst s))"
  proof -
    obtain x where "x \<in> set (db_runs (fst s))" "recovered_row now fin item x" using list_all2_fwd[OF rel i(1)] by blast
    with i(2,3) recovered_row_todo show ?thesis by blast
  qed
  have st: "r_status item = StatusClaimed \<or> r_status item = StatusRunning"
    using i(2) by (auto simp: running_expired_def claimed_expired_def)
  obtain sib where sib: "\<forall>r. sib r \<longrightarrow> r_status r = StatusQueued"
      "db_runs (fst (recover_one now item s)) = map (recover_row now (r_id item) sib) (db_runs (fst s))"
    using recover_one_runs[OF st, of s now] cur by blast
  have "list_all2 (recovered_row now (insert (r_id item) fin)) rows (db_runs (fst (recover_one now item s)))"
    unfolding sib(2) list_all2_map2
    by (rule list_all2_mono[OF rel]) (rule recover_row_step[OF _ sib(1) i(3)])
  moreover have "tenant_circuit_open (fst (recover_one now item s)) (r_tenant r) t"
    if r: "r \<in> set rows" "running_expired now r" "r_id r \<in> insert (r_id item) fin" and t: "t < now + 10 * minute" for r t
  proof (cases "r_id r \<in> fin")
    case True
    with r t inv have "tenant_circuit_open (fst s) (r_tenant r) t" by (simp add: recovery_inv_def)
    then show ?thesis by (rule recover_one_circuits_keep)
  next
    case False
    with r have e: "r = item" using codes_eq[OF d r(1) i(1)] by simp
    then have "db_circuits (fst (recover_one now item s)) =
        open_circuit (r_tenant item) now (now + 10 * minute) (db_circuits (fst s))"
      using recover_one_circuits[OF _ there] r(2) by (simp add: running_expired_def)
    with open_circuit_opens[OF t, where db = "fst s" and tenant = "r_tenant item" and now = now and cs = "db_circuits (fst s)"] show ?thesis
      by (simp add: tenant_circuit_open_def e)
  qed
  ultimately show ?thesis by (simp add: recovery_inv_def)
qed

lemma recovery_fold:
  assumes "distinct (map r_id rows)" "set items \<subseteq> set rows" "\<forall>i \<in> set items. running_expired now i \<or> claimed_expired now i"
    "distinct (map r_id items)" "r_id ` set items \<inter> fin = {}" "recovery_inv rows now fin (fst s)"
  shows "recovery_inv rows now (r_id ` set items \<union> fin) (fst (fold (recover_one now) items s))"
  using assms(2-6)
proof (induction items arbitrary: fin s)
  case (Cons item items)
  have "recovery_inv rows now (insert (r_id item) fin) (fst (recover_one now item s))"
    by (rule recovery_step) (use Cons.prems assms(1) in auto)
  from Cons.IH[OF _ _ _ _ this] Cons.prems show ?case by auto
qed simp

lemma expired_items:
  assumes "distinct (map r_id (db_runs db))"
  shows "set (expired_leases db locked now) \<subseteq> set (db_runs db)"
    "i \<in> set (expired_leases db locked now) \<Longrightarrow> running_expired now i \<or> claimed_expired now i"
    "distinct (map r_id (expired_leases db locked now))"
proof -
  have d: "distinct (map r_id (sort_by lt (filter p (db_runs db))))" for lt p
  proof -
    have "mset (map r_id (sort_by lt (filter p (db_runs db)))) = mset (map r_id (filter p (db_runs db)))" by simp
    moreover have "distinct (map r_id (filter p (db_runs db)))" using assms by (rule distinct_map_filter)
    ultimately show ?thesis by (metis mset_eq_imp_distinct_iff)
  qed
  show "distinct (map r_id (expired_leases db locked now))"
    unfolding expired_leases_def take_map[symmetric] by (rule distinct_take) (rule d)
qed (auto simp: expired_leases_def is_active_def running_expired_def claimed_expired_def dest!: in_set_takeD)

lemma expired_all:
  assumes "count_where (\<lambda>r. is_active r \<and> lease_expired now r) (db_runs db) \<le> 100"
  shows "set (expired_leases db [] now) = {r \<in> set (db_runs db). is_active r \<and> lease_expired now r}"
proof -
  have "length (filter (\<lambda>r. is_active r \<and> lease_expired now r \<and> r_id r \<notin> set []) (db_runs db)) \<le> 100"
    using assms by (simp add: count_where_def)
  then show ?thesis unfolding expired_leases_def by (simp add: take_all) 
qed

text \<open>C14: One recovery that is not held up by locks and finds at most a hundred expired leases leaves
  none: a run that was only claimed goes back to the queue (or is cancelled with a failed occurrence),
  a run that was running fails for good and its tenant's circuit stays open for ten minutes, and a run
  whose lease is unexpired is left alone.\<close>

theorem recovery_complete:
  assumes "distinct (map r_id (db_runs db))" "count_where (\<lambda>r. is_active r \<and> lease_expired now r) (db_runs db) \<le> 100"
    "recover_expired_leases db [] now = (db', recovery)"
  shows "(\<forall>r' \<in> set (db_runs db'). \<not> (is_active r' \<and> lease_expired now r'))
    \<and> (\<forall>r \<in> set (db_runs db).
        (is_active r \<and> \<not> lease_expired now r \<longrightarrow> r \<in> set (db_runs db'))
      \<and> (r_status r = StatusClaimed \<and> lease_expired now r \<longrightarrow> requeue_expired now r \<in> set (db_runs db')
           \<or> cancel_sibling now (requeue_expired now r) \<in> set (db_runs db'))
      \<and> (r_status r = StatusRunning \<and> lease_expired now r \<longrightarrow> fail_expired now r \<in> set (db_runs db')
           \<and> (\<forall>t < now + 10 * minute. tenant_circuit_open db' (r_tenant r) t)))"
proof -
  let ?fin = "r_id ` {r \<in> set (db_runs db). is_active r \<and> lease_expired now r}"
  have "recovery_inv (db_runs db) now {} db"
    by (auto simp: recovery_inv_def list_all2_same recovered_row_def)
  then have "recovery_inv (db_runs db) now (r_id ` set (expired_leases db [] now) \<union> {}) db'"
    using recovery_fold[OF assms(1) expired_items(1)[OF assms(1), of "[]" now] _ expired_items(3)[OF assms(1)],
        where fin = "{}" and now = now and s = "(db, \<lparr>lr_requeued_claimed = 0, lr_failed_running = 0, lr_cancelled_siblings = 0\<rparr>)"]
      expired_items(2)[OF assms(1), of _ "[]" now] assms(3)
    by (auto simp: recover_expired_leases_def)
  then have inv: "recovery_inv (db_runs db) now ?fin db'" by (simp add: expired_all[OF assms(2)])
  then have rel: "list_all2 (recovered_row now ?fin) (db_runs db) (db_runs db')" by (simp add: recovery_inv_def)
  have fwd: "\<exists>r' \<in> set (db_runs db'). recovered_row now ?fin r r'" if "r \<in> set (db_runs db)" for r
    by (rule list_all2_fwd[OF rel that])
  have bwd: "\<exists>r \<in> set (db_runs db). recovered_row now ?fin r r'" if "r' \<in> set (db_runs db')" for r'
    by (rule list_all2_bwd[OF rel that])
  have ex: "running_expired now r \<or> claimed_expired now r \<longleftrightarrow> is_active r \<and> lease_expired now r" for r
    by (auto simp: running_expired_def claimed_expired_def is_active_def)
  have inact: "\<not> is_active (fail_expired now r)" "\<not> is_active (requeue_expired now r)" "\<not> is_active (cancel_sibling now r)" for r
    by (simp_all add: is_active_def fail_expired_def requeue_expired_def cancel_sibling_def)
  have 1: "\<not> (is_active r' \<and> lease_expired now r')" if "r' \<in> set (db_runs db')" for r'
  proof -
    from bwd[OF that] obtain r where r: "r \<in> set (db_runs db)" "recovered_row now ?fin r r'" by blast
    show ?thesis
    proof (cases "is_active r \<and> lease_expired now r")
      case True
      then have "r_id r \<in> ?fin" using r(1) by blast
      with True ex[of r] r(2) inact show ?thesis by (auto simp: recovered_row_def split: if_splits)
    next
      case False
      with ex[of r] r(2) inact show ?thesis by (auto simp: recovered_row_def split: if_splits)
    qed
  qed
  have 2: "r \<in> set (db_runs db')" if "r \<in> set (db_runs db)" "is_active r" "\<not> lease_expired now r" for r
    using fwd[OF that(1)] that(2,3) by (auto simp: recovered_row_def running_expired_def claimed_expired_def is_active_def)
  have 3: "requeue_expired now r \<in> set (db_runs db') \<or> cancel_sibling now (requeue_expired now r) \<in> set (db_runs db')"
    if "r \<in> set (db_runs db)" "r_status r = StatusClaimed" "lease_expired now r" for r
    using fwd[OF that(1)] that by (auto simp: recovered_row_def running_expired_def claimed_expired_def is_active_def)
  have 4: "fail_expired now r \<in> set (db_runs db')" if "r \<in> set (db_runs db)" "r_status r = StatusRunning" "lease_expired now r" for r
    using fwd[OF that(1)] that by (auto simp: recovered_row_def running_expired_def is_active_def)
  have 5: "tenant_circuit_open db' (r_tenant r) t"
    if "r \<in> set (db_runs db)" "r_status r = StatusRunning" "lease_expired now r" "t < now + 10 * minute" for r t
    using inv that by (auto simp: recovery_inv_def running_expired_def is_active_def)
  show ?thesis using 1 2 3 4 5 by blast
qed

lemma recovery_complete_witness:
  "\<exists>db'. fst (recover_expired_leases running_db [] (11 * hour)) = db' \<and> map r_status (db_runs db') = [StatusFailed]
     \<and> tenant_circuit_open db' 1 (11 * hour + minute)"
proof -
  have d: "distinct (map r_id (db_runs running_db))"
    and c: "count_where (\<lambda>r. is_active r \<and> lease_expired (11 * hour) r) (db_runs running_db) \<le> 100"
    and s: "list_all (\<lambda>r. r_status r = StatusRunning \<and> lease_expired (11 * hour) r \<and> r_tenant r = 1) (db_runs running_db)"
      "db_runs running_db \<noteq> []"
      "map r_status (db_runs (fst (recover_expired_leases running_db [] (11 * hour)))) = [StatusFailed]"
    by code_simp+
  obtain db' rec where r: "recover_expired_leases running_db [] (11 * hour) = (db', rec)" by fastforce
  from s(2) obtain x where x: "x \<in> set (db_runs running_db)" by (meson hd_in_set)
  with s(1) have "r_status x = StatusRunning" "lease_expired (11 * hour) x" "r_tenant x = 1"
    unfolding list_all_iff by blast+
  moreover note x moreover have "11 * hour + minute < 11 * hour + 10 * minute" by (simp add: minute_def)
  ultimately have "tenant_circuit_open db' 1 (11 * hour + minute)"
    using recovery_complete[OF d c r] by metis
  with s(3) r show ?thesis by simp
qed

section \<open>Circuits\<close>

lemma find_where_key: "distinct (map key rows) \<Longrightarrow> x \<in> set rows \<Longrightarrow> find_where (\<lambda>r. key r = key x) rows = Some x"
  by (induction rows) force+

lemma upsert_moves_ex:
  assumes "list_ex q rows" "\<And>r. q r \<Longrightarrow> p r \<and> q' (f r)"
  shows "list_ex q' (upsert_where p f new rows)"
proof -
  obtain r where "r \<in> set rows" "q r" using assms(1) by (auto simp: list_ex_iff)
  with assms(2)[of r] have "f r \<in> set (update_where p f rows)" "q' (f r)" "list_ex p rows"
    by (auto simp: set_update_where list_ex_iff)
  then show ?thesis by (auto simp: upsert_where_def list_ex_iff)
qed

definition counting :: "uuid \<Rightarrow> int \<Rightarrow> instant \<Rightarrow> circuit_row \<Rightarrow> bool" where
  "counting tenant n t c \<longleftrightarrow> c_tenant c = tenant \<and> c_failures c = n \<and> c_window_started_at c = Some t"

lemma first_failure:
  assumes "\<forall>c \<in> set cs. c_tenant c = tenant \<longrightarrow> (case c_window_started_at c of None \<Rightarrow> True | Some w \<Rightarrow> w < t - 10 * minute)"
  shows "list_ex (counting tenant 1 t) (record_circuit_failure tenant t cs)"
  unfolding record_circuit_failure_def
  by (rule upsert_ex) (use assms in \<open>auto simp: counting_def bump_circuit_def Let_def\<close>)

lemma next_failure:
  assumes "list_ex (counting tenant n t) cs" "t' \<le> t + 10 * minute"
  shows "list_ex (counting tenant (n + 1) t) (record_circuit_failure tenant t' cs)"
  unfolding record_circuit_failure_def
  by (rule upsert_moves_ex[OF assms(1)]) (use assms(2) in \<open>auto simp: counting_def bump_circuit_def Let_def\<close>)

lemma opening_failure:
  assumes "list_ex (counting tenant n t) cs" "t' \<le> t + 10 * minute" "2 \<le> n"
  shows "list_ex (\<lambda>c. c_tenant c = tenant \<and> c_open_until c = Some (t' + 15 * minute)) (record_circuit_failure tenant t' cs)"
  unfolding record_circuit_failure_def
  by (rule upsert_moves_ex[OF assms(1)]) (use assms(2,3) in \<open>auto simp: counting_def bump_circuit_def Let_def\<close>)

text \<open>Three failures of a tenant's source within ten minutes open its circuit for fifteen minutes
  after the third: until then none of its runs can be claimed, and every dashboard request for it that
  has no run yet is refused.\<close>

theorem third_failure_opens_circuit:
  assumes "\<forall>c \<in> set cs. c_tenant c = tenant \<longrightarrow> (case c_window_started_at c of None \<Rightarrow> True | Some w \<Rightarrow> w < t1 - 10 * minute)"
    "t1 \<le> t2" "t2 \<le> t3" "t3 \<le> t1 + 10 * minute" "now < t3 + 15 * minute"
    "db_circuits db = record_circuit_failure tenant t3 (record_circuit_failure tenant t2 (record_circuit_failure tenant t1 cs))"
    "r_tenant r = tenant"
  shows "\<not> claimable cfg db now r
    \<and> (distinct (map c_tenant (db_circuits db)) \<longrightarrow> circuit_gate db tenant now = Inl ErrRunCircuitOpen)"
proof -
  have "list_ex (\<lambda>c. c_tenant c = tenant \<and> c_open_until c = Some (t3 + 15 * minute)) (db_circuits db)"
    unfolding assms(6) using opening_failure[OF next_failure[OF first_failure[OF assms(1)]], of t2 t3] assms(3,4) by simp
  then obtain c where c: "c \<in> set (db_circuits db)" "c_tenant c = tenant" "c_open_until c = Some (t3 + 15 * minute)"
    by (auto simp: list_ex_iff)
  then have "tenant_circuit_open db tenant now" using assms(5) by (auto simp: tenant_circuit_open_def list_ex_iff)
  moreover have "circuit_gate db tenant now = Inl ErrRunCircuitOpen" if "distinct (map c_tenant (db_circuits db))"
    using find_where_key[OF that c(1)] c(2,3) assms(5) by (simp add: circuit_gate_def)
  ultimately show ?thesis using assms(7) by (simp add: claimable_def)
qed

lemma third_failure_opens_circuit_witness:
  "\<not> claimable sample_config (running_db\<lparr>db_circuits := record_circuit_failure 1 (3 * minute)
       (record_circuit_failure 1 (2 * minute) (record_circuit_failure 1 minute []))\<rparr>) (10 * minute)
     (new_run sample_db sample_config sample_input 5 ''1.0.0'' 0)"
proof -
  have "r_tenant (new_run sample_db sample_config sample_input 5 ''1.0.0'' 0) = 1" by (simp add: sample_input_def)
  then show ?thesis
    by (intro third_failure_opens_circuit[of "[]" 1 minute "2 * minute" "3 * minute", THEN conjunct1])
      (simp_all add: minute_def)
qed

text \<open>C24: Once the circuit of a tenant has run out, no dashboard request for it creates a run: the run
  meant as the half-open probe is refused because its reservation asks for an unexpired circuit.  The
  request fails or joins a run that is already there, until some other run of the tenant succeeds.\<close>

theorem expired_circuit_never_probed:
  assumes "distinct (map c_tenant (db_circuits db))" "c \<in> set (db_circuits db)" "c_tenant c = in_tenant i"
    "c_open_until c = Some u" "u \<le> now" "in_source i = SourceDashboard"
    "enqueue db cfg i new_id now = Inr (db', r)"
  shows "db' = db \<and> (\<exists>x \<in> set (db_runs db). r = run_view now x)"
proof -
  have f: "find_where (\<lambda>c. c_tenant c = in_tenant i) (db_circuits db) = Some c"
    using find_where_key[OF assms(1,2)] assms(3) by simp
  have "isl (enqueue_new db cfg i new_id now True)"
  proof (cases "enqueue_new db cfg i new_id now True")
    case (Inr p)
    then obtain d x where r: "reserve_probe d (in_tenant i) x now = Inr (fst p)" "db_circuits d = db_circuits db"
      by (auto simp: enqueue_new_def Let_def bindr_Inr_iff split: option.splits if_splits)
    have "count_where (\<lambda>c. c_tenant c = in_tenant i \<and> opt_rel (\<lambda>u. u > now) (c_open_until c) \<and> c_half_open_run c = None)
        (db_circuits db) = 0"
      unfolding count_where_0_iff using codes_eq[OF assms(1,2)] assms(3-5) by fastforce
    with r show ?thesis by (simp add: reserve_probe_def)
  qed simp
  moreover have "circuit_gate db (in_tenant i) now = Inl ErrRunCircuitOpen \<or> circuit_gate db (in_tenant i) now = Inr True"
    using f assms(4,5) by (simp add: circuit_gate_def)
  ultimately have "db' = db"
    using assms(6,7) by (auto simp: enqueue_def Let_def split: if_splits option.splits)
  moreover have "enqueue_effect db cfg i new_id now (db', r)" by (rule enqueue_cases[OF assms(7)])
  ultimately show ?thesis by (auto simp: enqueue_effect_def)
qed

definition expired_circuit :: circuit_row where
  "expired_circuit = \<lparr>c_tenant = 1, c_failures = 3, c_window_started_at = Some 0, c_open_until = Some hour,
     c_half_open_run = None, c_updated_at = hour\<rparr>"

lemma expired_circuit_never_probed_witness:
  "isl (enqueue (sample_db\<lparr>db_circuits := [expired_circuit]\<rparr>) sample_config sample_input 100 (10 * hour)) \<and>
   (\<exists>db' r. enqueue (running_db\<lparr>db_circuits := [expired_circuit]\<rparr>) sample_config
       (sample_input\<lparr>in_idempotency := ''request-2''\<rparr>) 200 (10 * hour + 30 * second) = Inr (db', r)
     \<and> db' = running_db\<lparr>db_circuits := [expired_circuit]\<rparr>)"
proof -
  have 1: "isl (enqueue (sample_db\<lparr>db_circuits := [expired_circuit]\<rparr>) sample_config sample_input 100 (10 * hour))"
    by code_simp
  have "\<exists>p. enqueue (running_db\<lparr>db_circuits := [expired_circuit]\<rparr>) sample_config
       (sample_input\<lparr>in_idempotency := ''request-2''\<rparr>) 200 (10 * hour + 30 * second) = Inr p \<and> r_id (snd p) = 100"
    by (rule evaluated) code_simp
  then obtain db' r where e: "enqueue (running_db\<lparr>db_circuits := [expired_circuit]\<rparr>) sample_config
       (sample_input\<lparr>in_idempotency := ''request-2''\<rparr>) 200 (10 * hour + 30 * second) = Inr (db', r)" by auto
  have "db' = running_db\<lparr>db_circuits := [expired_circuit]\<rparr>"
    by (rule expired_circuit_never_probed[OF _ _ _ _ _ _ e, of expired_circuit hour, THEN conjunct1])
      (simp_all add: expired_circuit_def sample_input_def second_def hour_def minute_def)
  with 1 e show ?thesis by blast
qed

section \<open>The siblings of a failed scheduled run\<close>

text \<open>When a run of a scheduled notification fails, the notification fails with
  REPORT_SET_INCOMPLETE, its runs that are still queued are cancelled in the same transaction, and the
  runs that other workers have already started are left alone.\<close>

theorem failed_occurrence_cancels_siblings:
  assumes "fail_run db run worker code message now = Inr db'" "find_run db run = Some r" "r_source r = SourceSchedule"
    "n \<in> set (db_notifications db)" "open_notification n" "linked db (n_id n) run"
    "\<forall>m \<in> set (db_notifications db). open_notification m \<and> linked db (n_id m) run \<longrightarrow> m = n"
  shows "(\<exists>m \<in> set (db_notifications db'). n_id m = n_id n \<and> n_status m = NotificationFailed
            \<and> n_error_code m = Some ''REPORT_SET_INCOMPLETE'')
    \<and> (\<forall>s \<in> set (db_runs db). r_id s \<noteq> run \<longrightarrow>
         (if r_status s = StatusQueued \<and> linked db (n_id n) (r_id s) then cancel_sibling now s else s) \<in> set (db_runs db'))"
proof -
  have id: "run_identity db run = (r_tenant r, SourceSchedule)" using assms(2,3) by (simp add: run_identity_def)
  define db0 where "db0 = update_run run (\<lambda>r. owned worker now r \<and> is_active r) (fail_row code message now False) db"
  define db1 where "db1 = (if is_sml_circuit_failure code
    then db0\<lparr>db_circuits := record_circuit_failure (r_tenant r) now (db_circuits db0)\<rparr> else db0)"
  have e: "db' = update_generations run now (fst (fail_scheduled_occurrence run now db1))"
    using assms(1) by (auto simp: fail_run_def id Let_def bindr_Inr_iff guarded_update_Inr fail_occurrence_of_def db1_def db0_def)
  have runs1: "db_runs db1 = update_where (\<lambda>r. r_id r = run \<and> owned worker now r \<and> is_active r)
      (fail_row code message now False) (db_runs db)" by (simp add: db1_def db0_def)
  have l: "linked db1 = linked db" "db_notifications db1 = db_notifications db"
    by (simp_all add: db1_def db0_def linked_def[abs_def] update_run_def)
  have f: "find_where (\<lambda>m. open_notification m \<and> linked db1 (n_id m) run) (db_notifications db1) = Some n"
  proof (cases "find_where (\<lambda>m. open_notification m \<and> linked db (n_id m) run) (db_notifications db)")
    case None
    then have "\<not> (open_notification n \<and> linked db (n_id n) run)" using assms(4) unfolding find_where_None by blast
    with assms(5,6) show ?thesis by blast
  next
    case (Some m)
    from find_where_Some[OF this] assms(7) have "m = n" by blast
    with Some show ?thesis unfolding l by simp
  qed
  have n: "db_notifications db' = update_where (\<lambda>m. open_notification m \<and> linked db (n_id m) run)
      (\<lambda>n. n\<lparr>n_status := NotificationFailed, n_error_code := Some ''REPORT_SET_INCOMPLETE'', n_finished_at := Some now,
         n_lease := None, n_updated_at := now\<rparr>) (db_notifications db)"
    unfolding e fail_scheduled_occurrence_def Let_def f by (simp add: l update_generations_def Let_def)
  have r: "db_runs db' = update_where (is_sibling db1 (n_id n) run) (cancel_sibling now) (db_runs db1)"
    unfolding e fail_scheduled_occurrence_def Let_def f by simp
  have "s \<in> set (db_runs db1)" if "s \<in> set (db_runs db)" "r_id s \<noteq> run" for s
    using that by (auto simp: runs1 set_update_where)
  then have "(if r_status s = StatusQueued \<and> linked db (n_id n) (r_id s) then cancel_sibling now s else s) \<in> set (db_runs db')"
    if "s \<in> set (db_runs db)" "r_id s \<noteq> run" for s
    using that unfolding r set_update_where by (auto simp: is_sibling_def l)
  moreover have "\<exists>m \<in> set (db_notifications db'). n_id m = n_id n \<and> n_status m = NotificationFailed
            \<and> n_error_code m = Some ''REPORT_SET_INCOMPLETE''"
    unfolding n set_update_where by (rule bexI[OF _ imageI[OF assms(4)]]) (simp add: assms(5,6))
  ultimately show ?thesis by blast
qed

text \<open>The run of the sample as part of a notification with a second, queued report.\<close>

definition occurrence_db :: db where
  "occurrence_db = running_db\<lparr>
     db_runs := map (\<lambda>r. r\<lparr>r_source := SourceSchedule\<rparr>) (db_runs running_db)
       @ [(new_run sample_db sample_config sample_input 101 ''1.0.0'' (10 * hour))\<lparr>r_source := SourceSchedule\<rparr>],
     db_notifications := [\<lparr>n_id = 9, n_tenant = 1, n_schedule = 8, n_scheduled_for = 0, n_materialization = 2,
       n_status = NotificationQueued, n_attempt = 0, n_next_attempt_at = 0, n_claimed_by = None, n_claimed_at = None,
       n_lease = None, n_error_code = None, n_finished_at = None, n_updated_at = 0\<rparr>],
     db_notification_links := [\<lparr>l_notification = 9, l_key = SalesGoodsServices, l_run = 100, l_position = Some 0\<rparr>,
       \<lparr>l_notification = 9, l_key = StockBalance, l_run = 101, l_position = Some 1\<rparr>]\<rparr>"

lemma failed_occurrence_cancels_siblings_witness:
  "\<exists>db'. fail_run occurrence_db 100 ''w1'' ''SML_TIMEOUT'' ''late'' (10 * hour + 3 * second) = Inr db'
     \<and> map r_status (db_runs db') = [StatusFailed, StatusCancelled]
     \<and> (\<exists>m \<in> set (db_notifications db'). n_status m = NotificationFailed)"
proof -
  have "\<exists>db'. fail_run occurrence_db 100 ''w1'' ''SML_TIMEOUT'' ''late'' (10 * hour + 3 * second) = Inr db'
     \<and> map r_status (db_runs db') = [StatusFailed, StatusCancelled]"
    by (rule evaluated) code_simp
  then obtain db' where d: "fail_run occurrence_db 100 ''w1'' ''SML_TIMEOUT'' ''late'' (10 * hour + 3 * second) = Inr db'"
     "map r_status (db_runs db') = [StatusFailed, StatusCancelled]" by (elim exE conjE)
  have "map_option r_source (find_run occurrence_db 100) = Some SourceSchedule" by code_simp
  then obtain r where r: "find_run occurrence_db 100 = Some r" "r_source r = SourceSchedule" by auto
  define n where "n = hd (db_notifications occurrence_db)"
  have n: "db_notifications occurrence_db = [n]" "open_notification n" "n_id n = 9"
    by (simp_all add: n_def occurrence_db_def open_notification_def)
  have l: "linked occurrence_db (n_id n) 100" unfolding n(3) by code_simp
  have m: "n \<in> set (db_notifications occurrence_db)"
    "\<forall>m \<in> set (db_notifications occurrence_db). open_notification m \<and> linked occurrence_db (n_id m) 100 \<longrightarrow> m = n"
    unfolding n(1) by simp_all
  from failed_occurrence_cancels_siblings[OF d(1) r m(1) n(2) l m(2), THEN conjunct1]
  have "\<exists>m \<in> set (db_notifications db'). n_status m = NotificationFailed" by (elim bexE conjE) (rule bexI)
  then show ?thesis by (intro exI[of _ db'] conjI d)
qed

end
