(* ===== verification/RunResults.thy ===== *)
theory RunResults
  imports RunRecovery
begin

text \<open>
  The end of a run: what Complete stores, and that ListRows gives it back page by page.
\<close>

section \<open>The pages of the stored rows\<close>

lemma sort_by_sorted: "sorted_wrt lt xs \<Longrightarrow> (\<And>x y. lt x y \<Longrightarrow> \<not> lt y x) \<Longrightarrow> sort_by lt xs = xs"
proof (induction xs)
  case (Cons x xs)
  then show ?case by (cases xs) auto
qed simp

lemma length_number_rows [simp]: "length (number_rows run tenant now expires rows) = length rows"
  by (simp add: number_rows_def)

lemma number_rows_nth [simp]:
  "i < length rows \<Longrightarrow> rr_ordinal (number_rows run tenant now expires rows ! i) = i + 1"
  "i < length rows \<Longrightarrow> rr_row (number_rows run tenant now expires rows ! i) = rows ! i"
  "i < length rows \<Longrightarrow> rr_run (number_rows run tenant now expires rows ! i) = run"
  by (simp_all add: number_rows_def)

lemma number_rows_after:
  "filter (\<lambda>x. rr_run x = run \<and> int (rr_ordinal x) > int k) (number_rows run tenant now expires rows)
   = drop k (number_rows run tenant now expires rows)"
proof -
  let ?xs = "number_rows run tenant now expires rows"
  let ?p = "\<lambda>x. rr_run x = run \<and> int (rr_ordinal x) > int k"
  have "\<not> ?p x" if "x \<in> set (take k ?xs)" for x
  proof -
    from that obtain i where "i < k" "i < length rows" "x = ?xs ! i" by (auto simp: in_set_conv_nth)
    then show ?thesis by simp
  qed
  then have "filter ?p (take k ?xs) = []" by (simp add: filter_empty_conv)
  moreover have "filter ?p (drop k ?xs) = drop k ?xs" by (auto simp: filter_id_conv in_set_conv_nth)
  ultimately have "filter ?p (take k ?xs @ drop k ?xs) = drop k ?xs" unfolding filter_append by simp
  then show ?thesis unfolding append_take_drop_id .
qed

lemma number_rows_sorted:
  "sort_by (\<lambda>a b. rr_ordinal a < rr_ordinal b) (drop k (number_rows run tenant now expires rows))
   = drop k (number_rows run tenant now expires rows)"
  by (rule sort_by_sorted) (auto simp: sorted_wrt_iff_nth_less)

section \<open>Completion\<close>

lemma complete_run_cases:
  assumes "complete_run enc db run worker summary persist now = Inr db'" "distinct (map r_id (db_runs db))"
    "find_run db run = Some r"
  obtains dash where "r_claimed_by r = Some worker" "r_status r = StatusRunning"
    "stamp_dashboard enc (r_key r) now (sum_dashboard summary) = Inr dash"
    "db_runs db' = update_where (\<lambda>x. r_id x = run) (complete_row summary dash now (now + 24 * hour)) (db_runs db)"
    "db_result_rows db' = filter (\<lambda>x. rr_run x \<noteq> run) (db_result_rows db) @
       (if persist \<and> r_source r = SourceDashboard
        then number_rows run (r_tenant r) now (now + 24 * hour) (sum_rows summary) else [])"
    "db_chunks db' = filter (\<lambda>c. ch_run c \<noteq> run) (db_chunks db)"
    "db_circuits db' = reset_circuit (r_tenant r) now (db_circuits db)"
    "db_host_circuits db' = reset_host_circuit (host_of db (r_tenant r)) now (db_host_circuits db)"
    "db_connections db' = db_connections db"
proof -
  have r: "r \<in> set (db_runs db)" "r_id r = run" using assms(3) find_where_Some by (fastforce simp: find_run_def)+
  have only: "x = r" if "x \<in> set (db_runs db)" "r_id x = run" for x using codes_eq[OF assms(2) that(1) r(1)] that r(2) by simp
  from assms(1) obtain s where s: "find_where (\<lambda>r. r_id r = run \<and> owned worker now r \<and> r_status r = StatusRunning) (db_runs db) = Some s"
    by (auto simp: complete_run_def split: option.splits)
  from find_where_Some[OF this] only have s2: "s = r" "owned worker now r" "r_status r = StatusRunning" by blast+
  have upd: "update_where (\<lambda>x. r_id x = run \<and> r_claimed_by x = Some worker \<and> r_status x = StatusRunning) f (db_runs db)
      = update_where (\<lambda>x. r_id x = run) f (db_runs db)" for f
    unfolding update_where_def using only s2 by (auto simp: owned_def)
  from assms(1) s s2(1) obtain dash where "stamp_dashboard enc (r_key r) now (sum_dashboard summary) = Inr dash"
    by (auto simp: complete_run_def Let_def bindr_Inr_iff)
  note d = this
  let ?rows = "filter (\<lambda>x. rr_run x \<noteq> run) (db_result_rows db) @ (if persist \<and> r_source r = SourceDashboard
      then number_rows run (r_tenant r) now (now + 24 * hour) (sum_rows summary) else [])"
  define db1 where "db1 = update_run run (\<lambda>r. r_claimed_by r = Some worker \<and> r_status r = StatusRunning)
    (complete_row summary dash now (now + 24 * hour)) (db\<lparr>db_result_rows := ?rows\<rparr>)"
  have e: "db' = update_generations run now (db1\<lparr>
              db_chunks := filter (\<lambda>c. ch_run c \<noteq> run) (db_chunks db1),
              db_circuits := reset_circuit (r_tenant r) now (db_circuits db1),
              db_host_circuits := reset_host_circuit (host_of db1 (r_tenant r)) now (db_host_circuits db1)\<rparr>)"
    using assms(1) unfolding complete_run_def Let_def s s2(1) option.case d bindr.simps bindr_Inr_iff guarded_update_Inr db1_def
    by (elim exE conjE) (simp add: d)
  have h: "host_of db1 (r_tenant r) = host_of db (r_tenant r)" by (simp add: db1_def host_of_def update_run_def)
  show thesis
  proof (rule that[of dash])
    show "r_claimed_by r = Some worker" using s2(2) by (simp add: owned_def)
    show "db_runs db' = update_where (\<lambda>x. r_id x = run) (complete_row summary dash now (now + 24 * hour)) (db_runs db)"
      unfolding e by (simp add: db1_def upd)
    show "db_result_rows db' = ?rows" "db_connections db' = db_connections db"
      "db_chunks db' = filter (\<lambda>c. ch_run c \<noteq> run) (db_chunks db)"
      "db_circuits db' = reset_circuit (r_tenant r) now (db_circuits db)"
      "db_host_circuits db' = reset_host_circuit (host_of db (r_tenant r)) now (db_host_circuits db)"
      unfolding e h by (simp_all add: db1_def update_generations_def update_run_def)
  qed (use s2(3) d in auto)
qed

lemma find_where_update:
  assumes "distinct (map key rows)" "x \<in> set rows" "key x = k" "\<And>r. key (f r) = key r"
  shows "find_where (\<lambda>r. key r = k) (update_where (\<lambda>r. key r = k) f rows) = Some (f x)"
  using assms by (induction rows) (auto simp: update_where_def)

lemma update_where_cases:
  assumes "x \<in> set (update_where p f rows)" "p x"
  shows "\<exists>r. x = f r"
proof -
  from assms(1) obtain r where "x = (if p r then f r else r)" unfolding update_where_def set_map by (rule imageE)
  with assms(2) show ?thesis by (cases "p r") auto
qed

lemma upsert_where_cases:
  assumes "x \<in> set (upsert_where p f new rows)" "p x"
  shows "x = new \<or> (\<exists>r. x = f r)"
proof (cases "list_ex p rows")
  case True
  with assms(1) have "x \<in> set (update_where p f rows)" by (simp add: upsert_where_def)
  from update_where_cases[OF this assms(2)] show ?thesis by blast
next
  case False
  with assms show ?thesis by (auto simp: upsert_where_def list_ex_iff)
qed

lemma reset_circuit_closed: "c \<in> set (reset_circuit tenant now cs) \<Longrightarrow> c_tenant c = tenant \<Longrightarrow> c_open_until c = None"
  unfolding reset_circuit_def by (drule (1) upsert_where_cases, elim disjE exE; erule ssubst; simp (no_asm))

lemma reset_host_closed: "h \<in> set (reset_host_circuit (Some host) now hs) \<Longrightarrow> h_host h = host \<Longrightarrow> h_open_until h = None"
  unfolding reset_host_circuit_def by (drule update_where_cases, simp, elim exE, erule ssubst, simp (no_asm))

text \<open>Complete turns the running run into a succeeded one with its summary and a dashboard stamped
  with the time of completion, keeps the result for 24 hours, deletes its chunks, and closes the
  circuits of the tenant and of its host, so claims and requests of the tenant are open again.\<close>

theorem complete_run_effect:
  assumes "complete_run enc db run worker summary persist now = Inr db'" "distinct (map r_id (db_runs db))"
    "find_run db run = Some r"
  shows "\<exists>dash. stamp_dashboard enc (r_key r) now (sum_dashboard summary) = Inr dash
      \<and> find_run db' run = Some (complete_row summary dash now (now + 24 * hour) r)
      \<and> (\<forall>c \<in> set (db_chunks db'). ch_run c \<noteq> run)
      \<and> (\<forall>t. \<not> tenant_circuit_open db' (r_tenant r) t \<and> \<not> host_circuit_open db' (r_tenant r) t
             \<and> circuit_gate db' (r_tenant r) t = Inr False)"
proof (rule complete_run_cases[OF assms])
  fix dash
  assume d: "stamp_dashboard enc (r_key r) now (sum_dashboard summary) = Inr dash"
    and runs: "db_runs db' = update_where (\<lambda>x. r_id x = run) (complete_row summary dash now (now + 24 * hour)) (db_runs db)"
    and chunks: "db_chunks db' = filter (\<lambda>c. ch_run c \<noteq> run) (db_chunks db)"
    and circuits: "db_circuits db' = reset_circuit (r_tenant r) now (db_circuits db)"
    and hosts: "db_host_circuits db' = reset_host_circuit (host_of db (r_tenant r)) now (db_host_circuits db)"
    and conn: "db_connections db' = db_connections db"
  have r: "r \<in> set (db_runs db)" "r_id r = run" using assms(3) find_where_Some by (fastforce simp: find_run_def)+
  have "find_run db' run = Some (complete_row summary dash now (now + 24 * hour) r)"
    unfolding find_run_def runs by (rule find_where_update[OF assms(2) r]) (simp add: complete_row_def)
  moreover have "\<not> tenant_circuit_open db' (r_tenant r) t" for t
    using reset_circuit_closed unfolding tenant_circuit_open_def circuits list_ex_iff by fastforce
  moreover have "\<not> host_circuit_open db' (r_tenant r) t" for t
  proof (cases "host_of db (r_tenant r)")
    case (Some h)
    then show ?thesis using reset_host_closed[of _ h now "db_host_circuits db"]
      by (fastforce simp: host_circuit_open_def hosts host_of_def conn list_ex_iff)
  qed (simp add: host_circuit_open_def host_of_def conn)
  moreover have "circuit_gate db' (r_tenant r) t = Inr False" for t
    using reset_circuit_closed find_where_Some
    by (cases "find_where (\<lambda>c. c_tenant c = r_tenant r) (db_circuits db')")
      (fastforce simp: circuit_gate_def circuits)+
  ultimately show ?thesis using d chunks by auto
qed

text \<open>C13: The rows of a completed dashboard run can be read back: the page after ordinal k holds
  rows k+1 to k+n in the order of the summary, names the ordinal of its last row, and says whether
  more follow; after 24 hours the rows are reported as expired.\<close>

theorem stored_rows_read_back:
  assumes "complete_run enc db run worker summary True now = Inr db'" "distinct (map r_id (db_runs db))"
    "find_run db run = Some r" "r_source r = SourceDashboard" "1 \<le> n" "n \<le> 100"
  shows "list_rows db' run (int k) (int n) t = (if now + 24 * hour \<le> t then Inl ErrRunRowsExpired
    else Inr \<lparr>rp_rows = take n (drop k (sum_rows summary)),
      rp_next_ordinal = (if k < length (sum_rows summary) then min (k + n) (length (sum_rows summary)) else 0),
      rp_has_more = (k + n < length (sum_rows summary))\<rparr>)"
proof (rule complete_run_cases[OF assms(1-3)])
  fix dash
  let ?stored = "number_rows run (r_tenant r) now (now + 24 * hour) (sum_rows summary)"
  assume runs: "db_runs db' = update_where (\<lambda>x. r_id x = run) (complete_row summary dash now (now + 24 * hour)) (db_runs db)"
    and stored: "db_result_rows db' = filter (\<lambda>x. rr_run x \<noteq> run) (db_result_rows db) @
       (if True \<and> r_source r = SourceDashboard then ?stored else [])"
  have r: "r \<in> set (db_runs db)" "r_id r = run" using assms(3) find_where_Some by (fastforce simp: find_run_def)+
  have f: "find_run db' run = Some (complete_row summary dash now (now + 24 * hour) r)"
    unfolding find_run_def runs by (rule find_where_update[OF assms(2) r]) (simp add: complete_row_def)
  have "filter (\<lambda>x. rr_run x = run \<and> int (rr_ordinal x) > int k) (db_result_rows db') = drop k ?stored"
    unfolding stored filter_append using assms(4) number_rows_after by (simp add: filter_empty_conv del: filter_filter)
  then have found: "sort_by (\<lambda>a b. rr_ordinal a < rr_ordinal b)
      (filter (\<lambda>x. rr_run x = run \<and> int (rr_ordinal x) > int k) (db_result_rows db')) = drop k ?stored"
    by (simp only: number_rows_sorted)
  have rows: "map rr_row ?stored = sum_rows summary" by (rule nth_equalityI) simp_all
  have items: "take n (take (n + 1) (drop k ?stored)) = take n (drop k ?stored)" by simp
  have last: "rr_ordinal (last (take n (drop k ?stored))) = min (k + n) (length (sum_rows summary))"
    if "k < length (sum_rows summary)"
  proof -
    have "last (take n (drop k ?stored)) = ?stored ! (min (k + n) (length (sum_rows summary)) - 1)"
      using that assms(5) by (subst last_conv_nth) (auto simp: min_def intro!: arg_cong[where f = "nth _"])
    then show ?thesis using that assms(5) by (simp add: min_def) linarith
  qed
  show ?thesis
  proof (cases "now + 24 * hour \<le> t")
    case True
    then show ?thesis using assms(5,6) f by (simp add: list_rows_def complete_row_def)
  next
    case False
    then have "list_rows db' run (int k) (int n) t = Inr \<lparr>rp_rows = map rr_row (take n (drop k ?stored)),
        rp_next_ordinal = (if take n (drop k ?stored) = [] then 0 else rr_ordinal (last (take n (drop k ?stored)))),
        rp_has_more = length (take (n + 1) (drop k ?stored)) > n\<rparr>"
      using assms(5,6) f found items by (simp add: list_rows_def complete_row_def Let_def del: take_take)
    also have "map rr_row (take n (drop k ?stored)) = take n (drop k (sum_rows summary))"
      by (metis rows take_map drop_map)
    finally show ?thesis using False last assms(5) by (auto simp: min_def)
  qed
qed

section \<open>A completed request\<close>

definition sample_summary :: summary_result where
  "sample_summary = \<lparr>sum_metrics = Map.empty, sum_rows = [[''doc_no'' \<mapsto> ''A1''], [''doc_no'' \<mapsto> ''A2''], [''doc_no'' \<mapsto> ''A3'']],
     sum_row_count = 3, sum_reconciliation = Map.empty, sum_dashboard = None\<rparr>"

lemma sample_completes:
  "\<exists>db'. complete_run (\<lambda>_. 0) running_db 100 ''w1'' sample_summary True (10 * hour + 5 * second) = Inr db'
     \<and> map r_status (db_runs db') = [StatusSucceeded]"
  by (rule evaluated) code_simp

lemma sample_running: "\<exists>r. find_run running_db 100 = Some r \<and> r_source r = SourceDashboard \<and> r_tenant r = 1"
  "distinct (map r_id (db_runs running_db))"
  by (rule evaluated_option) code_simp+

lemma complete_run_effect_witness:
  "\<exists>db'. complete_run (\<lambda>_. 0) running_db 100 ''w1'' sample_summary True (10 * hour + 5 * second) = Inr db'
     \<and> circuit_gate db' 1 0 = Inr False"
proof -
  obtain db' where c: "complete_run (\<lambda>_. 0) running_db 100 ''w1'' sample_summary True (10 * hour + 5 * second) = Inr db'"
    using sample_completes by (elim exE conjE)
  obtain r where r: "find_run running_db 100 = Some r" "r_tenant r = 1" using sample_running(1) by (elim exE conjE)
  from complete_run_effect[OF c sample_running(2) r(1)] have "circuit_gate db' 1 0 = Inr False"
    unfolding r(2) by (elim exE conjE) (drule spec, elim conjE)
  with c show ?thesis by (intro exI conjI)
qed

lemma stored_rows_read_back_witness:
  "\<exists>db'. complete_run (\<lambda>_. 0) running_db 100 ''w1'' sample_summary True (10 * hour + 5 * second) = Inr db'
     \<and> list_rows db' 100 1 1 (20 * hour) = Inr \<lparr>rp_rows = [[''doc_no'' \<mapsto> ''A2'']], rp_next_ordinal = 2, rp_has_more = True\<rparr>
     \<and> list_rows db' 100 1 1 (40 * hour) = Inl ErrRunRowsExpired"
proof -
  obtain db' where c: "complete_run (\<lambda>_. 0) running_db 100 ''w1'' sample_summary True (10 * hour + 5 * second) = Inr db'"
    using sample_completes by (elim exE conjE)
  obtain r where r: "find_run running_db 100 = Some r" "r_source r = SourceDashboard" using sample_running(1) by (elim exE conjE)
  note read = stored_rows_read_back[OF c sample_running(2) r, of 1 1]
  have "list_rows db' 100 1 1 (20 * hour) = Inr \<lparr>rp_rows = [[''doc_no'' \<mapsto> ''A2'']], rp_next_ordinal = 2, rp_has_more = True\<rparr>"
    using read[of "20 * hour"] by (simp add: sample_summary_def hour_def minute_def second_def)
  moreover have "list_rows db' 100 1 1 (40 * hour) = Inl ErrRunRowsExpired"
    using read[of "40 * hour"] by (simp add: hour_def minute_def second_def)
  ultimately show ?thesis using c by (intro exI conjI)
qed

end
