(* ===== verification/Generations.thy ===== *)
theory Generations
  imports RunResults
begin

text \<open>
  Dashboard refreshes and generations (database/report_store.go, database/dashboard_generation.go).
  A refresh asks for several reports of one tenant.  With the generation cache its runs belong to a
  generation, which is published when all of them have succeeded and fails when one fails; without
  it the refresh only links its runs.  The UUID text and the SHA-256 digest in hexadecimal are the
  parameters of codec.
\<close>

section \<open>Texts\<close>

record codec =
  cd_uuid :: "uuid \<Rightarrow> string"
  cd_hash :: "string \<Rightarrow> string"

fun preset_string :: "preset \<Rightarrow> string" where
  "preset_string Yesterday = ''YESTERDAY''"
| "preset_string TodayToNow = ''TODAY_TO_NOW''"
| "preset_string MonthToDate = ''MONTH_TO_DATE''"
| "preset_string AsOfRun = ''AS_OF_RUN''"
| "preset_string Custom = ''CUSTOM''"
| "preset_string (OtherPreset s) = s"

fun parameter_kind_string :: "parameter_kind \<Rightarrow> string" where
  "parameter_kind_string DateRange = ''DATE_RANGE''"
| "parameter_kind_string AsOfDate = ''AS_OF_DATE''"
| "parameter_kind_string CurrentOnly = ''CURRENT_ONLY''"
| "parameter_kind_string (OtherParameterKind s) = s"

definition nul :: string where "nul = [char_of (0::nat)]"

text \<open>
  encoding/json on the strings of a request: quotation marks, backslashes, control characters and
  the characters of HTML are escaped, other ASCII characters stand for themselves.
\<close>

definition hex_digit :: "nat \<Rightarrow> char" where
  "hex_digit n = (if n < 10 then char_of (48 + n) else char_of (87 + n))"

definition json_char :: "char \<Rightarrow> string" where
  "json_char c = (let n = (of_char c :: nat) in
     if n = 34 \<or> n = 92 then [char_of (92::nat), c]
     else if n = 8 then [char_of (92::nat), CHR ''b''] else if n = 12 then [char_of (92::nat), CHR ''f'']
     else if n = 10 then [char_of (92::nat), CHR ''n''] else if n = 13 then [char_of (92::nat), CHR ''r'']
     else if n = 9 then [char_of (92::nat), CHR ''t'']
     else if n < 32 \<or> n = 60 \<or> n = 62 \<or> n = 38
       then char_of (92::nat) # ''u00'' @ [hex_digit (n div 16), hex_digit (n mod 16)]
     else [c])"

definition json_string :: "string \<Rightarrow> string" where
  "json_string s = CHR 0x22 # concat (map json_char s) @ [CHR 0x22]"

definition json_field :: "string \<Rightarrow> string \<Rightarrow> string" where
  "json_field name v = json_string name @ '':'' @ v"

fun join_with :: "string \<Rightarrow> string list \<Rightarrow> string" where
  "join_with sep [] = ''''"
| "join_with sep [x] = x"
| "join_with sep (x # y # xs) = x @ sep @ join_with sep (y # xs)"

definition json_object :: "(string \<times> string) list \<Rightarrow> string" where
  "json_object fs = ''{'' @ join_with '','' (map (\<lambda>(n, v). json_field n v) fs) @ ''}''"

definition json_array :: "string list \<Rightarrow> string" where
  "json_array xs = ''['' @ join_with '','' xs @ '']''"

section \<open>The description of a generation\<close>

record generation_item =
  gi_key :: key
  gi_period :: period
  gi_fingerprint :: string

record generation_descriptor =
  gd_key :: string
  gd_report_set_hash :: string
  gd_plan_set_fingerprint :: string
  gd_request :: string
  gd_preset :: preset
  gd_from :: string
  gd_to :: string

definition period_json :: "period \<Rightarrow> string" where
  "period_json p = json_object [(''preset'', json_string (preset_string (preset p))),
     (''dateFrom'', json_string (date_from p)), (''dateTo'', json_string (date_to p))]"

definition item_json :: "generation_item \<Rightarrow> string" where
  "item_json i = json_object [(''reportKey'', json_string (key_string (gi_key i))),
     (''period'', period_json (gi_period i)), (''queryPlanFingerprint'', json_string (gi_fingerprint i))]"

definition generation_item_of :: "store_config \<Rightarrow> enqueue_input \<Rightarrow> generation_item" where
  "generation_item_of cfg i = \<lparr>gi_key = in_key i, gi_period = in_period i,
     gi_fingerprint = cfg_fingerprint cfg (in_key i) ResultSummary\<rparr>"

definition complete_item :: "generation_item \<Rightarrow> bool" where
  "complete_item i \<longleftrightarrow> gi_fingerprint i \<noteq> '''' \<and> date_from (gi_period i) \<noteq> '''' \<and> date_to (gi_period i) \<noteq> ''''"

fun earliest :: "string \<Rightarrow> string list \<Rightarrow> string" where
  "earliest acc [] = acc"
| "earliest acc (d # ds) = earliest (if acc = '''' \<or> d < acc then d else acc) ds"

fun latest :: "string \<Rightarrow> string list \<Rightarrow> string" where
  "latest acc [] = acc"
| "latest acc (d # ds) = latest (if acc = '''' \<or> d > acc then d else acc) ds"

definition describe_generation :: "codec \<Rightarrow> store_config \<Rightarrow> uuid \<Rightarrow> enqueue_input list \<Rightarrow> int
    \<Rightarrow> string + generation_descriptor" where
  "describe_generation cd cfg tenant inputs version = (
     if tenant = nil_uuid \<or> inputs = [] then Inl ''dashboard generation input is incomplete''
     else if \<not> list_all complete_item (map (generation_item_of cfg) inputs)
     then Inl ''dashboard generation report contract is incomplete''
     else (let items = map (generation_item_of cfg) inputs;
               sorted_items = sort_by (\<lambda>a b. key_string (gi_key a) < key_string (gi_key b)) items;
               request = json_array (map item_json sorted_items);
               keyset = cd_hash cd (join_with nul (sort (map (\<lambda>i. key_string (gi_key i)) items)));
               planset = cd_hash cd (join_with nul (sort (map (\<lambda>i. key_string (gi_key i) @ '':'' @ gi_fingerprint i) items)))
           in Inr \<lparr> gd_key = cd_hash cd (cd_uuid cd tenant @ nul @ request @ nul @ int_str version @ nul @ keyset @ nul @ ''SUMMARY''),
                gd_report_set_hash = keyset, gd_plan_set_fingerprint = planset, gd_request = request,
                gd_preset = preset (in_period (hd inputs)),
                gd_from = earliest '''' (map (\<lambda>i. date_from (in_period i)) inputs),
                gd_to = latest '''' (map (\<lambda>i. date_to (in_period i)) inputs) \<rparr>))"

definition snapshot_execution_key :: "codec \<Rightarrow> uuid \<Rightarrow> key \<Rightarrow> period \<Rightarrow> parameter_kind \<Rightarrow> string \<Rightarrow> int \<Rightarrow> string \<Rightarrow> string" where
  "snapshot_execution_key cd tenant k p mode version source_version fingerprint =
     cd_hash cd (cd_uuid cd tenant @ nul @ key_string k @ nul @ parameter_kind_string mode @ nul @ date_from p @ nul
       @ date_to p @ nul @ version @ nul @ int_str source_version @ nul @ fingerprint @ nul @ ''SUMMARY'')"

section \<open>Reading a refresh\<close>

datatype refresh_error = RefreshInputInvalid | RefreshNotReady | RefreshRun run_error

record refresh_view =
  rv_id :: uuid
  rv_tenant :: uuid
  rv_generation :: "uuid option"
  rv_status :: refresh_status
  rv_total :: int
  rv_completed :: int
  rv_failed :: int
  rv_runs :: "(key \<times> run_row) list"
  rv_created_at :: instant
  rv_finished_at :: "instant option"

text \<open>The links of a refresh joined with their runs.\<close>

definition refresh_runs :: "db \<Rightarrow> uuid \<Rightarrow> (key \<times> run_row) list" where
  "refresh_runs db refresh = sort_by (\<lambda>a b. key_string (fst a) < key_string (fst b))
     (concat (map (\<lambda>l. map (\<lambda>r. (fl_key l, r)) (filter (\<lambda>r. r_id r = fl_run l) (db_runs db)))
       (filter (\<lambda>l. fl_refresh l = refresh) (db_refresh_links db))))"

definition generation_status_of :: "db \<Rightarrow> uuid option \<Rightarrow> generation_status option" where
  "generation_status_of db gen = (case gen of None \<Rightarrow> None
     | Some g \<Rightarrow> map_option g_status (find_where (\<lambda>x. g_id x = g) (db_generations db)))"

definition refresh_status_for :: "generation_status option \<Rightarrow> int \<Rightarrow> nat \<Rightarrow> nat \<Rightarrow> nat \<Rightarrow> nat \<Rightarrow> refresh_status" where
  "refresh_status_for gen wanted queued running completed failed = (
     if gen = Some GenerationFailed then RefreshFailed
     else if gen = Some GenerationPublished then RefreshSucceeded
     else if running > 0 then RefreshRunning
     else if queued > 0 then RefreshQueued
     else if int completed = wanted then RefreshSucceeded
     else if completed > 0 \<and> failed > 0 then RefreshPartial
     else RefreshFailed)"

definition refresh_terminal :: "refresh_status \<Rightarrow> bool" where
  "refresh_terminal s \<longleftrightarrow> s = RefreshSucceeded \<or> s = RefreshPartial \<or> s = RefreshFailed"

definition find_refresh :: "db \<Rightarrow> uuid \<Rightarrow> uuid \<Rightarrow> uuid \<Rightarrow> refresh_row option" where
  "find_refresh db recipient tenant refresh = find_where
     (\<lambda>f. f_id f = refresh \<and> f_tenant f = tenant \<and> f_recipient f = recipient) (db_refreshes db)"

definition get_refresh :: "db \<Rightarrow> uuid \<Rightarrow> uuid \<Rightarrow> uuid \<Rightarrow> instant \<Rightarrow> refresh_error + (db \<times> refresh_view)" where
  "get_refresh db recipient tenant refresh now = (case find_refresh db recipient tenant refresh of
     None \<Rightarrow> Inl (RefreshRun ErrRunNotFound)
   | Some f \<Rightarrow> (let runs = refresh_runs db refresh;
       cnt = (\<lambda>p. count_where (\<lambda>x. p (snd x)) runs);
       status = refresh_status_for (generation_status_of db (f_generation f)) (f_total f)
         (cnt (\<lambda>r. r_status r = StatusQueued)) (cnt is_active) (cnt (\<lambda>r. r_status r = StatusSucceeded)) (cnt is_failed);
       completed = int (cnt (\<lambda>r. r_status r = StatusSucceeded)); failed = int (cnt is_failed);
       finished = (if refresh_terminal status \<and> f_finished_at f = None then Some now else f_finished_at f)
     in Inr (db\<lparr>db_refreshes := update_where (\<lambda>x. f_id x = refresh) (\<lambda>x. x\<lparr>f_status := status, f_completed := completed,
                f_failed := failed,
                f_finished_at := (if refresh_terminal status then Some (coalesce (f_finished_at x) now) else None),
                f_updated_at := now\<rparr>) (db_refreshes db)\<rparr>,
             \<lparr>rv_id = refresh, rv_tenant = tenant, rv_generation = f_generation f, rv_status = status,
              rv_total = f_total f, rv_completed = completed, rv_failed = failed, rv_runs = runs,
              rv_created_at = f_created_at f, rv_finished_at = finished\<rparr>)))"

section \<open>Creating a refresh\<close>

fun check_refresh_inputs :: "uuid \<Rightarrow> uuid \<Rightarrow> key list \<Rightarrow> enqueue_input list \<Rightarrow> refresh_error + unit" where
  "check_refresh_inputs recipient tenant seen [] = Inr ()"
| "check_refresh_inputs recipient tenant seen (i # rest) = (
     if in_tenant i \<noteq> tenant \<or> in_source i \<noteq> SourceDashboard \<or> in_recipient i \<noteq> Some recipient
     then Inl (RefreshRun ErrRunForbidden)
     else if definition_for (in_key i) = None \<or> date_from (in_period i) = '''' \<or> date_to (in_period i) = ''''
     then Inl RefreshInputInvalid
     else if in_key i \<in> set seen then Inl RefreshInputInvalid
     else check_refresh_inputs recipient tenant (in_key i # seen) rest)"

text \<open>want is the Go map from report to period, so a later input of the same report wins.\<close>

definition inputs_match :: "db \<Rightarrow> uuid \<Rightarrow> enqueue_input list \<Rightarrow> bool" where
  "inputs_match db refresh inputs = (
     let want = map_of (rev (map (\<lambda>i. (in_key i, in_period i)) inputs)); runs = refresh_runs db refresh
     in list_all (\<lambda>(k, r). want k = Some (r_period r)) runs
        \<and> length runs = card (set (map in_key inputs)))"

definition refresh_allowed :: "db \<Rightarrow> uuid \<Rightarrow> uuid \<Rightarrow> instant \<Rightarrow> bool" where
  "refresh_allowed db tenant recipient now \<longleftrightarrow> tenant_open db tenant now
     \<and> list_ex (\<lambda>m. m_tenant m = tenant \<and> m_recipient m = recipient \<and> m_status m = RecipientActive) (db_memberships db)
     \<and> list_ex (\<lambda>u. u_id u = recipient \<and> u_status u = RecipientActive) (db_recipients db)"

definition refresh_permissions :: "db \<Rightarrow> uuid \<Rightarrow> uuid \<Rightarrow> enqueue_input list \<Rightarrow> nat" where
  "refresh_permissions db tenant recipient inputs = count_where
     (\<lambda>p. p_tenant p = tenant \<and> p_recipient p = recipient \<and> p_key p \<in> set (map in_key inputs)) (db_permissions db)"

definition refresh_priority :: "key \<Rightarrow> int" where
  "refresh_priority k = (case definition_for k of None \<Rightarrow> 84
     | Some d \<Rightarrow> if def_refresh_class d = RefreshFast then 85 else if def_refresh_class d = RefreshHeavy then 83 else 84)"

definition source_version :: "db \<Rightarrow> uuid \<Rightarrow> int" where
  "source_version db tenant = (case find_where (\<lambda>k. k_tenant k = tenant) (db_connections db) of
     None \<Rightarrow> 0 | Some k \<Rightarrow> k_version k)"

definition refresh_execution_key :: "codec \<Rightarrow> store_config \<Rightarrow> uuid \<Rightarrow> int \<Rightarrow> enqueue_input \<Rightarrow> string" where
  "refresh_execution_key cd cfg tenant version i = (case definition_for (in_key i) of
     None \<Rightarrow> snapshot_execution_key cd tenant (in_key i) (in_period i) (OtherParameterKind '''') '''' version
       (cfg_fingerprint cfg (in_key i) ResultSummary)
   | Some d \<Rightarrow> snapshot_execution_key cd tenant (in_key i) (in_period i) (def_parameter_kind d) (def_version d) version
       (cfg_fingerprint cfg (in_key i) ResultSummary))"

text \<open>The columns the insert does not name take the defaults of the table.\<close>

definition refresh_run :: "codec \<Rightarrow> store_config \<Rightarrow> uuid \<Rightarrow> uuid \<Rightarrow> uuid \<Rightarrow> int \<Rightarrow> enqueue_input \<Rightarrow> uuid \<Rightarrow> string \<Rightarrow> int \<Rightarrow> instant \<Rightarrow> run_row" where
  "refresh_run cd cfg tenant recipient refresh version i new_id def_ver row_version now = \<lparr>
     r_id = new_id, r_tenant = tenant, r_key = in_key i, r_source = SourceDashboard, r_kind = ResultSummary,
     r_priority = refresh_priority (in_key i),
     r_execution_key = Some (refresh_execution_key cd cfg tenant version i),
     r_idempotency = ''overview:'' @ cd_uuid cd refresh @ '':'' @ key_string (in_key i), r_status = StatusQueued,
     r_period = in_period i, r_recipient = Some recipient, r_claimed_by = None, r_claimed_at = None, r_lease = None,
     r_attempt = 0, r_row_count = 0, r_summary = Map.empty, r_reconciliation = Map.empty, r_dashboard = None,
     r_error_code = None, r_error_message = None, r_queued_at = now, r_started_at = None, r_finished_at = None,
     r_source_started_at = None, r_source_finished_at = None, r_expires_at = now + 24 * hour, r_created_at = now,
     r_updated_at = now, r_definition_version = def_ver, r_data_version = row_version,
     r_fingerprint = cfg_fingerprint cfg (in_key i) ResultSummary, r_strategy = ExecutionDirect,
     r_consistency = ConsistencyStatement, r_phase = ProgressQueued, r_progress_seq = 0, r_completed_steps = 0,
     r_total_steps = 0, r_progress_updated_at = Some now, r_expected_p50 = None, r_expected_p90 = None,
     r_sample_count = 0, r_completed_chunks = 0, r_total_chunks = 0 \<rparr>"

definition insert_refresh_run :: "codec \<Rightarrow> store_config \<Rightarrow> uuid \<Rightarrow> uuid \<Rightarrow> uuid \<Rightarrow> int \<Rightarrow> enqueue_input \<Rightarrow> uuid \<Rightarrow> instant \<Rightarrow> db
    \<Rightarrow> run_error + db" where
  "insert_refresh_run cd cfg tenant recipient refresh version i new_id now db = (
     case find_where (\<lambda>d. d_key d = in_key i) (db_definitions db) of
       None \<Rightarrow> Inl (ErrRun ''link dashboard refresh report run'')
     | Some d \<Rightarrow> (let new = refresh_run cd cfg tenant recipient refresh version i new_id (d_version d)
                             (source_version db tenant) now
         in if list_ex (insert_conflict new) (db_runs db) then Inl (ErrRun ''insert dashboard refresh report run'')
            else Inr (db\<lparr>db_runs := db_runs db @ [new]\<rparr>)))"

definition coalesced_run :: "db \<Rightarrow> uuid \<Rightarrow> string \<Rightarrow> run_row option" where
  "coalesced_run db tenant execution_key = select_first
     (\<lambda>a b. r_queued_at a < r_queued_at b \<or> r_queued_at a = r_queued_at b \<and> r_id a < r_id b)
     (\<lambda>r. r_tenant r = tenant \<and> r_execution_key r = Some execution_key \<and> r_kind r = ResultSummary
        \<and> (r_source r = SourceDashboard \<or> r_source r = SourceBackground) \<and> is_unfinished r) (db_runs db)"

text \<open>The links have unique constraints: a report and a run occur once in a refresh or generation.\<close>

definition link_refresh :: "uuid \<Rightarrow> key \<Rightarrow> uuid \<Rightarrow> db \<Rightarrow> run_error + db" where
  "link_refresh refresh k run db = (
     if list_ex (\<lambda>l. fl_refresh l = refresh \<and> (fl_key l = k \<or> fl_run l = run)) (db_refresh_links db)
     then Inl (ErrRun ''link dashboard refresh report run'')
     else Inr (db\<lparr>db_refresh_links := db_refresh_links db @ [\<lparr>fl_refresh = refresh, fl_key = k, fl_run = run\<rparr>]\<rparr>))"

definition link_generation :: "uuid \<Rightarrow> uuid \<Rightarrow> key \<Rightarrow> uuid \<Rightarrow> int \<Rightarrow> db \<Rightarrow> run_error + db" where
  "link_generation gen tenant k run pos db = (
     if list_ex (\<lambda>l. gl_generation l = gen \<and> (gl_key l = k \<or> gl_run l = run \<or> gl_position l = pos)) (db_generation_links db)
     then Inl (ErrRun ''link dashboard generation report run'')
     else Inr (db\<lparr>db_generation_links := db_generation_links db @
       [\<lparr>gl_generation = gen, gl_tenant = tenant, gl_key = k, gl_run = run, gl_position = pos\<rparr>]\<rparr>))"

text \<open>The loop over the inputs of a new generation; run_ids gives the fresh id of a position.\<close>

fun generation_loop :: "codec \<Rightarrow> store_config \<Rightarrow> uuid \<Rightarrow> uuid \<Rightarrow> uuid \<Rightarrow> uuid \<Rightarrow> int \<Rightarrow> (nat \<Rightarrow> uuid) \<Rightarrow> instant \<Rightarrow> nat
    \<Rightarrow> enqueue_input list \<Rightarrow> db \<Rightarrow> run_error + db" where
  "generation_loop cd cfg tenant recipient refresh gen version run_ids now pos [] db = Inr db"
| "generation_loop cd cfg tenant recipient refresh gen version run_ids now pos (i # rest) db =
     bindr (case coalesced_run db tenant (refresh_execution_key cd cfg tenant version i) of
         Some r \<Rightarrow> Inr (r_id r, db)
       | None \<Rightarrow> bindr (insert_refresh_run cd cfg tenant recipient refresh version i (run_ids pos) now db)
                   (\<lambda>db1. Inr (run_ids pos, db1))) (\<lambda>(run, db1).
     bindr (link_refresh refresh (in_key i) run db1) (\<lambda>db2.
     bindr (link_generation gen tenant (in_key i) run (int pos + 1) db2)
       (generation_loop cd cfg tenant recipient refresh gen version run_ids now (Suc pos) rest)))"

fun legacy_loop :: "codec \<Rightarrow> store_config \<Rightarrow> uuid \<Rightarrow> uuid \<Rightarrow> uuid \<Rightarrow> int \<Rightarrow> (nat \<Rightarrow> uuid) \<Rightarrow> instant \<Rightarrow> nat
    \<Rightarrow> enqueue_input list \<Rightarrow> db \<Rightarrow> run_error + db" where
  "legacy_loop cd cfg tenant recipient refresh version run_ids now pos [] db = Inr db"
| "legacy_loop cd cfg tenant recipient refresh version run_ids now pos (i # rest) db =
     bindr (insert_refresh_run cd cfg tenant recipient refresh version i (run_ids pos) now db) (\<lambda>db1.
     bindr (link_refresh refresh (in_key i) (run_ids pos) db1)
       (legacy_loop cd cfg tenant recipient refresh version run_ids now (Suc pos) rest))"

definition new_refresh :: "uuid \<Rightarrow> uuid \<Rightarrow> uuid \<Rightarrow> string \<Rightarrow> nat \<Rightarrow> uuid option \<Rightarrow> string option \<Rightarrow> instant \<Rightarrow> refresh_row" where
  "new_refresh refresh tenant recipient idem wanted gen request now = \<lparr>f_id = refresh, f_tenant = tenant,
     f_recipient = recipient, f_idempotency = idem, f_total = int wanted, f_generation = gen, f_request_hash = request,
     f_status = RefreshQueued, f_completed = 0, f_failed = 0, f_finished_at = None, f_created_at = now, f_updated_at = now\<rparr>"

definition legacy_active :: "db \<Rightarrow> uuid \<Rightarrow> bool" where
  "legacy_active db tenant = list_ex (\<lambda>f. f_tenant f = tenant
     \<and> list_ex (\<lambda>l. fl_refresh l = f_id f \<and> list_ex (\<lambda>r. r_id r = fl_run l \<and> is_unfinished r) (db_runs db))
         (db_refresh_links db)) (db_refreshes db)"

definition create_legacy :: "codec \<Rightarrow> store_config \<Rightarrow> db \<Rightarrow> uuid \<Rightarrow> uuid \<Rightarrow> string \<Rightarrow> enqueue_input list \<Rightarrow> int \<Rightarrow> uuid \<Rightarrow> (nat \<Rightarrow> uuid)
    \<Rightarrow> instant \<Rightarrow> run_error + db" where
  "create_legacy cd cfg db recipient tenant idem inputs version refresh run_ids now = (
     if legacy_active db tenant then Inl ErrRunConcurrencyLimit
     else legacy_loop cd cfg tenant recipient refresh version run_ids now 0 inputs
       (db\<lparr>db_refreshes := db_refreshes db @ [new_refresh refresh tenant recipient idem (length inputs) None None now]\<rparr>))"

definition new_generation :: "uuid \<Rightarrow> uuid \<Rightarrow> generation_descriptor \<Rightarrow> int \<Rightarrow> nat \<Rightarrow> instant \<Rightarrow> generation_row" where
  "new_generation gen tenant d version wanted now = \<lparr>g_id = gen, g_tenant = tenant, g_key = gd_key d,
     g_status = GenerationBuilding, g_preset = gd_preset d, g_from = gd_from d, g_to = gd_to d,
     g_report_set_hash = gd_report_set_hash d, g_plan_set_fingerprint = gd_plan_set_fingerprint d,
     g_data_version = version, g_consistency = ConsistencySerialWindow, g_total = int wanted, g_completed = 0,
     g_failed = 0, g_source_started_at = None, g_source_finished_at = None, g_published_at = None,
     g_finished_at = None, g_created_at = now, g_updated_at = now\<rparr>"

definition building :: "uuid \<Rightarrow> generation_row \<Rightarrow> bool" where
  "building tenant g \<longleftrightarrow> g_tenant g = tenant \<and> g_status g = GenerationBuilding"

text \<open>A refresh joins the generation under construction for the same request, or starts one.\<close>

definition create_generation :: "codec \<Rightarrow> store_config \<Rightarrow> db \<Rightarrow> uuid \<Rightarrow> uuid \<Rightarrow> string \<Rightarrow> enqueue_input list \<Rightarrow> int \<Rightarrow> uuid \<Rightarrow> uuid
    \<Rightarrow> (nat \<Rightarrow> uuid) \<Rightarrow> instant \<Rightarrow> run_error + db" where
  "create_generation cd cfg db recipient tenant idem inputs version gen refresh run_ids now =
     (case describe_generation cd cfg tenant inputs version of
       Inl e \<Rightarrow> Inl (ErrRun e)
     | Inr d \<Rightarrow> (case find_where (\<lambda>g. building tenant g \<and> g_key g = gd_key d) (db_generations db) of
         Some g \<Rightarrow> Inr (db\<lparr>
             db_refreshes := db_refreshes db @ [new_refresh refresh tenant recipient idem (length inputs)
               (Some (g_id g)) (Some (gd_key d)) now],
             db_refresh_links := db_refresh_links db @ map (\<lambda>l. \<lparr>fl_refresh = refresh, fl_key = gl_key l, fl_run = gl_run l\<rparr>)
               (filter (\<lambda>l. gl_generation l = g_id g) (db_generation_links db))\<rparr>)
       | None \<Rightarrow> if count_where (building tenant) (db_generations db) \<ge> 2 then Inl ErrRunConcurrencyLimit
           else generation_loop cd cfg tenant recipient refresh gen version run_ids now 0 inputs
             (db\<lparr>db_generations := db_generations db @ [new_generation gen tenant d version (length inputs) now],
                db_refreshes := db_refreshes db @ [new_refresh refresh tenant recipient idem (length inputs)
                  (Some gen) (Some (gd_key d)) now]\<rparr>)))"

fun run_result :: "run_error + 'a \<Rightarrow> refresh_error + 'a" where
  "run_result (Inl e) = Inl (RefreshRun e)"
| "run_result (Inr x) = Inr x"

definition create_refresh :: "codec \<Rightarrow> store_config \<Rightarrow> db \<Rightarrow> uuid \<Rightarrow> uuid \<Rightarrow> string \<Rightarrow> enqueue_input list \<Rightarrow> uuid \<Rightarrow> uuid
    \<Rightarrow> (nat \<Rightarrow> uuid) \<Rightarrow> instant \<Rightarrow> refresh_error + (db \<times> refresh_view)" where
  "create_refresh cd cfg db recipient tenant idem inputs gen refresh run_ids now = (
     if length idem < 8 \<or> length idem > 200 \<or> inputs = [] \<or> length inputs > length keys then Inl RefreshInputInvalid
     else bindr (check_refresh_inputs recipient tenant [] inputs) (\<lambda>_.
     case find_where (\<lambda>f. f_tenant f = tenant \<and> f_recipient f = recipient \<and> f_idempotency f = idem) (db_refreshes db) of
       Some f \<Rightarrow> if inputs_match db (f_id f) inputs then get_refresh db recipient tenant (f_id f) now
                else Inl (RefreshRun ErrRunIdempotencyConflict)
     | None \<Rightarrow>
         if \<not> refresh_allowed db tenant recipient now \<or> refresh_permissions db tenant recipient inputs \<noteq> length inputs
         then Inl (RefreshRun ErrRunForbidden)
         else bindr (run_result (if cfg_generation_cache cfg
                then create_generation cd cfg db recipient tenant idem inputs (source_version db tenant) gen refresh run_ids now
                else create_legacy cd cfg db recipient tenant idem inputs (source_version db tenant) refresh run_ids now)) (\<lambda>db1.
              get_refresh db1 recipient tenant refresh now)))"

lemma run_result_Inr [simp]: "run_result x = Inr y \<longleftrightarrow> x = Inr y"
  by (cases x) simp_all

end
