(* ===== verification/Publication.thy ===== *)
theory Publication
  imports Generations RunProps
begin

text \<open>
  Generations tell the truth: in every database the stores reach, a published generation has one
  succeeded run for each of its reports, and a failed one has a failed run.
\<close>

section \<open>Links and runs\<close>

definition links_of :: "db \<Rightarrow> uuid \<Rightarrow> generation_link list" where
  "links_of db g = filter (\<lambda>l. gl_generation l = g) (db_generation_links db)"

definition linked_run :: "db \<Rightarrow> uuid \<Rightarrow> run_row \<Rightarrow> bool" where
  "linked_run db g r \<longleftrightarrow> r \<in> set (db_runs db) \<and> (\<exists>l \<in> set (links_of db g). gl_run l = r_id r)"

lemma generation_runs_set: "set (generation_runs db g) = {r. linked_run db g r}"
  by (auto simp: generation_runs_def linked_run_def links_of_def)

definition links_wf :: "db \<Rightarrow> bool" where
  "links_wf db \<longleftrightarrow> (\<forall>l \<in> set (db_generation_links db).
     gl_run l \<in> r_id ` set (db_runs db) \<and> gl_generation l \<in> g_id ` set (db_generations db))"

lemma generation_runs_length:
  assumes "distinct (map r_id (db_runs db))" "links_wf db"
  shows "length (generation_runs db g) = length (links_of db g)"
proof -
  have one: "length (filter (\<lambda>r. r_id r = gl_run l) (db_runs db)) = 1" if "l \<in> set (links_of db g)" for l
  proof -
    have "gl_run l \<in> r_id ` set (db_runs db)" using assms(2) that by (auto simp: links_wf_def links_of_def)
    then have "0 < count_where (\<lambda>r. r_id r = gl_run l) (db_runs db)" by (auto simp: count_where_pos_iff)
    moreover have "count_where (\<lambda>r. r_id r = gl_run l) (db_runs db) \<le> 1" by (rule count_where_key[OF assms(1)]) simp
    ultimately have "count_where (\<lambda>r. r_id r = gl_run l) (db_runs db) = 1" by linarith
    then show ?thesis by (simp add: count_where_def)
  qed
  have "length (concat (map (\<lambda>l. filter (\<lambda>r. r_id r = gl_run l) (db_runs db)) ls)) = length ls"
    if "set ls \<subseteq> set (links_of db g)" for ls
    using that one by (induction ls) auto
  then show ?thesis by (simp add: generation_runs_def links_of_def[symmetric])
qed

text \<open>What a generation says is what its runs say.\<close>

definition truthful :: "db \<Rightarrow> generation_row \<Rightarrow> bool" where
  "truthful db g \<longleftrightarrow> g_total g = int (length (links_of db (g_id g)))
     \<and> (g_status g = GenerationPublished \<longrightarrow> (\<forall>r. linked_run db (g_id g) r \<longrightarrow> r_status r = StatusSucceeded))
     \<and> (g_status g = GenerationFailed \<longrightarrow> (\<exists>r. linked_run db (g_id g) r \<and> is_failed r))"

definition generation_inv :: "db \<Rightarrow> bool" where
  "generation_inv db \<longleftrightarrow> distinct (map r_id (db_runs db)) \<and> links_wf db \<and> (\<forall>g \<in> set (db_generations db). truthful db g)"

lemma count_where_all: "count_where p xs = length xs \<Longrightarrow> x \<in> set xs \<Longrightarrow> p x"
  by (metis count_where_def length_filter_less less_irrefl)

lemma recount_truthful:
  assumes "distinct (map r_id (db_runs db))" "links_wf db" "g_total g = int (length (links_of db (g_id g)))"
  shows "truthful db (recount_generation db now g)"
proof -
  let ?runs = "generation_runs db (g_id g)"
  have len: "int (length ?runs) = g_total g" using generation_runs_length[OF assms(1,2)] assms(3) by simp
  have st: "g_status (recount_generation db now g) = (if 0 < count_where is_failed ?runs then GenerationFailed
      else if int (count_where (\<lambda>r. r_status r = StatusSucceeded) ?runs) = g_total g then GenerationPublished
      else GenerationBuilding)" "g_id (recount_generation db now g) = g_id g" "g_total (recount_generation db now g) = g_total g"
    by (simp_all add: recount_generation_def Let_def)
  have "\<exists>r. linked_run db (g_id g) r \<and> is_failed r" if "0 < count_where is_failed ?runs"
    using that generation_runs_set[of db "g_id g"] by (auto simp: count_where_pos_iff)
  moreover have "r_status r = StatusSucceeded"
    if "int (count_where (\<lambda>r. r_status r = StatusSucceeded) ?runs) = g_total g" "linked_run db (g_id g) r" for r
    using count_where_all[of "\<lambda>r. r_status r = StatusSucceeded" ?runs r] that len generation_runs_set[of db "g_id g"] by auto
  ultimately show ?thesis using assms(3) by (auto simp: truthful_def st)
qed

section \<open>Steps\<close>

definition generations_kept :: "db \<Rightarrow> db \<Rightarrow> bool" where
  "generations_kept db db' \<longleftrightarrow> db_generations db' = db_generations db \<and> db_generation_links db' = db_generation_links db"

text \<open>Runs evolve along the status machine, and new runs have new ids.\<close>

definition runs_evolve :: "db \<Rightarrow> db \<Rightarrow> bool" where
  "runs_evolve db db' \<longleftrightarrow> runs_follow db db'
     \<and> (\<forall>r' \<in> set (db_runs db'). (\<exists>r \<in> set (db_runs db). follows r r') \<or> r_id r' \<notin> r_id ` set (db_runs db))"

lemma settle_evolve: "runs_settle db db' \<Longrightarrow> runs_evolve db db'"
proof -
  assume s: "runs_settle db db'"
  have "\<exists>r \<in> set (db_runs db). follows r r'" if "r' \<in> set (db_runs db')" for r'
    using list_all2_bwd[OF s[unfolded runs_settle_def] that] by (auto simp: settles_def)
  with settle_follow[OF s] show ?thesis by (simp add: runs_evolve_def)
qed

lemma follows_id: "follows r r' \<Longrightarrow> r_id r' = r_id r"
  by (simp add: follows_def same_run_def)

lemma truthful_evolve:
  assumes "truthful db g" "links_wf db" "runs_evolve db db'" "db_generation_links db' = db_generation_links db"
  shows "truthful db' g"
proof -
  have l: "links_of db' = links_of db" by (simp add: links_of_def[abs_def] assms(4))
  have "r_status r' = StatusSucceeded" if p: "g_status g = GenerationPublished" and r: "linked_run db' (g_id g) r'" for r'
  proof -
    from r obtain k where k: "k \<in> set (links_of db (g_id g))" "gl_run k = r_id r'" and in': "r' \<in> set (db_runs db')"
      by (auto simp: linked_run_def l)
    have "gl_run k \<in> r_id ` set (db_runs db)" using assms(2) k(1) by (simp add: links_wf_def links_of_def)
    with k(2) have "r_id r' \<in> r_id ` set (db_runs db)" by simp
    with assms(3) in' obtain r where f: "r \<in> set (db_runs db)" "follows r r'" by (auto simp: runs_evolve_def)
    with k have "linked_run db (g_id g) r" by (auto simp: linked_run_def follows_id)
    with assms(1) p have "r_status r = StatusSucceeded" by (simp add: truthful_def)
    then have "is_terminal r" by (simp add: is_terminal_def)
    with f(2) \<open>r_status r = StatusSucceeded\<close> show ?thesis by (simp add: follows_def)
  qed
  moreover have "\<exists>r'. linked_run db' (g_id g) r' \<and> is_failed r'" if p: "g_status g = GenerationFailed"
  proof -
    obtain r where r: "linked_run db (g_id g) r" "is_failed r" using assms(1) p by (auto simp: truthful_def)
    then obtain r' where r': "r' \<in> set (db_runs db')" "follows r r'"
      using assms(3) by (auto simp: runs_evolve_def runs_follow_def linked_run_def)
    have "is_terminal r" using r(2) by (auto simp: is_failed_def is_terminal_def)
    with r' r show ?thesis by (intro exI[of _ r]) (auto simp: follows_def linked_run_def l)
  qed
  ultimately show ?thesis using assms(1) by (simp add: truthful_def l)
qed

lemma evolve_inv:
  assumes "generation_inv db" "runs_evolve db db'" "generations_kept db db'" "distinct (map r_id (db_runs db'))"
  shows "generation_inv db'"
proof -
  have "r_id r \<in> r_id ` set (db_runs db')" if "r \<in> set (db_runs db)" for r
    using assms(2) that follows_id unfolding runs_evolve_def runs_follow_def by (metis imageI)
  then have "links_wf db'"
    using assms(1,3) unfolding generation_inv_def links_wf_def generations_kept_def by (metis imageE)
  with assms truthful_evolve[of db _ db'] show ?thesis by (auto simp: generation_inv_def generations_kept_def)
qed

lemma update_generations_simps [simp]:
  "db_generation_links (update_generations run now db) = db_generation_links db"
  "db_generations (update_generations run now db) =
     update_where (affected_generation db run) (recount_generation db now) (db_generations db)"
  by (simp_all add: update_generations_def Let_def)

lemma recount_id [simp]: "g_id (recount_generation db now g) = g_id g"
  by (simp add: recount_generation_def Let_def)

lemma truthful_cong:
  "db_runs db' = db_runs db \<Longrightarrow> db_generation_links db' = db_generation_links db \<Longrightarrow> truthful db' g = truthful db g"
  by (simp add: truthful_def linked_run_def links_of_def)

lemma update_generations_inv:
  assumes "generation_inv db"
  shows "generation_inv (update_generations run now db)"
proof -
  have t: "truthful (update_generations run now db) g = truthful db g" for g by (rule truthful_cong) simp_all
  have "map g_id (db_generations (update_generations run now db)) = map g_id (db_generations db)"
    unfolding update_generations_simps(2) by (rule map_update_where) simp
  then have "g_id ` set (db_generations (update_generations run now db)) = g_id ` set (db_generations db)"
    by (metis set_map)
  then have "links_wf (update_generations run now db)"
    using assms by (simp add: generation_inv_def links_wf_def)
  moreover have "truthful db g" if "g \<in> set (db_generations (update_generations run now db))" for g
    using that assms recount_truthful[of db] by (auto simp: generation_inv_def set_update_where truthful_def)
  ultimately show ?thesis using assms t by (auto simp: generation_inv_def)
qed

text \<open>Every operation changes the generations last, by update_generations, or not at all.\<close>

definition staged :: "uuid \<Rightarrow> db \<Rightarrow> db \<Rightarrow> bool" where
  "staged run db db' \<longleftrightarrow> (\<exists>db1. generations_kept db db1 \<and> (db' = db1 \<or> (\<exists>now. db' = update_generations run now db1)))"

lemma staged_inv:
  assumes "generation_inv db" "staged run db db'" "runs_settle db db'"
  shows "generation_inv db'"
proof -
  obtain db1 where d: "generations_kept db db1" "db' = db1 \<or> (\<exists>now. db' = update_generations run now db1)"
    using assms(2) by (auto simp: staged_def)
  then have "db_runs db' = db_runs db1" by auto
  then have s: "runs_settle db db1" using assms(3) by (simp add: runs_settle_def)
  have "generation_inv db1"
    by (rule evolve_inv[OF assms(1) settle_evolve[OF s] d(1)]) (use settle_ids[OF s] assms(1) in \<open>simp add: generation_inv_def\<close>)
  with d(2) show ?thesis using update_generations_inv by auto
qed

section \<open>The operations are staged\<close>

lemma kept_refl [simp]: "generations_kept db db"
  by (simp add: generations_kept_def)

lemma kept_update_run [simp]: "generations_kept db (update_run run p f db')  = generations_kept db db'"
  by (simp add: generations_kept_def update_run_def)

lemma kept_simps [simp]:
  "generations_kept db (db'\<lparr>db_circuits := cs\<rparr>) = generations_kept db db'"
  "generations_kept db (db'\<lparr>db_host_circuits := hs\<rparr>) = generations_kept db db'"
  "generations_kept db (db'\<lparr>db_chunks := ks\<rparr>) = generations_kept db db'"
  "generations_kept db (db'\<lparr>db_result_rows := rs\<rparr>) = generations_kept db db'"
  "generations_kept db (db'\<lparr>db_runtime := qs\<rparr>) = generations_kept db db'"
  "generations_kept db (db'\<lparr>db_notifications := ns\<rparr>) = generations_kept db db'"
  "generations_kept db (db'\<lparr>db_refreshes := fs\<rparr>) = generations_kept db db'"
  "generations_kept db (db'\<lparr>db_refresh_links := ls\<rparr>) = generations_kept db db'"
  "generations_kept db (db'\<lparr>db_runs := xs\<rparr>) = generations_kept db db'"
  by (simp_all add: generations_kept_def)

lemma kept_occurrence: "generations_kept db db' \<Longrightarrow> generations_kept db (fst (fail_scheduled_occurrence failed now db'))"
  by (simp add: fail_scheduled_occurrence_def Let_def split: option.splits)

lemma kept_occurrence_of: "generations_kept db db' \<Longrightarrow> generations_kept db (fail_occurrence_of src run now db')"
  by (simp add: fail_occurrence_of_def kept_occurrence)

lemma kept_host_failure: "record_host_failure tenant now db' = Inr db'' \<Longrightarrow> generations_kept db db' \<Longrightarrow> generations_kept db db''"
  by (auto simp: record_host_failure_def split: option.splits)

lemma staged_kept: "generations_kept db db' \<Longrightarrow> staged run db db'"
  by (auto simp: staged_def)

lemma staged_update: "generations_kept db db1 \<Longrightarrow> staged run db (update_generations run now db1)"
  by (auto simp: staged_def)

lemmas staged_intros = staged_update staged_kept kept_occurrence kept_occurrence_of kept_host_failure

lemma chunk_update_kept: "chunk_update db run worker number st f now = Inr db' \<Longrightarrow> generations_kept db db'"
  by (auto simp: chunk_update_def Let_def split: if_splits)

lemma guarded_kept: "guarded_update run p f db' = Inr db'' \<Longrightarrow> generations_kept db db' \<Longrightarrow> generations_kept db db''"
  by (simp add: guarded_update_Inr)

lemma run_op_staged:
  assumes "run_op enc op db run worker now = Inr db'"
  shows "staged run db db'"
proof (cases op)
  case (Complete summary persist)
  with assms show ?thesis
    by (auto simp: complete_run_def Let_def guarded_update_Inr split: option.splits intro!: staged_update)
next
  case (Fail code message)
  with assms show ?thesis
    by (auto simp: fail_run_def Let_def guarded_update_Inr split: prod.splits intro!: staged_intros(1,4))
next
  case (FailRemote code message until)
  with assms show ?thesis
    by (auto simp: fail_remote_unknown_def Let_def guarded_update_Inr split: prod.splits if_splits intro!: staged_intros(1,4))
next
  case (FailPreRequest code message)
  with assms show ?thesis
    by (auto simp: fail_pre_request_failure_def guarded_update_Inr split: prod.splits
      intro!: staged_intros(1,4) elim!: kept_host_failure)
next
  case (RetryPreRequest code avail)
  with assms show ?thesis
    by (auto simp: retry_pre_request_failure_def guarded_update_Inr intro!: staged_kept elim!: kept_host_failure)
next
  case (PrepareChunks manifests)
  with assms show ?thesis by (auto simp: prepare_chunks_def guarded_update_Inr intro!: staged_kept)
next
  case (CompleteChunk number encoded n)
  with assms show ?thesis
    by (auto simp: complete_chunk_def guarded_update_Inr split: if_splits intro!: staged_kept dest: chunk_update_kept)
qed (use assms in \<open>auto simp: extend_lease_def update_progress_def retry_run_def mark_running_def
  set_source_consistency_def start_chunk_def fail_chunk_def guarded_update_Inr split: if_splits
  intro!: staged_kept dest: chunk_update_kept\<close>)

lemma recover_one_staged: "staged (r_id item) (fst s) (fst (recover_one now item s))"
proof -
  obtain db res where s: "s = (db, res)" by (cases s)
  have occ: "fail_scheduled_occurrence failed now db1 = (db2, n) \<Longrightarrow> generations_kept db db1 \<Longrightarrow> generations_kept db db2"
    for failed db1 db2 n using kept_occurrence[of db db1 failed now] by simp
  show ?thesis
  proof (cases "r_status item = StatusClaimed \<or> count_where (\<lambda>r. r_id r = r_id item \<and> r_status r = StatusRunning
      \<and> lease_expired now r) (db_runs db) = 0")
    case True
    then show ?thesis unfolding s recover_one_def prod.case Let_def by (auto intro!: staged_kept)
  next
    case False
    then show ?thesis unfolding s recover_one_def prod.case Let_def
      by (auto intro!: staged_update intro: occ split: prod.splits)
  qed
qed

lemma recover_generation_inv:
  assumes "generation_inv (fst s)"
  shows "generation_inv (fst (fold (recover_one now) items s))"
  using assms
proof (induction items arbitrary: s)
  case (Cons item items)
  have "generation_inv (fst (recover_one now item s))"
    by (rule staged_inv[OF Cons.prems recover_one_staged]) (rule recover_one_settles, simp)
  then show ?case using Cons.IH by simp
qed simp

lemma enqueue_kept: "enqueue db cfg i new_id now = Inr (db', r) \<Longrightarrow> generations_kept db db'"
  by (auto simp: enqueue_def enqueue_new_def reserve_probe_def Let_def split: if_splits option.splits)

lemma same_evolve: "db_runs db' = db_runs db \<Longrightarrow> runs_evolve db db'"
  unfolding runs_evolve_def runs_follow_def using follows_refl by metis

lemma append_evolve:
  assumes "db_runs db' = db_runs db @ [r]" "r_id r \<notin> r_id ` set (db_runs db)"
  shows "runs_evolve db db'"
proof -
  have "\<exists>x \<in> set (db_runs db). follows x y" if "y \<in> set (db_runs db)" for y using that follows_refl by blast
  moreover have "\<exists>y \<in> set (db_runs db'). follows x y" if "x \<in> set (db_runs db)" for x
    using that follows_refl assms(1) by (metis Un_iff set_append)
  ultimately show ?thesis unfolding runs_evolve_def runs_follow_def using assms by simp
qed

lemma enqueue_evolve:
  assumes "enqueue db cfg i new_id now = Inr (db', r)" "new_id \<notin> r_id ` set (db_runs db)"
  shows "runs_evolve db db'"
proof -
  from enqueue_cases[OF assms(1)]
  consider "db_runs db' = db_runs db" | v where "db_runs db' = db_runs db @ [new_run db cfg i new_id v now]"
    by (auto simp: enqueue_effect_def)
  then show ?thesis
    by cases (simp add: same_evolve, rule append_evolve, assumption, simp add: assms(2))
qed

lemma claim_evolve:
  assumes "claim_run cfg db locked worker lease now = Inr (db', c)" "distinct (map r_id (db_runs db))"
  shows "runs_evolve db db' \<and> generations_kept db db' \<and> distinct (map r_id (db_runs db'))"
proof -
  obtain r where r: "r \<in> set (db_runs db)" "r_status r = StatusQueued"
      "claim_row db r worker lease now = Inr (db', c)"
    using claim_run_Inr[OF assms(1)] unfolding claimable_def by metis
  have "follows x (if r_id x = r_id r then mark_claimed worker lease now x else x)" if "x \<in> set (db_runs db)" for x
    using mark_claimed_follows[OF r(2)] codes_eq[OF assms(2) that r(1)] by auto
  then have "\<exists>x \<in> set (db_runs db). follows x x'" if "x' \<in> set (db_runs db')" for x'
    using that unfolding claim_row_Inr(2)[OF r(3)] set_update_where by blast
  moreover have "map r_id (db_runs db') = map r_id (db_runs db)"
    unfolding claim_row_Inr(2)[OF r(3)] by (rule map_update_where) simp
  moreover have "generations_kept db db'" using r(3) by (auto simp: claim_row_def Let_def split: if_splits)
  ultimately show ?thesis using claim_follow[OF assms] assms(2) by (simp add: runs_evolve_def)
qed

section \<open>Creating a refresh\<close>

lemma refresh_run_simps [simp]:
  "r_id (refresh_run cd cfg tenant recipient refresh version i new_id v w now) = new_id"
  "r_status (refresh_run cd cfg tenant recipient refresh version i new_id v w now) = StatusQueued"
  by (simp_all add: refresh_run_def)

lemma insert_refresh_run_Inr:
  assumes "insert_refresh_run cd cfg tenant recipient refresh version i new_id now db = Inr db'"
  shows "\<exists>r. db' = db\<lparr>db_runs := db_runs db @ [r]\<rparr> \<and> r_id r = new_id \<and> r_status r = StatusQueued"
  using assms by (auto simp: insert_refresh_run_def Let_def split: option.splits if_splits)

text \<open>While a generation gen is being linked, everything else is in order.\<close>

definition linking :: "uuid \<Rightarrow> nat \<Rightarrow> db \<Rightarrow> bool" where
  "linking gen pos db \<longleftrightarrow> distinct (map r_id (db_runs db)) \<and> links_wf db \<and> length (links_of db gen) = pos
     \<and> (\<exists>g \<in> set (db_generations db). g_id g = gen)
     \<and> (\<forall>g \<in> set (db_generations db). if g_id g = gen then g_status g = GenerationBuilding else truthful db g)"

lemma linking_insert:
  assumes "linking gen pos db" "r_id r \<notin> r_id ` set (db_runs db)"
  shows "linking gen pos (db\<lparr>db_runs := db_runs db @ [r]\<rparr>)"
proof -
  let ?db = "db\<lparr>db_runs := db_runs db @ [r]\<rparr>"
  have e: "runs_evolve db ?db" by (rule append_evolve[OF _ assms(2)]) simp
  have "truthful ?db g" if "truthful db g" for g
    by (rule truthful_evolve[OF that _ e]) (use assms(1) in \<open>auto simp: linking_def\<close>)
  then show ?thesis using assms by (auto simp: linking_def links_wf_def links_of_def)
qed

lemma linking_link:
  assumes "linking gen pos db" "link_generation gen tenant k run p db = Inr db'" "run \<in> r_id ` set (db_runs db)"
  shows "linking gen (Suc pos) db'"
proof -
  let ?l = "\<lparr>gl_generation = gen, gl_tenant = tenant, gl_key = k, gl_run = run, gl_position = p\<rparr>"
  have e: "db' = db\<lparr>db_generation_links := db_generation_links db @ [?l]\<rparr>"
    using assms(2) by (auto simp: link_generation_def split: if_splits)
  have o: "links_of db' g = links_of db g" if "g \<noteq> gen" for g using that by (simp add: e links_of_def)
  have "links_of db' gen = links_of db gen @ [?l]" by (simp add: e links_of_def)
  moreover have "truthful db' g" if "truthful db g" "g_id g \<noteq> gen" for g
    using that o by (simp add: truthful_def linked_run_def e)
  moreover have "links_wf db'" using assms(1,3) by (auto simp: linking_def links_wf_def e)
  ultimately show ?thesis using assms(1) by (auto simp: linking_def e)
qed

lemma linking_refresh:
  assumes "linking gen pos db" "link_refresh refresh k run db = Inr db'"
  shows "linking gen pos db' \<and> db_runs db' = db_runs db"
proof -
  from assms(2) have e: "db_runs db' = db_runs db" "generations_kept db db'" by (auto simp: link_refresh_def split: if_splits)
  then have "truthful db' g = truthful db g" "links_of db' = links_of db" for g
    by (auto intro!: truthful_cong simp: generations_kept_def links_of_def)
  with assms(1) e show ?thesis by (simp add: linking_def links_wf_def generations_kept_def)
qed

lemma generation_loop_linking:
  assumes "generation_loop cd cfg tenant recipient refresh gen version run_ids now pos inputs db = Inr db'"
    "linking gen pos db" "\<forall>p \<ge> pos. run_ids p \<notin> r_id ` set (db_runs db)" "inj run_ids"
  shows "linking gen (pos + length inputs) db' \<and> db_generations db' = db_generations db"
  using assms(1-3)
proof (induction inputs arbitrary: pos db)
  case (Cons i rest)
  define found where "found = coalesced_run db tenant (refresh_execution_key cd cfg tenant version i)"
  from Cons.prems(1) obtain x where
      x: "(case found of Some r \<Rightarrow> Inr (r_id r, db)
       | None \<Rightarrow> bindr (insert_refresh_run cd cfg tenant recipient refresh version i (run_ids pos) now db)
                   (\<lambda>db1. Inr (run_ids pos, db1))) = Inr x"
    and cont: "(case x of (run, db1) \<Rightarrow> bindr (link_refresh refresh (in_key i) run db1) (\<lambda>db2.
        bindr (link_generation gen tenant (in_key i) run (int pos + 1) db2)
        (generation_loop cd cfg tenant recipient refresh gen version run_ids now (Suc pos) rest))) = Inr db'"
    unfolding generation_loop.simps bindr_Inr_iff found_def[symmetric] by (elim exE conjE) (rule that)
  obtain run db1 where p: "x = (run, db1)" by (cases x)
  note run = x[unfolded p]
  from cont obtain db2 db3 where l1: "link_refresh refresh (in_key i) run db1 = Inr db2"
    and l2: "link_generation gen tenant (in_key i) run (int pos + 1) db2 = Inr db3"
    and rest: "generation_loop cd cfg tenant recipient refresh gen version run_ids now (Suc pos) rest db3 = Inr db'"
    unfolding p prod.case bindr_Inr_iff by (elim exE conjE) (rule that)
  have 1: "linking gen pos db1 \<and> run \<in> r_id ` set (db_runs db1) \<and> db_generations db1 = db_generations db
      \<and> (\<forall>p \<ge> Suc pos. run_ids p \<notin> r_id ` set (db_runs db1))"
  proof (cases found)
    case None
    with run have ins: "insert_refresh_run cd cfg tenant recipient refresh version i (run_ids pos) now db = Inr db1"
      and same: "run = run_ids pos" by auto
    from insert_refresh_run_Inr[OF ins] obtain r where
      r: "db1 = db\<lparr>db_runs := db_runs db @ [r]\<rparr>" "r_id r = run_ids pos" by (elim exE conjE) (rule that)
    have "linking gen pos db1" unfolding r(1) by (rule linking_insert[OF Cons.prems(2)]) (simp add: r(2) Cons.prems(3))
    moreover have "run_ids p \<noteq> run_ids pos" if "Suc pos \<le> p" for p using that by (simp add: inj_eq[OF assms(4)])
    ultimately show ?thesis using Cons.prems(3) same by (simp add: r)
  next
    case (Some x)
    then have "x \<in> set (db_runs db)" unfolding found_def coalesced_run_def by (blast dest: select_first_Some)
    with Some run Cons.prems(2,3) show ?thesis by auto
  qed
  then have 2: "linking gen pos db2" "db_runs db2 = db_runs db1" using linking_refresh[OF _ l1] by blast+
  have g2: "db_generations db2 = db_generations db1" using l1 by (auto simp: link_refresh_def split: if_splits)
  have 3: "linking gen (Suc pos) db3" using linking_link[OF 2(1) l2] 1 2(2) by simp
  have e3: "db_runs db3 = db_runs db2" "db_generations db3 = db_generations db2"
    using l2 by (auto simp: link_generation_def split: if_splits)
  have "linking gen (Suc pos + length rest) db' \<and> db_generations db' = db_generations db3"
    by (rule Cons.IH[OF rest 3]) (use 1 2(2) e3(1) in auto)
  with 1 g2 e3 show ?case by simp
qed simp

lemma legacy_loop_inv:
  assumes "legacy_loop cd cfg tenant recipient refresh version run_ids now pos inputs db = Inr db'"
    "generation_inv db" "\<forall>p \<ge> pos. run_ids p \<notin> r_id ` set (db_runs db)" "inj run_ids"
  shows "generation_inv db'"
  using assms(1-3)
proof (induction inputs arbitrary: pos db)
  case (Cons i rest)
  from Cons.prems(1) obtain db1 db2 where
      ins: "insert_refresh_run cd cfg tenant recipient refresh version i (run_ids pos) now db = Inr db1"
    and l1: "link_refresh refresh (in_key i) (run_ids pos) db1 = Inr db2"
    and rest: "legacy_loop cd cfg tenant recipient refresh version run_ids now (Suc pos) rest db2 = Inr db'"
    unfolding legacy_loop.simps bindr_Inr_iff by (elim exE conjE) (rule that)
  obtain r where r: "db1 = db\<lparr>db_runs := db_runs db @ [r]\<rparr>" "r_id r = run_ids pos" using insert_refresh_run_Inr[OF ins] by blast
  have e: "runs_evolve db db1" by (rule append_evolve[of _ _ r]) (simp_all add: r Cons.prems(3))
  have i1: "generation_inv db1"
    by (rule evolve_inv[OF Cons.prems(2) e]) (use Cons.prems(2,3) in \<open>auto simp: r generation_inv_def\<close>)
  have d2: "generations_kept db1 db2" "db_runs db2 = db_runs db1" using l1 by (auto simp: link_refresh_def split: if_splits)
  have "generation_inv db2"
    using i1 d2 by (simp add: generation_inv_def links_wf_def generations_kept_def truthful_def linked_run_def links_of_def)
  moreover have "run_ids p \<noteq> run_ids pos" if "Suc pos \<le> p" for p using that by (simp add: inj_eq[OF assms(4)])
  then have "\<forall>p \<ge> Suc pos. run_ids p \<notin> r_id ` set (db_runs db2)"
    using Cons.prems(3) unfolding d2(2) r(1) by (simp add: r(2))
  ultimately show ?case by (rule Cons.IH[OF rest])
qed simp

lemma get_refresh_Inr:
  assumes "get_refresh db recipient tenant refresh now = Inr (db', v)"
  shows "db_runs db' = db_runs db" "generations_kept db db'" "rv_id v = refresh"
  using assms by (auto simp: get_refresh_def Let_def split: option.splits)

lemma same_inv: "generation_inv db \<Longrightarrow> db_runs db' = db_runs db \<Longrightarrow> generations_kept db db' \<Longrightarrow> generation_inv db'"
  by (rule evolve_inv[OF _ same_evolve]) (simp_all add: generation_inv_def)

definition fresh_ids :: "db \<Rightarrow> uuid \<Rightarrow> (nat \<Rightarrow> uuid) \<Rightarrow> bool" where
  "fresh_ids db gen run_ids \<longleftrightarrow> gen \<notin> g_id ` set (db_generations db) \<and> inj run_ids
     \<and> (\<forall>p. run_ids p \<notin> r_id ` set (db_runs db))"

lemma create_generation_inv:
  assumes "create_generation cd cfg db recipient tenant idem inputs version gen refresh run_ids now = Inr db'"
    "generation_inv db" "fresh_ids db gen run_ids"
  shows "generation_inv db'"
proof -
  from assms(1) obtain d where d: "describe_generation cd cfg tenant inputs version = Inr d"
    by (auto simp: create_generation_def split: sum.splits)
  show ?thesis
  proof (cases "find_where (\<lambda>g. building tenant g \<and> g_key g = gd_key d) (db_generations db)")
    case (Some g)
    with assms(1) d have "db_runs db' = db_runs db \<and> generations_kept db db'"
      by (auto simp: create_generation_def)
    then show ?thesis using same_inv[OF assms(2)] by blast
  next
    case None
    let ?g = "new_generation gen tenant d version (length inputs) now"
    define db0 where "db0 = db\<lparr>db_generations := db_generations db @ [?g],
      db_refreshes := db_refreshes db @ [new_refresh refresh tenant recipient idem (length inputs) (Some gen) (Some (gd_key d)) now]\<rparr>"
    have loop: "generation_loop cd cfg tenant recipient refresh gen version run_ids now 0 inputs db0 = Inr db'"
      using assms(1) d None by (auto simp: create_generation_def db0_def split: if_splits)
    have g: "g_id ?g = gen" "g_status ?g = GenerationBuilding" "g_total ?g = int (length inputs)"
      by (simp_all add: new_generation_def)
    have "links_of db gen = []" using assms(2,3)
      by (auto simp: links_of_def filter_empty_conv generation_inv_def links_wf_def fresh_ids_def)
    moreover have "truthful db0 x = truthful db x" for x by (rule truthful_cong) (simp_all add: db0_def)
    ultimately have "linking gen 0 db0"
      using assms(2,3) g by (auto simp: linking_def db0_def generation_inv_def links_wf_def links_of_def fresh_ids_def)
    from generation_loop_linking[OF loop this] assms(3)
    have l: "linking gen (length inputs) db'" "db_generations db' = db_generations db0"
      by (auto simp: fresh_ids_def db0_def)
    have "x = ?g" if "x \<in> set (db_generations db')" "g_id x = gen" for x
      using that assms(3) unfolding l(2) by (auto simp: db0_def fresh_ids_def)
    then have "truthful db' x" if "x \<in> set (db_generations db')" for x
      using that l(1) g by (cases "g_id x = gen") (auto simp: linking_def truthful_def)
    with l(1) show ?thesis by (simp add: generation_inv_def linking_def)
  qed
qed

lemma create_legacy_inv:
  assumes "create_legacy cd cfg db recipient tenant idem inputs version refresh run_ids now = Inr db'"
    "generation_inv db" "fresh_ids db gen run_ids"
  shows "generation_inv db'"
proof -
  let ?db = "db\<lparr>db_refreshes := db_refreshes db @ [new_refresh refresh tenant recipient idem (length inputs) None None now]\<rparr>"
  have i: "generation_inv ?db" by (rule same_inv[OF assms(2)]) simp_all
  have l: "legacy_loop cd cfg tenant recipient refresh version run_ids now 0 inputs ?db = Inr db'"
    using assms(1) by (auto simp: create_legacy_def split: if_splits)
  show ?thesis by (rule legacy_loop_inv[OF l i]) (use assms(3) in \<open>simp_all add: fresh_ids_def\<close>)
qed

lemma create_refresh_cases:
  assumes "create_refresh cd cfg db recipient tenant idem inputs gen refresh run_ids now = Inr (db', v)"
  obtains (replay) f where "get_refresh db recipient tenant (f_id f) now = Inr (db', v)" "inputs_match db (f_id f) inputs"
      "find_where (\<lambda>f. f_tenant f = tenant \<and> f_recipient f = recipient \<and> f_idempotency f = idem) (db_refreshes db) = Some f"
  | (generation) db1 where "cfg_generation_cache cfg"
      "create_generation cd cfg db recipient tenant idem inputs (source_version db tenant) gen refresh run_ids now = Inr db1"
      "get_refresh db1 recipient tenant refresh now = Inr (db', v)"
  | (legacy) db1 where "\<not> cfg_generation_cache cfg"
      "create_legacy cd cfg db recipient tenant idem inputs (source_version db tenant) refresh run_ids now = Inr db1"
      "get_refresh db1 recipient tenant refresh now = Inr (db', v)"
proof (cases "find_where (\<lambda>f. f_tenant f = tenant \<and> f_recipient f = recipient \<and> f_idempotency f = idem) (db_refreshes db)")
  case (Some f)
  with assms have "get_refresh db recipient tenant (f_id f) now = Inr (db', v)" "inputs_match db (f_id f) inputs"
    by (auto simp: create_refresh_def split: if_splits)
  with Some show ?thesis by (rule replay[rotated 2])
next
  case None
  define created where "created = (if cfg_generation_cache cfg
    then create_generation cd cfg db recipient tenant idem inputs (source_version db tenant) gen refresh run_ids now
    else create_legacy cd cfg db recipient tenant idem inputs (source_version db tenant) refresh run_ids now)"
  have "bindr (run_result created) (\<lambda>db1. get_refresh db1 recipient tenant refresh now) = Inr (db', v)"
    using assms unfolding create_refresh_def created_def[symmetric] None by (simp split: if_splits)
  then obtain db1 where c: "created = Inr db1" and g: "get_refresh db1 recipient tenant refresh now = Inr (db', v)"
    unfolding bindr_Inr_iff run_result_Inr by (elim exE conjE) (rule that)
  show ?thesis
  proof (cases "cfg_generation_cache cfg")
    case True
    with c g show ?thesis unfolding created_def by (intro generation[of db1]) simp_all
  next
    case False
    with c g show ?thesis unfolding created_def by (intro legacy[of db1]) simp_all
  qed
qed

lemma create_refresh_inv:
  assumes "create_refresh cd cfg db recipient tenant idem inputs gen refresh run_ids now = Inr (db', v)"
    "generation_inv db" "fresh_ids db gen run_ids"
  shows "generation_inv db'"
  using assms(1)
proof (cases rule: create_refresh_cases)
  case (replay f)
  from get_refresh_Inr[OF replay(1)] show ?thesis using same_inv[OF assms(2)] by blast
next
  case (generation db1)
  from get_refresh_Inr(1,2)[OF generation(3)] show ?thesis
    using create_generation_inv[OF generation(2) assms(2,3)] same_inv by blast
next
  case (legacy db1)
  from get_refresh_Inr(1,2)[OF legacy(3)] show ?thesis
    using create_legacy_inv[OF legacy(2) assms(2,3)] same_inv by blast
qed

section \<open>The system\<close>

inductive system_step :: "codec \<Rightarrow> store_config \<Rightarrow> db \<Rightarrow> db \<Rightarrow> bool" for cd cfg where
  enqueued: "enqueue db cfg i new_id now = Inr (db', r) \<Longrightarrow> new_id \<notin> r_id ` set (db_runs db) \<Longrightarrow> system_step cd cfg db db'"
| cancelled: "cancel_run db run now = Inr (db', r) \<Longrightarrow> system_step cd cfg db db'"
| claimed: "claim_run cfg db locked worker lease now = Inr (db', r) \<Longrightarrow> system_step cd cfg db db'"
| recovered: "recover_expired_leases db locked now = (db', recovery) \<Longrightarrow> system_step cd cfg db db'"
| worked: "run_op enc op db run worker now = Inr db' \<Longrightarrow> system_step cd cfg db db'"
| refreshed: "create_refresh cd cfg db recipient tenant idem inputs gen refresh run_ids now = Inr (db', v) \<Longrightarrow>
    fresh_ids db gen run_ids \<Longrightarrow> system_step cd cfg db db'"
| polled: "get_refresh db recipient tenant refresh now = Inr (db', v) \<Longrightarrow> system_step cd cfg db db'"
| environment: "db_runs db' = db_runs db \<Longrightarrow> generations_kept db db' \<Longrightarrow> system_step cd cfg db db'"

inductive system_reachable :: "codec \<Rightarrow> store_config \<Rightarrow> db \<Rightarrow> bool" for cd cfg where
  empty: "db_runs db = [] \<Longrightarrow> db_generations db = [] \<Longrightarrow> db_generation_links db = [] \<Longrightarrow> system_reachable cd cfg db"
| step: "system_reachable cd cfg db \<Longrightarrow> system_step cd cfg db db' \<Longrightarrow> system_reachable cd cfg db'"

lemma system_step_inv: "system_step cd cfg db db' \<Longrightarrow> generation_inv db \<Longrightarrow> generation_inv db'"
proof (induction rule: system_step.induct)
  case (enqueued db i new_id now db' r)
  have "distinct (map r_id (db_runs db'))"
    using enqueue_cases[OF enqueued(1)] enqueued(2,3) by (auto simp: enqueue_effect_def generation_inv_def)
  then show ?case by (rule evolve_inv[OF enqueued(3) enqueue_evolve[OF enqueued(1,2)] enqueue_kept[OF enqueued(1)]])
next
  case (cancelled db run now db' r)
  have "runs_settle db db'" using cancel_settles[OF cancelled(1)] cancelled(2) by (simp add: generation_inv_def)
  moreover have "generations_kept db db'"
    using cancelled(1) by (auto simp: cancel_run_def Let_def split: option.splits if_splits)
  ultimately show ?case using staged_inv[OF cancelled(2) staged_kept] by blast
next
  case (claimed db locked worker lease now db' r)
  then show ?case using claim_evolve[OF claimed(1)] evolve_inv unfolding generation_inv_def by meson
next
  case (recovered db locked now db' recovery)
  then show ?case using recover_generation_inv[of "(db, _)" now "expired_leases db locked now"]
    by (simp add: recover_expired_leases_def) (metis fst_conv)
next
  case (worked enc op db run worker now db')
  show ?case by (rule staged_inv[OF worked(2) run_op_staged[OF worked(1)] working.settle[OF worked(1)]])
next
  case (refreshed db recipient tenant idem inputs gen refresh run_ids now db' v)
  show ?case by (rule create_refresh_inv[OF refreshed(1,3,2)])
next
  case (polled db recipient tenant refresh now db' v)
  from get_refresh_Inr[OF polled(1)] show ?case using same_inv[OF polled(2)] by blast
next
  case (environment db' db)
  then show ?case using same_inv by blast
qed

lemma system_inv: "system_reachable cd cfg db \<Longrightarrow> generation_inv db"
proof (induction rule: system_reachable.induct)
  case (empty db) then show ?case by (simp add: generation_inv_def links_wf_def)
qed (rule system_step_inv)

section \<open>Properties\<close>

lemma count_where_disjoint: "(\<And>x. p x \<Longrightarrow> \<not> q x) \<Longrightarrow> count_where p xs + count_where q xs \<le> length xs"
  by (induction xs) (auto simp: count_where_def)

lemma generation_runs_ids:
  assumes "generation_inv db"
  shows "length (generation_runs db g) = length (links_of db g)"
  using generation_runs_length assms by (simp add: generation_inv_def)



section \<open>Examples\<close>

text \<open>The key and the priority of a run, without the labels of its definition.\<close>

lemma refresh_execution_key_code [code]:
  "refresh_execution_key cd cfg tenant version i = (if in_key i \<in> set keys
     then snapshot_execution_key cd tenant (in_key i) (in_period i) (kind_of (in_key i)) ''1.0.0'' version
       (cfg_fingerprint cfg (in_key i) ResultSummary)
     else snapshot_execution_key cd tenant (in_key i) (in_period i) (OtherParameterKind '''') '''' version
       (cfg_fingerprint cfg (in_key i) ResultSummary))"
  using definition_for_None[of "in_key i"] unfolding refresh_execution_key_def
  by (cases "definition_for (in_key i)") (simp_all add: definition_fields)

lemma refresh_priority_code [code]:
  "refresh_priority k = (if k \<in> set keys then if refresh_class_of k = RefreshFast then 85
     else if refresh_class_of k = RefreshHeavy then 83 else 84 else 84)"
  using definition_for_None[of k] unfolding refresh_priority_def
  by (cases "definition_for k") (simp_all add: definition_fields)

text \<open>The installation of the samples with the generation cache and a hash that keeps its input.\<close>

definition sample_codec :: codec where
  "sample_codec = \<lparr>cd_uuid = (\<lambda>u. int_str (int u)), cd_hash = (\<lambda>s. s)\<rparr>"

definition cached_config :: store_config where
  "cached_config = sample_config\<lparr>cfg_generation_cache := True\<rparr>"

definition sample_day :: "string \<Rightarrow> enqueue_input list" where
  "sample_day d = [sample_input\<lparr>in_period := \<lparr>preset = Custom, date_from = d, date_to = d\<rparr>\<rparr>]"

definition refreshed_db :: db where
  "refreshed_db = (case create_refresh sample_codec cached_config sample_db 7 1 ''refresh-1'' (sample_day ''2025-03-04'')
     50 60 (\<lambda>p. 100 + p) (10 * hour) of Inr (db, _) \<Rightarrow> db | _ \<Rightarrow> empty_db)"

lemma evaluated_db:
  assumes "case x of Inr (y, v) \<Rightarrow> True | Inl _ \<Rightarrow> False"
  shows "\<exists>v. x = Inr ((case x of Inr (y, _) \<Rightarrow> y | Inl _ \<Rightarrow> d), v)"
  using assms by (cases x) auto

lemma refreshed_db: "\<exists>v. create_refresh sample_codec cached_config sample_db 7 1 ''refresh-1'' (sample_day ''2025-03-04'')
     50 60 (\<lambda>p. 100 + p) (10 * hour) = Inr (refreshed_db, v)"
  unfolding refreshed_db_def by (rule evaluated_db) code_simp

lemma sample_fresh: "fresh_ids sample_db 50 (\<lambda>p. 100 + p)"
  by (simp add: fresh_ids_def sample_db_def empty_db_def inj_def)

lemma refreshed_reachable: "system_reachable sample_codec cached_config refreshed_db"
proof -
  obtain v where "create_refresh sample_codec cached_config sample_db 7 1 ''refresh-1'' (sample_day ''2025-03-04'')
     50 60 (\<lambda>p. 100 + p) (10 * hour) = Inr (refreshed_db, v)" using refreshed_db by (elim exE)
  moreover have "system_reachable sample_codec cached_config sample_db"
    by (rule system_reachable.empty) (simp_all add: sample_db_def empty_db_def)
  ultimately show ?thesis using sample_fresh by (blast intro: system_reachable.step refreshed)
qed

lemma refreshed_generation:
  "map (\<lambda>g. (g_id g, g_status g)) (db_generations refreshed_db) = [(50, GenerationBuilding)]"
  "map (\<lambda>r. (r_id r, r_status r)) (db_runs refreshed_db) = [(100, StatusQueued)]"
  "links_of refreshed_db 50 = [\<lparr>gl_generation = 50, gl_tenant = 1, gl_key = SalesGoodsServices, gl_run = 100, gl_position = 1\<rparr>]"
  by code_simp+



end
