(* ===== verification/Abandonment.thy ===== *)
theory Abandonment
  imports Publication
begin

text \<open>
  Generations whose runs have ended without an update: the transaction of Cancel ends a queued run
  and leaves its generation under construction, where it stays and takes one of the two places a
  tenant has.
\<close>

section \<open>Abandoned generations\<close>

definition abandoned :: "db \<Rightarrow> generation_row \<Rightarrow> bool" where
  "abandoned db g \<longleftrightarrow> g \<in> set (db_generations db) \<and> g_status g = GenerationBuilding
     \<and> (\<forall>r. linked_run db (g_id g) r \<longrightarrow> is_terminal r)"

lemma abandoned_evolve:
  assumes "abandoned db g" "links_wf db" "runs_evolve db db'" "links_of db' (g_id g) = links_of db (g_id g)"
    "g \<in> set (db_generations db')"
  shows "abandoned db' g"
proof -
  have "is_terminal r'" if r: "linked_run db' (g_id g) r'" for r'
  proof -
    from r obtain k where k: "k \<in> set (links_of db (g_id g))" "gl_run k = r_id r'" and in': "r' \<in> set (db_runs db')"
      by (auto simp: linked_run_def assms(4))
    have "gl_run k \<in> r_id ` set (db_runs db)" using assms(2) k(1) by (simp add: links_wf_def links_of_def)
    with k(2) have "r_id r' \<in> r_id ` set (db_runs db)" by simp
    with assms(3) in' obtain r where f: "r \<in> set (db_runs db)" "follows r r'" by (auto simp: runs_evolve_def)
    with k have "linked_run db (g_id g) r" by (auto simp: linked_run_def follows_id)
    then have "is_terminal r" using assms(1) by (simp add: abandoned_def)
    with f(2) show ?thesis by (simp add: follows_def)
  qed
  with assms(1,5) show ?thesis by (simp add: abandoned_def)
qed

lemma abandoned_staged:
  assumes "abandoned db g" "generation_inv db" "staged run db db'" "runs_settle db db'"
    "\<exists>r \<in> set (db_runs db). r_id r = run \<and> is_active r"
  shows "abandoned db' g"
proof -
  obtain r where r: "r \<in> set (db_runs db)" "r_id r = run" "is_active r" using assms(5) by blast
  then have "\<not> linked_run db (g_id g) r"
    using assms(1) by (auto simp: abandoned_def is_active_def is_terminal_def)
  then have nl: "\<forall>l \<in> set (links_of db (g_id g)). gl_run l \<noteq> run" using r by (auto simp: linked_run_def)
  obtain db1 where d: "generations_kept db db1" "db' = db1 \<or> (\<exists>now. db' = update_generations run now db1)"
    using assms(3) by (auto simp: staged_def)
  have "\<not> affected_generation db1 run g"
    using nl d(1) by (auto simp: affected_generation_def list_ex_iff links_of_def generations_kept_def)
  then have "g \<in> set (db_generations db')"
    using d assms(1) by (auto simp: abandoned_def generations_kept_def set_update_where)
  moreover have "links_of db' (g_id g) = links_of db (g_id g)"
    using d by (auto simp: links_of_def generations_kept_def)
  ultimately show ?thesis
    using abandoned_evolve[OF assms(1) _ settle_evolve[OF assms(4)]] assms(2) by (simp add: generation_inv_def)
qed

lemma abandoned_evolves:
  assumes "abandoned db g" "generation_inv db" "runs_evolve db db'" "generations_kept db db'"
  shows "abandoned db' g"
proof (rule abandoned_evolve[OF assms(1) _ assms(3)])
  show "links_wf db" using assms(2) by (simp add: generation_inv_def)
  show "links_of db' (g_id g) = links_of db (g_id g)" "g \<in> set (db_generations db')"
    using assms(1,4) by (simp_all add: generations_kept_def links_of_def abandoned_def)
qed

lemma recover_one_abandoned:
  assumes "abandoned (fst s) g" "generation_inv (fst s)"
  shows "abandoned (fst (recover_one now item s)) g"
proof -
  obtain db res where s: "s = (db, res)" by (cases s)
  let ?expired = "\<lambda>r. r_id r = r_id item \<and> r_status r = StatusRunning \<and> lease_expired now r"
  have settle: "runs_settle (fst s) (fst (recover_one now item s))" by (rule recover_one_settles) simp
  show ?thesis
  proof (cases "r_status item = StatusClaimed \<or> count_where ?expired (db_runs db) = 0")
    case True
    then have "generations_kept (fst s) (fst (recover_one now item s))"
      unfolding s recover_one_def prod.case Let_def by auto
    then show ?thesis by (rule abandoned_evolves[OF assms settle_evolve[OF settle]])
  next
    case False
    then have "0 < count_where ?expired (db_runs db)" by simp
    then obtain r where "r \<in> set (db_runs db)" "?expired r" unfolding count_where_pos_iff by (elim bexE) (rule that)
    then have "\<exists>r \<in> set (db_runs (fst s)). r_id r = r_id item \<and> is_active r" by (auto simp: s is_active_def)
    then show ?thesis by (rule abandoned_staged[OF assms recover_one_staged settle])
  qed
qed

lemma recover_abandoned:
  assumes "abandoned (fst s) g" "generation_inv (fst s)"
  shows "abandoned (fst (fold (recover_one now) items s)) g"
  using assms
proof (induction items arbitrary: s)
  case (Cons item items)
  have "generation_inv (fst (recover_one now item s))"
    by (rule staged_inv[OF Cons.prems(2) recover_one_staged]) (rule recover_one_settles, simp)
  with recover_one_abandoned[OF Cons.prems] show ?case using Cons.IH by simp
qed simp

text \<open>Creating a refresh appends runs with new ids, and links them to the new generation only.\<close>

definition appends :: "uuid \<Rightarrow> db \<Rightarrow> db \<Rightarrow> bool" where
  "appends gen db db' \<longleftrightarrow> (\<exists>new. db_runs db' = db_runs db @ new \<and> r_id ` set new \<inter> r_id ` set (db_runs db) = {})
     \<and> (\<forall>h. h \<noteq> gen \<longrightarrow> links_of db' h = links_of db h)"

lemma appends_refl: "appends gen db db"
  by (simp add: appends_def)

lemma appends_same: "db_runs db' = db_runs db \<Longrightarrow> db_generation_links db' = db_generation_links db \<Longrightarrow> appends gen db db'"
  by (simp add: appends_def links_of_def)

lemma appends_trans: "appends gen db db1 \<Longrightarrow> appends gen db1 db2 \<Longrightarrow> appends gen db db2"
  by (fastforce simp: appends_def)

lemma appends_evolve:
  assumes "appends gen db db'" shows "runs_evolve db db'"
proof -
  obtain new where n: "db_runs db' = db_runs db @ new" "r_id ` set new \<inter> r_id ` set (db_runs db) = {}"
    using assms by (auto simp: appends_def)
  have "\<exists>y \<in> set (db_runs db'). follows x y" if "x \<in> set (db_runs db)" for x
    using that follows_refl n(1) by (metis Un_iff set_append)
  moreover have "(\<exists>x \<in> set (db_runs db). follows x y) \<or> r_id y \<notin> r_id ` set (db_runs db)" if "y \<in> set (db_runs db')" for y
  proof (cases "y \<in> set (db_runs db)")
    case True then show ?thesis using follows_refl by blast
  next
    case False
    with that n(1) have "y \<in> set new" by simp
    with n(2) show ?thesis by blast
  qed
  ultimately show ?thesis by (simp add: runs_evolve_def runs_follow_def)
qed

lemma insert_appends:
  assumes "insert_refresh_run cd cfg tenant recipient refresh version i new_id now db = Inr db'" "new_id \<notin> r_id ` set (db_runs db)"
  shows "appends gen db db'"
  using insert_refresh_run_Inr[OF assms(1)] assms(2) by (auto simp: appends_def links_of_def)

lemma link_refresh_appends: "link_refresh refresh k run db = Inr db' \<Longrightarrow> appends gen db db'"
  by (rule appends_same) (auto simp: link_refresh_def split: if_splits)

lemma link_generation_appends: "link_generation gen tenant k run p db = Inr db' \<Longrightarrow> appends gen db db'"
  by (auto simp: link_generation_def appends_def links_of_def split: if_splits)

lemma generation_loop_appends:
  assumes "generation_loop cd cfg tenant recipient refresh gen version run_ids now pos inputs db = Inr db'"
    "\<forall>p \<ge> pos. run_ids p \<notin> r_id ` set (db_runs db)" "inj run_ids"
  shows "appends gen db db' \<and> db_generations db' = db_generations db"
  using assms(1-2)
proof (induction inputs arbitrary: pos db)
  case Nil then show ?case by (simp add: appends_refl)
next
  case (Cons i rest)
  define found where "found = coalesced_run db tenant (refresh_execution_key cd cfg tenant version i)"
  from Cons.prems(1) obtain x where
      x: "(case found of Some r \<Rightarrow> Inr (r_id r, db)
       | None \<Rightarrow> bindr (insert_refresh_run cd cfg tenant recipient refresh version i (run_ids pos) now db)
                   (\<lambda>db1. Inr (run_ids pos, db1))) = Inr x"
    and cont: "(case x of (run, db1) \<Rightarrow> bindr (link_refresh refresh (in_key i) run db1) (\<lambda>db2.
        bindr (link_generation gen tenant (in_key i) run (int pos + 1) db2)
        (generation_loop cd cfg tenant recipient refresh gen version run_ids now (Suc pos) rest))) = Inr db'"
    unfolding generation_loop.simps bindr_Inr_iff found_def[symmetric] by (elim exE conjE) (rule that)
  obtain run db1 where p: "x = (run, db1)" by (cases x)
  from cont obtain db2 db3 where l1: "link_refresh refresh (in_key i) run db1 = Inr db2"
    and l2: "link_generation gen tenant (in_key i) run (int pos + 1) db2 = Inr db3"
    and rest: "generation_loop cd cfg tenant recipient refresh gen version run_ids now (Suc pos) rest db3 = Inr db'"
    unfolding p prod.case bindr_Inr_iff by (elim exE conjE) (rule that)
  have 1: "appends gen db db1 \<and> db_generations db1 = db_generations db \<and> (\<forall>p \<ge> Suc pos. run_ids p \<notin> r_id ` set (db_runs db1))"
  proof (cases found)
    case None
    with x[unfolded p] have ins: "insert_refresh_run cd cfg tenant recipient refresh version i (run_ids pos) now db = Inr db1" by auto
    from insert_refresh_run_Inr[OF ins] obtain r where
      r: "db1 = db\<lparr>db_runs := db_runs db @ [r]\<rparr>" "r_id r = run_ids pos" by (elim exE conjE) (rule that)
    have "run_ids p \<noteq> run_ids pos" if "Suc pos \<le> p" for p using that by (simp add: inj_eq[OF assms(3)])
    with insert_appends[OF ins] Cons.prems(2) r show ?thesis by simp
  next
    case Some
    with x[unfolded p] Cons.prems(2) show ?thesis by (simp add: appends_refl)
  qed
  have "db_runs db2 = db_runs db1" "db_generations db2 = db_generations db1"
    using l1 by (auto simp: link_refresh_def split: if_splits)
  moreover have "db_runs db3 = db_runs db2" "db_generations db3 = db_generations db2"
    using l2 by (auto simp: link_generation_def split: if_splits)
  ultimately have 2: "db_runs db3 = db_runs db1" "db_generations db3 = db_generations db1" by simp_all
  have "appends gen db3 db' \<and> db_generations db' = db_generations db3" by (rule Cons.IH[OF rest]) (simp add: 1 2)
  then show ?case using 1 2 link_refresh_appends[OF l1] link_generation_appends[OF l2] appends_trans by metis
qed

lemma legacy_loop_appends:
  assumes "legacy_loop cd cfg tenant recipient refresh version run_ids now pos inputs db = Inr db'"
    "\<forall>p \<ge> pos. run_ids p \<notin> r_id ` set (db_runs db)" "inj run_ids"
  shows "appends gen db db' \<and> db_generations db' = db_generations db"
  using assms(1-2)
proof (induction inputs arbitrary: pos db)
  case Nil then show ?case by (simp add: appends_refl)
next
  case (Cons i rest)
  from Cons.prems(1) obtain db1 db2 where
      ins: "insert_refresh_run cd cfg tenant recipient refresh version i (run_ids pos) now db = Inr db1"
    and l1: "link_refresh refresh (in_key i) (run_ids pos) db1 = Inr db2"
    and rest: "legacy_loop cd cfg tenant recipient refresh version run_ids now (Suc pos) rest db2 = Inr db'"
    unfolding legacy_loop.simps bindr_Inr_iff by (elim exE conjE) (rule that)
  from insert_refresh_run_Inr[OF ins] obtain r where
    r: "db1 = db\<lparr>db_runs := db_runs db @ [r]\<rparr>" "r_id r = run_ids pos" by (elim exE conjE) (rule that)
  then have g1: "db_generations db1 = db_generations db" by simp
  have l: "db_runs db2 = db_runs db1" "db_generations db2 = db_generations db1"
    using l1 by (auto simp: link_refresh_def split: if_splits)
  have "run_ids p \<noteq> run_ids pos" if "Suc pos \<le> p" for p using that by (simp add: inj_eq[OF assms(3)])
  then have "appends gen db2 db' \<and> db_generations db' = db_generations db2"
    using Cons.prems(2) l(1) r by (intro Cons.IH[OF rest]) simp
  then show ?case using g1 l(2) insert_appends[OF ins] Cons.prems(2) link_refresh_appends[OF l1] appends_trans by (metis order_refl)
qed

lemma create_generation_effect:
  assumes "create_generation cd cfg db recipient tenant idem inputs version gen refresh run_ids now = Inr db'"
    "fresh_ids db gen run_ids"
  shows "appends gen db db' \<and> (db_generations db' = db_generations db
    \<or> (\<exists>d. db_generations db' = db_generations db @ [new_generation gen tenant d version (length inputs) now]
        \<and> count_where (building tenant) (db_generations db) < 2))"
proof -
  from assms(1) obtain d where d: "describe_generation cd cfg tenant inputs version = Inr d"
    by (auto simp: create_generation_def split: sum.splits)
  show ?thesis
  proof (cases "find_where (\<lambda>g. building tenant g \<and> g_key g = gd_key d) (db_generations db)")
    case (Some g)
    with assms(1) d have "db_runs db' = db_runs db \<and> generations_kept db db'"
      by (auto simp: create_generation_def)
    then show ?thesis by (simp add: generations_kept_def appends_same)
  next
    case None
    define db0 where "db0 = db\<lparr>db_generations := db_generations db @ [new_generation gen tenant d version (length inputs) now],
      db_refreshes := db_refreshes db @ [new_refresh refresh tenant recipient idem (length inputs) (Some gen) (Some (gd_key d)) now]\<rparr>"
    have loop: "generation_loop cd cfg tenant recipient refresh gen version run_ids now 0 inputs db0 = Inr db'"
      and lim: "count_where (building tenant) (db_generations db) < 2"
      using assms(1) d None by (auto simp: create_generation_def db0_def split: if_splits)
    from generation_loop_appends[OF loop] assms(2)
    have "appends gen db0 db'" "db_generations db' = db_generations db0" by (auto simp: fresh_ids_def db0_def)
    moreover have "appends gen db db0" by (rule appends_same) (simp_all add: db0_def)
    ultimately show ?thesis using lim appends_trans[of gen db db0 db'] by (auto simp: db0_def)
  qed
qed

lemma create_legacy_effect:
  assumes "create_legacy cd cfg db recipient tenant idem inputs version refresh run_ids now = Inr db'"
    "fresh_ids db gen run_ids"
  shows "appends gen db db' \<and> db_generations db' = db_generations db"
proof -
  let ?db = "db\<lparr>db_refreshes := db_refreshes db @ [new_refresh refresh tenant recipient idem (length inputs) None None now]\<rparr>"
  have l: "legacy_loop cd cfg tenant recipient refresh version run_ids now 0 inputs ?db = Inr db'"
    using assms(1) by (auto simp: create_legacy_def split: if_splits)
  have "appends gen ?db db' \<and> db_generations db' = db_generations ?db"
    by (rule legacy_loop_appends[OF l]) (use assms(2) in \<open>simp_all add: fresh_ids_def\<close>)
  moreover have "appends gen db ?db" by (rule appends_same) simp_all
  ultimately show ?thesis using appends_trans[of gen db ?db db'] by simp
qed

lemma create_refresh_effect:
  assumes "create_refresh cd cfg db recipient tenant idem inputs gen refresh run_ids now = Inr (db', v)"
    "fresh_ids db gen run_ids"
  shows "appends gen db db' \<and> (db_generations db' = db_generations db
    \<or> (\<exists>d. db_generations db' = db_generations db @ [new_generation gen tenant d (source_version db tenant) (length inputs) now]
        \<and> count_where (building tenant) (db_generations db) < 2))"
  using assms(1)
proof (cases rule: create_refresh_cases)
  case (replay f)
  from get_refresh_Inr[OF replay(1)] show ?thesis by (simp add: generations_kept_def appends_same)
next
  case (generation db1)
  have "db_generations db' = db_generations db1" "appends gen db1 db'"
    using get_refresh_Inr[OF generation(3)] by (auto simp: generations_kept_def intro: appends_same)
  with create_generation_effect[OF generation(2) assms(2)] show ?thesis using appends_trans[of gen db db1 db'] by auto
next
  case (legacy db1)
  have "db_generations db' = db_generations db1" "appends gen db1 db'"
    using get_refresh_Inr[OF legacy(3)] by (auto simp: generations_kept_def intro: appends_same)
  with create_legacy_effect[OF legacy(2) assms(2)] show ?thesis using appends_trans[of gen db db1 db'] by auto
qed

section \<open>Nothing completes an abandoned generation\<close>

lemma system_step_abandoned:
  assumes "system_step cd cfg db db'" "abandoned db g" "generation_inv db"
  shows "abandoned db' g"
  using assms
proof (induction rule: system_step.induct)
  case (enqueued db i new_id now db' r)
  show ?case by (rule abandoned_evolves[OF enqueued(3,4) enqueue_evolve[OF enqueued(1,2)] enqueue_kept[OF enqueued(1)]])
next
  case (cancelled db run now db' r)
  have "runs_settle db db'" using cancel_settles[OF cancelled(1)] cancelled(3) by (simp add: generation_inv_def)
  moreover have "generations_kept db db'"
    using cancelled(1) by (auto simp: cancel_run_def Let_def split: option.splits if_splits)
  ultimately show ?case using abandoned_evolves[OF cancelled(2,3) settle_evolve] by blast
next
  case (claimed db locked worker lease now db' r)
  then show ?case using claim_evolve[OF claimed(1)] abandoned_evolves unfolding generation_inv_def by meson
next
  case (recovered db locked now db' recovery)
  then show ?case using recover_abandoned[of "(db, _)" g now "expired_leases db locked now"]
    by (simp add: recover_expired_leases_def) (metis fst_conv)
next
  case (worked enc op db run worker now db')
  have "\<exists>r \<in> set (db_runs db). r_id r = run \<and> is_active r" using working.fence[OF worked(1)] by (auto simp: holds_lease_def)
  then show ?case by (rule abandoned_staged[OF worked(2,3) run_op_staged[OF worked(1)] working.settle[OF worked(1)]])
next
  case (refreshed db recipient tenant idem inputs gen refresh run_ids now db' v)
  from create_refresh_effect[OF refreshed(1,2)] have a: "appends gen db db'" and "set (db_generations db) \<subseteq> set (db_generations db')"
    by auto
  moreover have "g_id g \<noteq> gen" using refreshed(2,3) by (auto simp: abandoned_def fresh_ids_def)
  ultimately show ?case using abandoned_evolve[OF refreshed(3) _ appends_evolve[OF a]] refreshed(3,4)
    by (auto simp: generation_inv_def abandoned_def appends_def)
next
  case (polled db recipient tenant refresh now db' v)
  from get_refresh_Inr[OF polled(1)] show ?case using abandoned_evolves[OF polled(2,3) same_evolve] by blast
next
  case (environment db' db)
  then show ?case using abandoned_evolves[OF environment(3,4) same_evolve] by blast
qed

lemma system_steps_abandoned:
  assumes "generation_inv db" "abandoned db g" "(system_step cd cfg)\<^sup>*\<^sup>* db db'"
  shows "abandoned db' g"
proof -
  from assms(3) have "abandoned db' g \<and> generation_inv db'"
    by induction (use assms(1,2) system_step_abandoned system_step_inv in blast)+
  then show ?thesis by simp
qed


section \<open>The limit of generations under construction\<close>

definition building_limit :: "db \<Rightarrow> bool" where
  "building_limit db \<longleftrightarrow> (\<forall>tenant. count_where (building tenant) (db_generations db) \<le> 2)"

lemma building_kept: "building_limit db \<Longrightarrow> generations_kept db db' \<Longrightarrow> building_limit db'"
  by (simp add: building_limit_def generations_kept_def)

lemma recount_building: "affected_generation db run g \<Longrightarrow> building t (recount_generation db now g) \<Longrightarrow> building t g"
  by (simp add: building_def affected_generation_def recount_generation_def Let_def)

lemma building_update_generations:
  assumes "building_limit db"
  shows "building_limit (update_generations run now db)"
  unfolding building_limit_def update_generations_simps
proof
  fix t
  have "count_where (building t) (update_where (affected_generation db run) (recount_generation db now) (db_generations db))
      \<le> count_where (building t) (db_generations db)"
    by (rule count_where_update_le) (rule recount_building)
  with assms show "count_where (building t) (update_where (affected_generation db run) (recount_generation db now)
      (db_generations db)) \<le> 2" unfolding building_limit_def using le_trans by blast
qed

lemma building_staged: "building_limit db \<Longrightarrow> staged run db db' \<Longrightarrow> building_limit db'"
  by (auto simp: staged_def dest: building_kept building_update_generations)

lemma building_recover: "building_limit (fst s) \<Longrightarrow> building_limit (fst (fold (recover_one now) items s))"
proof (induction items arbitrary: s)
  case (Cons item items)
  show ?case using Cons.IH[OF building_staged[OF Cons.prems recover_one_staged]] by simp
qed simp

lemma system_step_building: "system_step cd cfg db db' \<Longrightarrow> building_limit db \<Longrightarrow> building_limit db'"
proof (induction rule: system_step.induct)
  case (enqueued db i new_id now db' r)
  show ?case by (rule building_kept[OF enqueued(3) enqueue_kept[OF enqueued(1)]])
next
  case (cancelled db run now db' r)
  have "generations_kept db db'"
    using cancelled(1) by (auto simp: cancel_run_def Let_def split: option.splits if_splits)
  then show ?case by (rule building_kept[OF cancelled(2)])
next
  case (claimed db locked worker lease now db' r)
  obtain x where "claim_row db x worker lease now = Inr (db', r)" using claim_run_Inr[OF claimed(1)] by metis
  then have "generations_kept db db'" by (auto simp: claim_row_def Let_def split: if_splits)
  then show ?case by (rule building_kept[OF claimed(2)])
next
  case (recovered db locked now db' recovery)
  then show ?case using building_recover[of "(db, _)" now "expired_leases db locked now"]
    by (simp add: recover_expired_leases_def) (metis fst_conv)
next
  case (worked enc op db run worker now db')
  show ?case by (rule building_staged[OF worked(2) run_op_staged[OF worked(1)]])
next
  case (refreshed db recipient tenant idem inputs gen refresh run_ids now db' v)
  from create_refresh_effect[OF refreshed(1,2)] show ?case using refreshed(3)
  proof (elim conjE disjE exE)
    fix d
    assume e: "db_generations db' = db_generations db @ [new_generation gen tenant d (source_version db tenant) (length inputs) now]"
      and l: "count_where (building tenant) (db_generations db) < 2"
    have "building t (new_generation gen tenant d v n now) \<longleftrightarrow> t = tenant" for t d v n
      by (auto simp: building_def new_generation_def)
    with refreshed(3) l show ?thesis by (auto simp: building_limit_def e count_where_append)
  qed (simp add: building_limit_def)
next
  case (polled db recipient tenant refresh now db' v)
  from get_refresh_Inr[OF polled(1)] show ?case using building_kept[OF polled(2)] by blast
next
  case (environment db' db)
  then show ?case using building_kept by blast
qed

lemma reachable_building:
  assumes "system_reachable cd cfg db"
  shows "count_where (building tenant) (db_generations db) \<le> 2"
proof -
  from assms have "building_limit db"
    by induction (simp add: building_limit_def, rule system_step_building)
  then show ?thesis by (simp add: building_limit_def)
qed

text \<open>C16: No tenant ever has more than two generations under construction, whose keys may differ.\<close>

theorem building_generations_limited:
  assumes "system_reachable cd cfg db"
  shows "count_where (building tenant) (db_generations db) \<le> 2"
  using assms by (rule reachable_building)

lemma count_where_card:
  assumes "S \<subseteq> set xs" "\<And>x. x \<in> S \<Longrightarrow> p x"
  shows "card S \<le> count_where p xs"
proof -
  have "S \<subseteq> set (filter p xs)" using assms by auto
  then have "card S \<le> card (set (filter p xs))" by (rule card_mono[rotated]) simp
  then show ?thesis using card_length[of "filter p xs"] by (simp add: count_where_def)
qed

lemma system_steps_reachable:
  "(system_step cd cfg)\<^sup>*\<^sup>* db db' \<Longrightarrow> system_reachable cd cfg db \<Longrightarrow> system_reachable cd cfg db'"
  by (induction rule: rtranclp_induct) (auto intro: system_reachable.step)

text \<open>Two abandoned generations of a tenant block its dashboards: every later refresh whose key is
  not one of theirs is refused.\<close>

theorem abandoned_generations_block:
  assumes "system_reachable cd cfg db" "abandoned db g1" "abandoned db g2" "g_id g1 \<noteq> g_id g2"
    "g_tenant g1 = tenant" "g_tenant g2 = tenant" "(system_step cd cfg)\<^sup>*\<^sup>* db db'" "cfg_generation_cache cfg"
    "describe_generation cd cfg tenant inputs (source_version db' tenant) = Inr d" "gd_key d \<notin> {g_key g1, g_key g2}"
    "\<forall>f \<in> set (db_refreshes db'). f_tenant f = tenant \<and> f_recipient f = recipient \<longrightarrow> f_idempotency f \<noteq> idem"
  shows "isl (create_refresh cd cfg db' recipient tenant idem inputs gen refresh run_ids now)"
proof -
  let ?gs = "db_generations db'"
  have "abandoned db' g1" "abandoned db' g2"
    using system_steps_abandoned[OF system_inv[OF assms(1)] _ assms(7)] assms(2,3) by blast+
  then have mem: "g1 \<in> set ?gs" "g2 \<in> set ?gs" "building tenant g1" "building tenant g2"
    using assms(5,6) by (auto simp: abandoned_def building_def)
  have "g1 \<noteq> g2" using assms(4) by blast
  have lim: "count_where (building tenant) ?gs \<le> 2"
    by (rule reachable_building[OF system_steps_reachable[OF assms(7,1)]])
  have two: "2 \<le> count_where (building tenant) ?gs"
  proof -
    have "card {g1, g2} \<le> count_where (building tenant) ?gs" by (rule count_where_card) (use mem in auto)
    with \<open>g1 \<noteq> g2\<close> show ?thesis by simp
  qed
  have "g = g1 \<or> g = g2" if "g \<in> set ?gs" "building tenant g" for g
  proof (rule ccontr)
    assume other: "\<not> (g = g1 \<or> g = g2)"
    have "card {g, g1, g2} \<le> count_where (building tenant) ?gs" by (rule count_where_card) (use mem that in auto)
    with \<open>g1 \<noteq> g2\<close> other lim show False by simp
  qed
  note only = this
  have "\<not> (building tenant g \<and> g_key g = gd_key d)" if "g \<in> set ?gs" for g
    using only[OF that] assms(10) by auto
  then have "find_where (\<lambda>g. building tenant g \<and> g_key g = gd_key d) ?gs = None"
    unfolding find_where_None by (intro ballI)
  with assms(9) two have gen: "create_generation cd cfg db' recipient tenant idem inputs (source_version db' tenant) gen refresh
      run_ids now = Inl ErrRunConcurrencyLimit" by (simp add: create_generation_def)
  show ?thesis
  proof (rule ccontr)
    assume "\<not> ?thesis"
    then obtain p where "create_refresh cd cfg db' recipient tenant idem inputs gen refresh run_ids now = Inr p"
      by (metis sum.collapse(2))
    then obtain db'' v where "create_refresh cd cfg db' recipient tenant idem inputs gen refresh run_ids now = Inr (db'', v)"
      by (cases p) simp
    then show False
    proof (cases rule: create_refresh_cases)
      case (replay f)
      from find_where_Some[OF replay(3)] assms(11) show False by auto
    qed (use gen assms(8) in simp_all)
  qed
qed

section \<open>Examples\<close>

text \<open>A recipient asks for a day, the run is cancelled while it is queued, and the same for another day.\<close>

definition once_cancelled :: db where
  "once_cancelled = (case cancel_run refreshed_db 100 (11 * hour) of Inr (db, _) \<Rightarrow> db | _ \<Rightarrow> empty_db)"

definition twice_refreshed :: db where
  "twice_refreshed = (case create_refresh sample_codec cached_config once_cancelled 7 1 ''refresh-2'' (sample_day ''2025-03-05'')
     51 61 (\<lambda>p. 200 + p) (12 * hour) of Inr (db, _) \<Rightarrow> db | _ \<Rightarrow> empty_db)"

definition twice_cancelled :: db where
  "twice_cancelled = (case cancel_run twice_refreshed 200 (13 * hour) of Inr (db, _) \<Rightarrow> db | _ \<Rightarrow> empty_db)"

lemma cancel_steps:
  "system_step sample_codec cached_config refreshed_db once_cancelled"
  "system_step sample_codec cached_config once_cancelled twice_refreshed"
  "system_step sample_codec cached_config twice_refreshed twice_cancelled"
proof -
  have "\<exists>v. cancel_run refreshed_db 100 (11 * hour) = Inr (once_cancelled, v)"
    unfolding once_cancelled_def by (rule evaluated_db) code_simp
  then obtain r where "cancel_run refreshed_db 100 (11 * hour) = Inr (once_cancelled, r)" by (elim exE)
  then show "system_step sample_codec cached_config refreshed_db once_cancelled" by (rule cancelled)
  have "\<exists>v. create_refresh sample_codec cached_config once_cancelled 7 1 ''refresh-2'' (sample_day ''2025-03-05'')
     51 61 (\<lambda>p. 200 + p) (12 * hour) = Inr (twice_refreshed, v)"
    unfolding twice_refreshed_def by (rule evaluated_db) code_simp
  then obtain v where "create_refresh sample_codec cached_config once_cancelled 7 1 ''refresh-2'' (sample_day ''2025-03-05'')
     51 61 (\<lambda>p. 200 + p) (12 * hour) = Inr (twice_refreshed, v)" by (elim exE)
  moreover have "map g_id (db_generations once_cancelled) = [50]" "map r_id (db_runs once_cancelled) = [100]" by code_simp+
  then have "fresh_ids once_cancelled 51 (\<lambda>p. 200 + p)" by (auto simp: fresh_ids_def inj_def)
  ultimately show "system_step sample_codec cached_config once_cancelled twice_refreshed" by (rule refreshed)
  have "\<exists>v. cancel_run twice_refreshed 200 (13 * hour) = Inr (twice_cancelled, v)"
    unfolding twice_cancelled_def by (rule evaluated_db) code_simp
  then obtain r where "cancel_run twice_refreshed 200 (13 * hour) = Inr (twice_cancelled, r)" by (elim exE)
  then show "system_step sample_codec cached_config twice_refreshed twice_cancelled" by (rule cancelled)
qed

lemma twice_cancelled_reachable: "system_reachable sample_codec cached_config twice_cancelled"
  using refreshed_reachable cancel_steps by (blast intro: system_reachable.step)

lemma twice_cancelled_state:
  "map (\<lambda>g. (g_id g, g_tenant g, g_status g)) (db_generations twice_cancelled)
     = [(50, 1, GenerationBuilding), (51, 1, GenerationBuilding)]"
  "list_all is_terminal (db_runs twice_cancelled)"
  by code_simp+

lemma all_ended_abandoned:
  assumes "list_all is_terminal (db_runs db)" "g \<in> set (db_generations db)" "g_status g = GenerationBuilding"
  shows "abandoned db g"
  using assms by (auto simp: abandoned_def linked_run_def list_all_iff)


lemma building_generations_limited_witness: "count_where (building 1) (db_generations twice_cancelled) \<le> 2"
  by (rule building_generations_limited[OF twice_cancelled_reachable])

lemma third_day:
  "\<exists>d. describe_generation sample_codec cached_config 1 (sample_day ''2025-03-06'') (source_version twice_cancelled 1) = Inr d
     \<and> gd_key d \<notin> set (map g_key (db_generations twice_cancelled))"
  "list_all (\<lambda>f. f_idempotency f \<noteq> ''refresh-3'') (db_refreshes twice_cancelled)"
  by (rule evaluated) code_simp+

lemma abandoned_generations_block_witness:
  "isl (create_refresh sample_codec cached_config twice_cancelled 7 1 ''refresh-3'' (sample_day ''2025-03-06'')
     52 62 (\<lambda>p. 300 + p) (14 * hour))"
proof -
  obtain g1 g2 where g: "db_generations twice_cancelled = [g1, g2]" "g_id g1 = 50" "g_id g2 = 51"
      "g_status g1 = GenerationBuilding" "g_status g2 = GenerationBuilding" "g_tenant g1 = 1" "g_tenant g2 = 1"
    using twice_cancelled_state(1) by auto
  have a: "abandoned twice_cancelled g1" "abandoned twice_cancelled g2"
    by (rule all_ended_abandoned[OF twice_cancelled_state(2)]; simp add: g)+
  obtain d where d: "describe_generation sample_codec cached_config 1 (sample_day ''2025-03-06'') (source_version twice_cancelled 1) = Inr d"
      "gd_key d \<notin> set (map g_key (db_generations twice_cancelled))" using third_day(1) by (elim exE conjE)
  have k: "gd_key d \<notin> {g_key g1, g_key g2}" using d(2) by (simp add: g(1))
  have c: "cfg_generation_cache cached_config" by (simp add: cached_config_def)
  have n: "g_id g1 \<noteq> g_id g2" by (simp add: g)
  show ?thesis
    by (rule abandoned_generations_block[OF twice_cancelled_reachable a n g(6,7) rtranclp.rtrancl_refl c d(1) k])
      (use third_day(2) in \<open>simp add: list_all_iff\<close>)
qed

end
