(* ===== verification/RefreshPolicy.thy ===== *)
theory RefreshPolicy
  imports RunStore
begin

text \<open>
  The refresh policy of a tenant (report/refresh_policy.go, database/refresh_policy_store.go): how
  many minutes a snapshot of a report of each class stays fresh, or None for no refreshing in the
  background.  The store updates a policy only when the caller has seen its current version.
\<close>

record refresh_policy =
  pol_tenant :: uuid
  pol_fast :: "int option"
  pol_standard :: "int option"
  pol_heavy :: "int option"
  pol_version :: int

datatype policy_error = RefreshPolicyInvalid | RefreshPolicyConflict | PolicyTenantNotFound

definition default_refresh_policy :: "uuid \<Rightarrow> refresh_policy" where
  "default_refresh_policy tenant = \<lparr>pol_tenant = tenant, pol_fast = Some 5, pol_standard = Some 15,
     pol_heavy = Some 30, pol_version = 0\<rparr>"

definition interval_for :: "refresh_policy \<Rightarrow> report_definition \<Rightarrow> duration \<times> bool" where
  "interval_for policy d = (case (case def_refresh_class d of
       RefreshFast \<Rightarrow> pol_fast policy
     | RefreshStandard \<Rightarrow> pol_standard policy
     | RefreshHeavy \<Rightarrow> pol_heavy policy
     | OtherRefreshClass _ \<Rightarrow> None) of
     None \<Rightarrow> (0, False) | Some m \<Rightarrow> (m * minute, True))"

section \<open>The store\<close>

text \<open>tenant_dashboard_refresh_policies and the audit log, of which the versions are kept.\<close>

record policy_db =
  pd_policies :: "refresh_policy list"
  pd_audit :: "(uuid \<times> int) list"

definition get_refresh_policy :: "db \<Rightarrow> policy_db \<Rightarrow> uuid \<Rightarrow> policy_error + refresh_policy" where
  "get_refresh_policy db pd tenant = (case find_where (\<lambda>t. t_id t = tenant) (db_tenants db) of
     None \<Rightarrow> Inl PolicyTenantNotFound
   | Some _ \<Rightarrow> (case find_where (\<lambda>p. pol_tenant p = tenant) (pd_policies pd) of
       None \<Rightarrow> Inr (default_refresh_policy tenant)
     | Some p \<Rightarrow> Inr p))"

definition put_refresh_policy :: "db \<Rightarrow> policy_db \<Rightarrow> refresh_policy \<Rightarrow> int \<Rightarrow> policy_error + (policy_db \<times> refresh_policy)" where
  "put_refresh_policy db pd policy expected = (
     let tenant = pol_tenant policy; mine = (\<lambda>p. pol_tenant p = tenant);
         store = (\<lambda>policies (saved :: refresh_policy).
           Inr (\<lparr>pd_policies = policies, pd_audit = pd_audit pd @ [(tenant, pol_version saved)]\<rparr>, saved))
     in if find_where (\<lambda>t. t_id t = tenant) (db_tenants db) = None then Inl PolicyTenantNotFound
     else (case find_where mine (pd_policies pd) of
         None \<Rightarrow> if expected \<noteq> 0 then Inl RefreshPolicyConflict
           else (let saved = policy\<lparr>pol_version := 1\<rparr> in store (pd_policies pd @ [saved]) saved)
       | Some current \<Rightarrow> if expected \<noteq> pol_version current then Inl RefreshPolicyConflict
           else (let saved = policy\<lparr>pol_version := pol_version current + 1\<rparr>
             in store (update_where mine (\<lambda>_. saved) (pd_policies pd)) saved)))"

section \<open>The service\<close>

record rollout =
  ro_snapshot_first :: bool
  ro_tenants :: "uuid list"
  ro_revalidation :: bool

datatype rollout_status = RolloutActive | SnapshotFirstDisabled | TenantNotEnabled | RolloutRevalidationDisabled

definition rollout_status_for :: "rollout \<Rightarrow> uuid \<Rightarrow> rollout_status" where
  "rollout_status_for ro tenant = (
     if \<not> ro_snapshot_first ro then SnapshotFirstDisabled
     else if ro_tenants ro \<noteq> [] then
       (if tenant \<notin> set (ro_tenants ro) then TenantNotEnabled
        else if \<not> ro_revalidation ro then RolloutRevalidationDisabled else RolloutActive)
     else if \<not> ro_revalidation ro then RolloutRevalidationDisabled else RolloutActive)"

definition valid_refresh_minutes :: "int option \<Rightarrow> int list \<Rightarrow> bool" where
  "valid_refresh_minutes v allowed \<longleftrightarrow> (case v of None \<Rightarrow> True | Some m \<Rightarrow> m \<in> set allowed)"

definition valid_policy :: "refresh_policy \<Rightarrow> bool" where
  "valid_policy p \<longleftrightarrow> pol_version p \<ge> 0 \<and> valid_refresh_minutes (pol_fast p) [5, 10, 15, 30, 60]
     \<and> valid_refresh_minutes (pol_standard p) [15, 30, 60] \<and> valid_refresh_minutes (pol_heavy p) [30, 60, 120]"

definition policy_get :: "rollout \<Rightarrow> db \<Rightarrow> policy_db \<Rightarrow> uuid \<Rightarrow> policy_error + (refresh_policy \<times> rollout_status)" where
  "policy_get ro db pd tenant = bindr (get_refresh_policy db pd tenant) (\<lambda>p.
     Inr (p, rollout_status_for ro (pol_tenant p)))"

text \<open>The input is the policy with the version the caller has seen.\<close>

definition policy_put :: "rollout \<Rightarrow> db \<Rightarrow> policy_db \<Rightarrow> refresh_policy
    \<Rightarrow> policy_error + (policy_db \<times> refresh_policy \<times> rollout_status)" where
  "policy_put ro db pd input = (
     if \<not> valid_policy input then Inl RefreshPolicyInvalid
     else bindr (put_refresh_policy db pd input (pol_version input)) (\<lambda>(pd', saved).
       Inr (pd', saved, rollout_status_for ro (pol_tenant saved))))"

section \<open>Lemmas\<close>

definition policies_wf :: "policy_db \<Rightarrow> bool" where
  "policies_wf pd \<longleftrightarrow> distinct (map pol_tenant (pd_policies pd)) \<and> (\<forall>p \<in> set (pd_policies pd). valid_policy p \<and> pol_version p \<ge> 1)"

lemma find_update_key:
  assumes "find_where (\<lambda>p. k p = x) rows = Some r" "k r' = x"
  shows "find_where (\<lambda>p. k p = x) (update_where (\<lambda>p. k p = x) (\<lambda>_. r') rows) = Some r'"
  using assms by (induction rows) (auto simp: update_where_def split: if_splits)

lemma find_append_key: "find_where p rows = None \<Longrightarrow> p r \<Longrightarrow> find_where p (rows @ [r]) = Some r"
  by (induction rows) (auto split: if_splits)

lemma find_update_other:
  "x \<noteq> y \<Longrightarrow> k r' = y \<Longrightarrow>
   find_where (\<lambda>p. k p = x) (update_where (\<lambda>p. k p = y) (\<lambda>_. r') rows) = find_where (\<lambda>p. k p = x) rows"
  by (induction rows) (auto simp: update_where_def)

lemma find_append_other: "\<not> p r \<Longrightarrow> find_where p (rows @ [r]) = find_where p rows"
  by (induction rows) auto

lemma put_refresh_policy_cases:
  assumes "put_refresh_policy db pd policy expected = Inr (pd', saved)"
  obtains (insert) "find_where (\<lambda>p. pol_tenant p = pol_tenant policy) (pd_policies pd) = None" "expected = 0"
      "saved = policy\<lparr>pol_version := 1\<rparr>" "pd_policies pd' = pd_policies pd @ [saved]"
  | (update) current where "find_where (\<lambda>p. pol_tenant p = pol_tenant policy) (pd_policies pd) = Some current"
      "expected = pol_version current" "saved = policy\<lparr>pol_version := pol_version current + 1\<rparr>"
      "pd_policies pd' = update_where (\<lambda>p. pol_tenant p = pol_tenant policy) (\<lambda>_. saved) (pd_policies pd)"
  using assms unfolding put_refresh_policy_def Let_def by (auto split: if_splits option.splits)

lemma put_get:
  assumes "put_refresh_policy db pd policy expected = Inr (pd', saved)"
  shows "get_refresh_policy db pd' (pol_tenant policy) = Inr saved"
    "tenant \<noteq> pol_tenant policy \<Longrightarrow> get_refresh_policy db pd' tenant = get_refresh_policy db pd tenant"
    "find_where (\<lambda>p. pol_tenant p = pol_tenant policy) (pd_policies pd') = Some saved"
proof -
  have t: "pol_tenant saved = pol_tenant policy"
    using assms by (cases rule: put_refresh_policy_cases) simp_all
  show f: "find_where (\<lambda>p. pol_tenant p = pol_tenant policy) (pd_policies pd') = Some saved"
    using assms by (cases rule: put_refresh_policy_cases) (simp_all add: find_append_key find_update_key t)
  have "find_where (\<lambda>t. t_id t = pol_tenant policy) (db_tenants db) \<noteq> None"
    using assms by (auto simp: put_refresh_policy_def Let_def split: if_splits)
  with f show "get_refresh_policy db pd' (pol_tenant policy) = Inr saved"
    by (auto simp: get_refresh_policy_def split: option.splits)
  assume n: "tenant \<noteq> pol_tenant policy"
  have "find_where (\<lambda>p. pol_tenant p = tenant) (pd_policies pd') = find_where (\<lambda>p. pol_tenant p = tenant) (pd_policies pd)"
    using assms n by (cases rule: put_refresh_policy_cases) (simp_all add: find_append_other find_update_other t)
  then show "get_refresh_policy db pd' tenant = get_refresh_policy db pd tenant"
    by (cases "find_where (\<lambda>t. t_id t = tenant) (db_tenants db)") (simp_all add: get_refresh_policy_def)
qed

lemma put_wf:
  assumes "put_refresh_policy db pd policy (pol_version policy) = Inr (pd', saved)" "valid_policy policy" "policies_wf pd"
  shows "policies_wf pd'"
  using assms(1)
proof (cases rule: put_refresh_policy_cases)
  case insert
  then have "pol_tenant policy \<notin> pol_tenant ` set (pd_policies pd)" by (auto simp: find_where_None)
  then show ?thesis using insert assms(2,3) by (auto simp: policies_wf_def valid_policy_def)
next
  case (update current)
  have "map pol_tenant (update_where (\<lambda>p. pol_tenant p = pol_tenant policy) (\<lambda>_. saved) (pd_policies pd)) = map pol_tenant (pd_policies pd)"
    by (rule map_update_where) (simp add: update(3))
  moreover have "pol_version current \<ge> 1" using find_where_Some[OF update(1)] assms(3) by (auto simp: policies_wf_def)
  ultimately show ?thesis using update assms(2,3) by (auto simp: policies_wf_def valid_policy_def set_update_where)
qed

text \<open>C25: A policy that Put accepts is read back by Get with the version after the one the caller had
  seen and leaves the other tenants' policies alone; a second Put with the same version is refused,
  so no update of a concurrent caller is lost.\<close>

theorem policy_put_get:
  assumes "policy_put ro db pd input = Inr (pd', saved, status)"
  shows "policy_get ro db pd' (pol_tenant input) = Inr (saved, status)
    \<and> saved = input\<lparr>pol_version := pol_version input + 1\<rparr>
    \<and> (\<forall>tenant. tenant \<noteq> pol_tenant input \<longrightarrow> policy_get ro db pd' tenant = policy_get ro db pd tenant)
    \<and> (\<forall>other. pol_tenant other = pol_tenant input \<and> pol_version other = pol_version input \<longrightarrow> isl (policy_put ro db pd' other))
    \<and> (policies_wf pd \<longrightarrow> policies_wf pd')"
proof -
  from assms have p: "put_refresh_policy db pd input (pol_version input) = Inr (pd', saved)"
    and v: "valid_policy input" and s: "status = rollout_status_for ro (pol_tenant saved)"
    by (auto simp: policy_put_def split: if_splits)
  have saved: "saved = input\<lparr>pol_version := pol_version input + 1\<rparr>"
    using p by (cases rule: put_refresh_policy_cases) simp_all
  have "isl (policy_put ro db pd' other)" if "pol_tenant other = pol_tenant input" "pol_version other = pol_version input" for other
  proof -
    have "put_refresh_policy db pd' other (pol_version other) = Inl PolicyTenantNotFound
        \<or> put_refresh_policy db pd' other (pol_version other) = Inl RefreshPolicyConflict"
      using put_get(3)[OF p] that by (auto simp: put_refresh_policy_def Let_def saved)
    then show ?thesis by (auto simp: policy_put_def)
  qed
  then show ?thesis using put_get(1,2)[OF p] put_wf[OF p v] saved s by (simp add: policy_get_def)
qed

lemma policy_put_get_witness:
  "\<exists>pd'. policy_put \<lparr>ro_snapshot_first = True, ro_tenants = [1], ro_revalidation = True\<rparr>
       \<lparr>db_runs = [], db_circuits = [], db_host_circuits = [], db_connections = [], db_definitions = [],
        db_tenants = [\<lparr>t_id = 1, t_slug = ''tenant'', t_name = ''Tenant'', t_timezone = ''Asia/Bangkok'', t_status = TenantActive, t_access_ends_at = 0, t_version = 1, t_created_at = 0, t_updated_at = 0, t_archived_at = None\<rparr>], db_runtime = [], db_permissions = [],
        db_memberships = [], db_recipients = [], db_schedules = [], db_notifications = [], db_notification_links = [],
        db_generations = [], db_generation_links = [], db_heads = [], db_refreshes = [], db_refresh_links = [],
        db_chunks = [], db_result_rows = [], db_invitations = [],
     db_deliveries = [], db_outbox = [], db_access_links = [], db_quota = [], db_idempotency = []\<rparr>
       \<lparr>pd_policies = [], pd_audit = []\<rparr> (default_refresh_policy 1)
     = Inr (pd', (default_refresh_policy 1)\<lparr>pol_version := 1\<rparr>, RolloutActive) \<and> policies_wf pd'"
  (is "\<exists>pd'. policy_put ?ro ?db ?pd ?input = _ \<and> _")
proof -
  obtain pd' saved where p: "policy_put ?ro ?db ?pd ?input = Inr (pd', saved, RolloutActive)"
    by (simp add: policy_put_def put_refresh_policy_def Let_def default_refresh_policy_def valid_policy_def
        valid_refresh_minutes_def rollout_status_for_def)
  have "policies_wf ?pd" by (simp add: policies_wf_def)
  with policy_put_get[OF p] p show ?thesis by (auto simp: default_refresh_policy_def)
qed

end
