(* ===== verification/Snapshots.thy ===== *)
theory Snapshots
  imports RefreshPolicy Generations
begin

text \<open>
  Dashboard snapshots (database/snapshot_store.go, database/report_store.go): the dashboards of
  succeeded runs read back with a freshness that depends on the refresh policy and on whether the
  period has ended, the revalidation of a snapshot by a background run, and the result of a refresh.
  A stored dashboard is the value it was encoded from, so decoding it cannot fail; the empty JSON
  object of the column's default is None.
\<close>

section \<open>Snapshots\<close>

datatype freshness = FreshnessUnset | FreshnessFresh | FreshnessStale | FreshnessExpired
  | FreshnessMissing | FreshnessRefreshing | FreshnessFailed

record snapshot =
  ss_run :: uuid
  ss_dashboard :: dashboard
  ss_from :: string
  ss_to :: string
  ss_source_started_at :: "instant option"
  ss_source_finished_at :: "instant option"
  ss_fresh_until :: "instant option"
  ss_stale_until :: "instant option"
  ss_freshness :: freshness
  ss_definition_version :: string
  ss_data_version :: int
  ss_fingerprint :: string
  ss_consistency :: source_consistency
  ss_details_available :: bool
  ss_details_expires_at :: "instant option"

definition background_schedule_guard :: duration where "background_schedule_guard = 5 * minute"
definition current_snapshot_hard_stale :: duration where "current_snapshot_hard_stale = 24 * hour"
definition historical_snapshot_ttl :: duration where "historical_snapshot_ttl = 24 * hour"
definition historical_snapshot_retention :: duration where "historical_snapshot_retention = 90 * 24 * hour"

definition closed_period :: "period \<Rightarrow> instant \<Rightarrow> bool" where
  "closed_period p now \<longleftrightarrow> date_to p < format_date (local_day bangkok now)"

definition fresh_for :: "refresh_policy \<Rightarrow> report_definition \<Rightarrow> bool \<Rightarrow> duration" where
  "fresh_for policy d ended = (if ended then historical_snapshot_ttl else fst (interval_for policy d))"

definition stale_for :: "bool \<Rightarrow> duration" where
  "stale_for ended = (if ended then historical_snapshot_retention else current_snapshot_hard_stale)"

definition finalize_snapshot :: "snapshot \<Rightarrow> result_kind \<Rightarrow> instant \<Rightarrow> report_definition \<Rightarrow> period \<Rightarrow> refresh_policy
    \<Rightarrow> instant \<Rightarrow> run_error + snapshot" where
  "finalize_snapshot s kind expires d p policy now = (case ss_source_finished_at s of
     None \<Rightarrow> Inl ErrRunNotFound
   | Some finished \<Rightarrow> (let ended = closed_period p now;
         fresh_until = finished + fresh_for policy d ended;
         stale_until = finished + stale_for ended
       in Inr (s\<lparr>ss_fresh_until := Some fresh_until, ss_stale_until := Some stale_until,
            ss_details_available := (kind = ResultDetail \<and> expires > now),
            ss_details_expires_at := (if kind = ResultDetail then Some expires else ss_details_expires_at s),
            ss_freshness := (if now < fresh_until then FreshnessFresh
               else if now < stale_until then FreshnessStale else FreshnessExpired)\<rparr>)))"

definition or_else :: "'a option \<Rightarrow> 'a option \<Rightarrow> 'a option" where
  "or_else x y = (case x of None \<Rightarrow> y | Some _ \<Rightarrow> x)"

text \<open>The columns of a run as a snapshot, before it is finalized.\<close>

definition snapshot_of :: "run_row \<Rightarrow> dashboard \<Rightarrow> instant option \<Rightarrow> snapshot" where
  "snapshot_of r dash started = \<lparr>ss_run = r_id r, ss_dashboard = dash, ss_from = date_from (r_period r),
     ss_to = date_to (r_period r), ss_source_started_at = started,
     ss_source_finished_at = or_else (r_source_finished_at r) (r_finished_at r),
     ss_fresh_until = None, ss_stale_until = None, ss_freshness = FreshnessUnset,
     ss_definition_version = r_definition_version r, ss_data_version = r_data_version r,
     ss_fingerprint = r_fingerprint r, ss_consistency = r_consistency r,
     ss_details_available = False, ss_details_expires_at = None\<rparr>"

definition run_started :: "run_row \<Rightarrow> instant option" where
  "run_started r = or_else (r_source_started_at r) (r_started_at r)"

section \<open>Looking up\<close>

text \<open>The joins with the definitions and the connection: the run is of their current versions.\<close>

definition current_versions :: "db \<Rightarrow> run_row \<Rightarrow> bool" where
  "current_versions db r \<longleftrightarrow> list_ex (\<lambda>d. d_key d = r_key r \<and> d_version d = r_definition_version r) (db_definitions db)
     \<and> list_ex (\<lambda>k. k_tenant k = r_tenant r \<and> k_version k = r_data_version r) (db_connections db)"

definition usable_run :: "store_config \<Rightarrow> db \<Rightarrow> uuid \<Rightarrow> key \<Rightarrow> run_row \<Rightarrow> bool" where
  "usable_run cfg db tenant k r \<longleftrightarrow> r_tenant r = tenant \<and> r_key r = k \<and> r_fingerprint r = cfg_fingerprint cfg k ResultSummary
     \<and> current_versions db r \<and> r_status r = StatusSucceeded \<and> r_dashboard r \<noteq> None"

definition covers :: "period \<Rightarrow> run_row \<Rightarrow> bool" where
  "covers p r \<longleftrightarrow> date_from (r_period r) = date_from p \<and> date_to (r_period r) = date_to p"

text \<open>ORDER BY finished_at DESC NULLS LAST, id DESC.\<close>

definition finished_later :: "run_row \<Rightarrow> run_row \<Rightarrow> bool" where
  "finished_later a b \<longleftrightarrow> instant_before (r_finished_at b) (r_finished_at a)
     \<or> r_finished_at a = r_finished_at b \<and> r_id a > r_id b"

definition exact_run :: "store_config \<Rightarrow> db \<Rightarrow> uuid \<Rightarrow> key \<Rightarrow> period \<Rightarrow> run_row option" where
  "exact_run cfg db tenant k p = select_first finished_later (\<lambda>r. usable_run cfg db tenant k r \<and> covers p r) (db_runs db)"

definition exact_snapshot :: "store_config \<Rightarrow> db \<Rightarrow> uuid \<Rightarrow> key \<Rightarrow> period \<Rightarrow> refresh_policy \<Rightarrow> instant \<Rightarrow> run_error + snapshot" where
  "exact_snapshot cfg db tenant k p policy now = (case definition_for k of
     None \<Rightarrow> Inl ErrRunNotFound
   | Some d \<Rightarrow> (case exact_run cfg db tenant k p of
       None \<Rightarrow> Inl ErrRunNotFound
     | Some r \<Rightarrow> (case r_dashboard r of
         None \<Rightarrow> Inl ErrRunNotFound
       | Some dash \<Rightarrow> finalize_snapshot (snapshot_of r dash (run_started r)) (r_kind r) (r_expires_at r) d p policy now)))"

datatype snapshot_error = SnapshotRun run_error | SnapshotPolicy policy_error | SnapshotBroken string

fun run_error_of :: "run_error + 'a \<Rightarrow> snapshot_error + 'a" where
  "run_error_of (Inl e) = Inl (SnapshotRun e)"
| "run_error_of (Inr x) = Inr x"

fun policy_error_of :: "policy_error + 'a \<Rightarrow> snapshot_error + 'a" where
  "policy_error_of (Inl e) = Inl (SnapshotPolicy e)"
| "policy_error_of (Inr x) = Inr x"

text \<open>The batch: later requests of the same report replace the period of earlier ones (a Go map).\<close>

fun exact_batch :: "store_config \<Rightarrow> db \<Rightarrow> uuid \<Rightarrow> (key \<rightharpoonup> period) \<Rightarrow> refresh_policy \<Rightarrow> instant \<Rightarrow> (key \<times> period) list
    \<Rightarrow> (key \<rightharpoonup> snapshot) \<Rightarrow> (key \<rightharpoonup> snapshot)" where
  "exact_batch cfg db tenant periods policy now [] result = result"
| "exact_batch cfg db tenant periods policy now ((k, p) # rest) result =
     exact_batch cfg db tenant periods policy now rest
       (case (definition_for k, exact_run cfg db tenant k p, periods k) of
          (Some d, Some r, Some wanted) \<Rightarrow> (case r_dashboard r of
             None \<Rightarrow> result
           | Some dash \<Rightarrow> (case finalize_snapshot (snapshot_of r dash (run_started r)) (r_kind r) (r_expires_at r) d wanted policy now of
               Inl _ \<Rightarrow> result | Inr s \<Rightarrow> result(k \<mapsto> s)))
        | _ \<Rightarrow> result)"

definition exact_snapshots :: "store_config \<Rightarrow> db \<Rightarrow> policy_db \<Rightarrow> uuid \<Rightarrow> (key \<times> period) list \<Rightarrow> instant
    \<Rightarrow> snapshot_error + (key \<rightharpoonup> snapshot)" where
  "exact_snapshots cfg db pd tenant requests now = (
     if requests = [] then Inr Map.empty
     else bindr (policy_error_of (get_refresh_policy db pd tenant)) (\<lambda>policy.
       if \<exists>k \<in> set (map fst requests). definition_for k = None then Inl (SnapshotRun ErrRunNotFound)
       else Inr (exact_batch cfg db tenant (map_of (rev requests)) policy now requests Map.empty)))"

definition exact_snapshot_for_period :: "store_config \<Rightarrow> db \<Rightarrow> policy_db \<Rightarrow> uuid \<Rightarrow> key \<Rightarrow> period \<Rightarrow> instant \<Rightarrow> snapshot_error + snapshot" where
  "exact_snapshot_for_period cfg db pd tenant k p now = bindr (exact_snapshots cfg db pd tenant [(k, p)] now) (\<lambda>found.
     case found k of None \<Rightarrow> Inl (SnapshotRun ErrRunNotFound) | Some s \<Rightarrow> Inr s)"

definition get_dashboard :: "db \<Rightarrow> uuid \<Rightarrow> uuid \<Rightarrow> run_error + dashboard" where
  "get_dashboard db tenant run = (case find_where (\<lambda>r. r_id r = run \<and> r_tenant r = tenant \<and> r_status r = StatusSucceeded
       \<and> r_dashboard r \<noteq> None) (db_runs db) of
     None \<Rightarrow> Inl ErrRunNotFound
   | Some r \<Rightarrow> (case r_dashboard r of None \<Rightarrow> Inl ErrRunNotFound | Some dash \<Rightarrow> Inr dash))"

text \<open>The latest snapshot of each report, whatever its period; one that cannot be finalized is left out.\<close>

fun latest_items :: "store_config \<Rightarrow> db \<Rightarrow> uuid \<Rightarrow> refresh_policy \<Rightarrow> instant \<Rightarrow> key list \<Rightarrow> snapshot_error + snapshot list" where
  "latest_items cfg db tenant policy now [] = Inr []"
| "latest_items cfg db tenant policy now (k # rest) =
     (case (definition_for k, select_first finished_later (usable_run cfg db tenant k) (db_runs db)) of
        (Some d, Some r) \<Rightarrow> (case r_dashboard r of
            None \<Rightarrow> latest_items cfg db tenant policy now rest
          | Some dash \<Rightarrow> if dash_report_key dash \<noteq> k then Inl (SnapshotBroken ''stored dashboard report key does not match run'')
              else (case finalize_snapshot (snapshot_of r dash (run_started r)) (r_kind r) (r_expires_at r) d
                  \<lparr>preset = preset (dash_period dash), date_from = date_from (r_period r), date_to = date_to (r_period r)\<rparr> policy now of
                Inl _ \<Rightarrow> latest_items cfg db tenant policy now rest
              | Inr s \<Rightarrow> bindr (latest_items cfg db tenant policy now rest) (\<lambda>items. Inr (s # items))))
      | _ \<Rightarrow> latest_items cfg db tenant policy now rest)"

definition list_latest_dashboards :: "store_config \<Rightarrow> db \<Rightarrow> policy_db \<Rightarrow> uuid \<Rightarrow> key list \<Rightarrow> instant \<Rightarrow> snapshot_error + snapshot list" where
  "list_latest_dashboards cfg db pd tenant ks now = (
     if ks = [] \<or> length ks > length keys then Inr []
     else if \<exists>k \<in> set ks. definition_for k = None then Inl (SnapshotRun ErrRunForbidden)
     else bindr (policy_error_of (get_refresh_policy db pd tenant)) (\<lambda>policy. latest_items cfg db tenant policy now ks))"


section \<open>Revalidating a snapshot\<close>

datatype disposition = RevalidationFreshCache | RevalidationStaleRefreshing | RevalidationMissingRefreshing
  | RevalidationJoined | RevalidationDisabled | RevalidationCircuitOpen

record revalidation =
  vd_disposition :: disposition
  vd_snapshot :: "snapshot option"
  vd_run :: "run_row option"
  vd_retry_after :: int

definition optional_snapshot :: "run_error + snapshot \<Rightarrow> snapshot option" where
  "optional_snapshot x = (case x of Inl _ \<Rightarrow> None | Inr s \<Rightarrow> if ss_run s = nil_uuid then None else Some s)"

definition is_fresh :: "run_error + snapshot \<Rightarrow> bool" where
  "is_fresh x \<longleftrightarrow> (case x of Inl _ \<Rightarrow> False | Inr s \<Rightarrow> ss_freshness s = FreshnessFresh)"

definition background_priority :: "refresh_class \<Rightarrow> int" where
  "background_priority c = (case c of RefreshFast \<Rightarrow> 30 | RefreshStandard \<Rightarrow> 25 | _ \<Rightarrow> 20)"

definition schedule_soon :: "db \<Rightarrow> uuid \<Rightarrow> instant \<Rightarrow> bool" where
  "schedule_soon db tenant now = list_ex (\<lambda>s. s_tenant s = tenant \<and> s_status s = ScheduleActive
     \<and> opt_rel (\<lambda>t. now \<le> t \<and> t \<le> now + background_schedule_guard) (s_next_run_at s)) (db_schedules db)"

definition circuit_until :: "db \<Rightarrow> uuid \<Rightarrow> instant option" where
  "circuit_until db tenant = (case find_where (\<lambda>c. c_tenant c = tenant) (db_circuits db) of
     None \<Rightarrow> None | Some c \<Rightarrow> c_open_until c)"

text \<open>The request of the background run: one idempotency key in each interval of the policy.\<close>

definition background_input :: "codec \<Rightarrow> store_config \<Rightarrow> uuid \<Rightarrow> key \<Rightarrow> period \<Rightarrow> report_definition \<Rightarrow> int \<Rightarrow> duration \<Rightarrow> instant \<Rightarrow> enqueue_input" where
  "background_input cd cfg tenant k p d version interval now = (
     let execution_key = snapshot_execution_key cd tenant k p (def_parameter_kind d) (def_version d) version (cfg_fingerprint cfg k ResultSummary);
         bucket = (now div second) div max 1 (interval div second)
     in \<lparr>in_tenant = tenant, in_key = k, in_source = SourceBackground,
         in_idempotency = ''background-'' @ take 24 execution_key @ ''-'' @ int_str bucket, in_period = p,
         in_recipient = None, in_kind = ResultSummary, in_priority = background_priority (def_refresh_class d),
         in_execution_key = execution_key\<rparr>)"

definition joined_revalidation :: "run_error + snapshot \<Rightarrow> run_row \<Rightarrow> revalidation" where
  "joined_revalidation found run = (let active = is_unfinished run in
     \<lparr>vd_disposition = (case found of
          Inr _ \<Rightarrow> if active then RevalidationStaleRefreshing else RevalidationJoined
        | Inl _ \<Rightarrow> if active then RevalidationMissingRefreshing else RevalidationJoined),
      vd_snapshot = map_option (\<lambda>s. s\<lparr>ss_freshness := (if active then FreshnessRefreshing else FreshnessFailed)\<rparr>)
        (optional_snapshot found),
      vd_run = Some run, vd_retry_after = 0\<rparr>)"

definition revalidate_snapshot :: "codec \<Rightarrow> store_config \<Rightarrow> db \<Rightarrow> policy_db \<Rightarrow> uuid \<Rightarrow> key \<Rightarrow> period \<Rightarrow> uuid \<Rightarrow> instant
    \<Rightarrow> snapshot_error + (db \<times> revalidation)" where
  "revalidate_snapshot cd cfg db pd tenant k p new_id now = (case definition_for k of
     None \<Rightarrow> Inl (SnapshotRun ErrRunNotFound)
   | Some d \<Rightarrow> bindr (policy_error_of (get_refresh_policy db pd tenant)) (\<lambda>policy.
       case find_where (\<lambda>c. k_tenant c = tenant) (db_connections db) of
         None \<Rightarrow> Inl (SnapshotRun ErrRunNotFound)
       | Some conn \<Rightarrow> (let (interval, enabled) = interval_for policy d;
             found = exact_snapshot cfg db tenant k p policy now;
             cached = (\<lambda>disp retry. Inr (db, \<lparr>vd_disposition = disp, vd_snapshot = optional_snapshot found,
               vd_run = None, vd_retry_after = retry\<rparr>))
           in if is_fresh found then Inr (db, \<lparr>vd_disposition = RevalidationFreshCache,
                vd_snapshot = (case found of Inl _ \<Rightarrow> None | Inr s \<Rightarrow> Some s), vd_run = None, vd_retry_after = 0\<rparr>)
              else if \<not> enabled then cached RevalidationDisabled 0
              else if schedule_soon db tenant now then cached RevalidationDisabled (background_schedule_guard div second)
              else if opt_rel (\<lambda>u. u > now) (circuit_until db tenant)
                then cached RevalidationCircuitOpen (max 1 ((coalesce (circuit_until db tenant) now - now) div second))
              else bindr (run_error_of (enqueue db cfg (background_input cd cfg tenant k p d (k_version conn) interval now) new_id now))
                (\<lambda>(db', run). Inr (db', joined_revalidation found run)))))"

section \<open>The result of a refresh\<close>

record refresh_failure =
  rf_key :: key
  rf_status :: run_status
  rf_code :: string

record refresh_result =
  rs_refresh :: uuid
  rs_tenant :: uuid
  rs_generation :: "uuid option"
  rs_generation_key :: string
  rs_consistency :: source_consistency
  rs_source_started_at :: "instant option"
  rs_source_finished_at :: "instant option"
  rs_published_at :: "instant option"
  rs_status :: refresh_status
  rs_items :: "snapshot list"
  rs_failures :: "refresh_failure list"

definition result_period :: "run_row \<Rightarrow> dashboard \<Rightarrow> period" where
  "result_period r dash = \<lparr>preset = preset (dash_period dash), date_from = date_from (r_period r), date_to = date_to (r_period r)\<rparr>"

definition result_item :: "refresh_policy \<Rightarrow> instant \<Rightarrow> key \<Rightarrow> run_row \<Rightarrow> string + snapshot" where
  "result_item policy now k r = (case (r_dashboard r, definition_for k) of
     (Some dash, Some d) \<Rightarrow> if dash_report_key dash \<noteq> k \<or> dash_version dash = '''' then Inl ''decode dashboard refresh result''
       else (case finalize_snapshot (snapshot_of r dash (Some (coalesce (run_started r) (r_queued_at r)))) (r_kind r) (r_expires_at r) d
           (result_period r dash) policy now of
         Inl _ \<Rightarrow> Inl ''finalize dashboard refresh snapshot'' | Inr s \<Rightarrow> Inr s)
   | _ \<Rightarrow> Inl ''decode dashboard refresh result'')"

fun result_items :: "refresh_policy \<Rightarrow> instant \<Rightarrow> (key \<times> run_row) list \<Rightarrow> string + snapshot list" where
  "result_items policy now [] = Inr []"
| "result_items policy now ((k, r) # rest) =
     (if r_status r = StatusSucceeded
      then bindr (result_item policy now k r) (\<lambda>s. bindr (result_items policy now rest) (\<lambda>items. Inr (s # items)))
      else result_items policy now rest)"

definition result_failures :: "(key \<times> run_row) list \<Rightarrow> refresh_failure list" where
  "result_failures runs = map (\<lambda>(k, r). \<lparr>rf_key = k, rf_status = r_status r, rf_code = coalesce (r_error_code r) ''''\<rparr>)
     (filter (\<lambda>(k, r). is_failed r) runs)"

datatype result_error = ResultRun run_error | ResultPolicy policy_error | ResultNotReady | ResultBroken string

definition get_refresh_result :: "db \<Rightarrow> policy_db \<Rightarrow> uuid \<Rightarrow> uuid \<Rightarrow> uuid \<Rightarrow> instant \<Rightarrow> result_error + refresh_result" where
  "get_refresh_result db pd recipient tenant refresh now = (case get_refresh_policy db pd tenant of
     Inl e \<Rightarrow> Inl (ResultPolicy e)
   | Inr policy \<Rightarrow> (case find_refresh db recipient tenant refresh of
       None \<Rightarrow> Inl (ResultRun ErrRunNotFound)
     | Some f \<Rightarrow> (let gen = (case f_generation f of None \<Rightarrow> None | Some g \<Rightarrow> find_where (\<lambda>x. g_id x = g) (db_generations db));
           failed = opt_rel (\<lambda>g. g_status g = GenerationFailed) gen;
           runs = refresh_runs db refresh
         in if opt_rel (\<lambda>g. g_status g = GenerationBuilding) gen then Inl ResultNotReady
         else (case result_items policy now runs of
             Inl e \<Rightarrow> Inl (ResultBroken e)
           | Inr items \<Rightarrow> if refresh = nil_uuid then Inl (ResultRun ErrRunNotFound)
               else if \<not> failed \<and> list_ex (\<lambda>(k, r). is_unfinished r) runs then Inl ResultNotReady
               else (let failures = result_failures runs in Inr \<lparr>rs_refresh = refresh, rs_tenant = tenant, rs_generation = f_generation f,
                   rs_generation_key = (case gen of None \<Rightarrow> '''' | Some g \<Rightarrow> g_key g),
                   rs_consistency = (case gen of None \<Rightarrow> ConsistencyUnset | Some g \<Rightarrow> g_consistency g),
                   rs_source_started_at = (case gen of None \<Rightarrow> None | Some g \<Rightarrow> g_source_started_at g),
                   rs_source_finished_at = (case gen of None \<Rightarrow> None | Some g \<Rightarrow> g_source_finished_at g),
                   rs_published_at = (case gen of None \<Rightarrow> None | Some g \<Rightarrow> g_published_at g),
                   rs_status = (if failed then RefreshFailed else if items \<noteq> [] \<and> failures = [] then RefreshSucceeded
                     else if items \<noteq> [] then RefreshPartial else RefreshFailed),
                   rs_items = (if failed then [] else items), rs_failures = failures\<rparr>)))))"

section \<open>Published overviews\<close>

record overview =
  ov_tenant :: uuid
  ov_generation :: uuid
  ov_key :: string
  ov_period :: period
  ov_data_status :: freshness
  ov_consistency :: source_consistency
  ov_source_started_at :: "instant option"
  ov_source_finished_at :: "instant option"
  ov_published_at :: "instant option"
  ov_items :: "snapshot list"

definition published_runs :: "db \<Rightarrow> uuid \<Rightarrow> generation_row \<Rightarrow> run_row list" where
  "published_runs db tenant g = concat (map (\<lambda>l. filter (\<lambda>r. r_id r = gl_run l \<and> r_tenant r = gl_tenant l \<and> current_versions db r
       \<and> r_status r = StatusSucceeded \<and> r_kind r = ResultSummary) (db_runs db))
     (sort_by (\<lambda>a b. gl_position a < gl_position b)
       (filter (\<lambda>l. gl_generation l = g_id g \<and> gl_tenant l = tenant) (db_generation_links db))))"

definition published_item :: "store_config \<Rightarrow> refresh_policy \<Rightarrow> instant \<Rightarrow> run_row \<Rightarrow> snapshot option" where
  "published_item cfg policy now r = (case (r_dashboard r, definition_for (r_key r)) of
     (Some dash, Some d) \<Rightarrow> if r_fingerprint r \<noteq> cfg_fingerprint cfg (r_key r) ResultSummary \<or> dash_report_key dash \<noteq> r_key r then None
       else (case finalize_snapshot (snapshot_of r dash (Some (coalesce (run_started r) (r_queued_at r)))) (r_kind r) (r_expires_at r) d
           (result_period r dash) policy now of Inl _ \<Rightarrow> None | Inr s \<Rightarrow> Some s)
   | _ \<Rightarrow> None)"

fun published_items :: "store_config \<Rightarrow> refresh_policy \<Rightarrow> instant \<Rightarrow> run_row list \<Rightarrow> snapshot list option" where
  "published_items cfg policy now [] = Some []"
| "published_items cfg policy now (r # rs) = (case published_item cfg policy now r of
     None \<Rightarrow> None | Some s \<Rightarrow> map_option (Cons s) (published_items cfg policy now rs))"

definition worst_freshness :: "freshness \<Rightarrow> freshness \<Rightarrow> freshness" where
  "worst_freshness acc s = (if s = FreshnessExpired then FreshnessExpired
     else if s = FreshnessStale \<and> acc = FreshnessFresh then FreshnessStale else acc)"

definition load_published :: "store_config \<Rightarrow> db \<Rightarrow> policy_db \<Rightarrow> uuid \<Rightarrow> generation_row \<Rightarrow> instant \<Rightarrow> snapshot_error + overview" where
  "load_published cfg db pd tenant g now = bindr (policy_error_of (get_refresh_policy db pd tenant)) (\<lambda>policy.
     case published_items cfg policy now (published_runs db tenant g) of
       None \<Rightarrow> Inl (SnapshotRun ErrRunNotFound)
     | Some items \<Rightarrow> if int (length items) \<noteq> g_total g then Inl (SnapshotRun ErrRunNotFound)
         else (let status = foldl worst_freshness FreshnessFresh (map ss_freshness items)
           in Inr \<lparr>ov_tenant = tenant, ov_generation = g_id g, ov_key = g_key g,
               ov_period = \<lparr>preset = g_preset g, date_from = g_from g, date_to = g_to g\<rparr>, ov_data_status = status,
               ov_consistency = g_consistency g, ov_source_started_at = g_source_started_at g,
               ov_source_finished_at = g_source_finished_at g, ov_published_at = g_published_at g,
               ov_items = (if status = FreshnessExpired then [] else items)\<rparr>))"

definition overview_input :: "uuid \<Rightarrow> key \<times> period \<Rightarrow> enqueue_input" where
  "overview_input tenant = (\<lambda>(k, p). \<lparr>in_tenant = tenant, in_key = k, in_source = OtherSource '''', in_idempotency = '''',
     in_period = p, in_recipient = None, in_kind = ResultSummary, in_priority = 0, in_execution_key = ''''\<rparr>)"

definition published_overview :: "codec \<Rightarrow> store_config \<Rightarrow> db \<Rightarrow> policy_db \<Rightarrow> uuid \<Rightarrow> (key \<times> period) list \<Rightarrow> instant
    \<Rightarrow> snapshot_error + overview" where
  "published_overview cd cfg db pd tenant requests now = (
     if \<not> cfg_generation_cache cfg \<or> requests = [] then Inl (SnapshotRun ErrRunNotFound)
     else (let version = source_version db tenant in
       case describe_generation cd cfg tenant (map (overview_input tenant) requests) version of
         Inl e \<Rightarrow> Inl (SnapshotBroken e)
       | Inr d \<Rightarrow> (case find_where (\<lambda>g. g_status g = GenerationPublished \<and> g_data_version g = version
             \<and> list_ex (\<lambda>h. hd_tenant h = tenant \<and> hd_key h = gd_key d \<and> hd_generation h = g_id g) (db_heads db)) (db_generations db) of
           None \<Rightarrow> Inl (SnapshotRun ErrRunNotFound)
         | Some g \<Rightarrow> load_published cfg db pd tenant g now)))"

text \<open>ORDER BY published_at DESC, id DESC: NULL comes first.\<close>

definition published_later :: "generation_row \<Rightarrow> generation_row \<Rightarrow> bool" where
  "published_later a b \<longleftrightarrow> (case (g_published_at a, g_published_at b) of
       (None, Some _) \<Rightarrow> True | (Some x, Some y) \<Rightarrow> x > y | _ \<Rightarrow> False)
     \<or> g_published_at a = g_published_at b \<and> g_id a > g_id b"

definition latest_overview :: "store_config \<Rightarrow> db \<Rightarrow> policy_db \<Rightarrow> uuid \<Rightarrow> key list \<Rightarrow> instant \<Rightarrow> snapshot_error + overview" where
  "latest_overview cfg db pd tenant ks now = (
     if \<not> cfg_generation_cache cfg \<or> ks = [] \<or> (\<exists>k \<in> set ks. definition_for k = None) then Inl (SnapshotRun ErrRunNotFound)
     else (case select_first published_later (\<lambda>g. g_status g = GenerationPublished \<and> g_total g = int (length ks)
           \<and> list_ex (\<lambda>h. hd_tenant h = tenant \<and> hd_generation h = g_id g) (db_heads db)
           \<and> list_ex (\<lambda>c. k_tenant c = g_tenant g \<and> k_version c = g_data_version g) (db_connections db)
           \<and> sort (map (key_string \<circ> gl_key) (filter (\<lambda>l. gl_generation l = g_id g) (db_generation_links db)))
             = sort (map key_string ks)) (db_generations db) of
         None \<Rightarrow> Inl (SnapshotRun ErrRunNotFound)
       | Some g \<Rightarrow> load_published cfg db pd tenant g now))"

end
