(* ===== verification/SnapshotProps.thy ===== *)
theory SnapshotProps
  imports Snapshots Publication
begin

text \<open>
  What the snapshots promise: how their freshness changes with time, that the newest usable run is
  found, when a revalidation starts a run, and that an overview shows a whole generation.
\<close>

section \<open>Freshness\<close>

definition freshness_rank :: "freshness \<Rightarrow> nat" where
  "freshness_rank f = (case f of FreshnessFresh \<Rightarrow> 0 | FreshnessStale \<Rightarrow> 1 | _ \<Rightarrow> 2)"

lemma finalize_Inr:
  "finalize_snapshot s kind expires d p policy now = Inr x \<longleftrightarrow>
   (\<exists>finished. ss_source_finished_at s = Some finished \<and>
     x = s\<lparr>ss_fresh_until := Some (finished + fresh_for policy d (closed_period p now)),
       ss_stale_until := Some (finished + stale_for (closed_period p now)),
       ss_details_available := (kind = ResultDetail \<and> expires > now),
       ss_details_expires_at := (if kind = ResultDetail then Some expires else ss_details_expires_at s),
       ss_freshness := (if now < finished + fresh_for policy d (closed_period p now) then FreshnessFresh
          else if now < finished + stale_for (closed_period p now) then FreshnessStale else FreshnessExpired)\<rparr>)"
  by (auto simp: finalize_snapshot_def Let_def split: option.splits)

lemma finalize_freshness:
  assumes "finalize_snapshot s kind expires d p policy now = Inr x" "ss_source_finished_at s = Some finished"
  shows "ss_freshness x = (if now < finished + fresh_for policy d (closed_period p now) then FreshnessFresh
    else if now < finished + stale_for (closed_period p now) then FreshnessStale else FreshnessExpired)"
  using assms by (auto simp: finalize_Inr)

lemma finalize_keeps:
  assumes "finalize_snapshot s kind expires d p policy now = Inr x"
  shows "ss_run x = ss_run s" "ss_dashboard x = ss_dashboard s" "ss_source_finished_at x = ss_source_finished_at s"
    "ss_from x = ss_from s" "ss_to x = ss_to s" "ss_fingerprint x = ss_fingerprint s"
    "ss_freshness x \<in> {FreshnessFresh, FreshnessStale, FreshnessExpired}"
  using assms unfolding finalize_Inr by (elim exE conjE; simp)+

lemma finalize_total: "ss_source_finished_at s \<noteq> None \<Longrightarrow> \<exists>x. finalize_snapshot s kind expires d p policy now = Inr x"
  by (auto simp: finalize_Inr)

text \<open>While its period stays open, or stays closed, a snapshot only gets staler, and it has expired
  a day after its source was read, or ninety days after that when the period is closed.\<close>

theorem freshness_decays:
  assumes "finalize_snapshot s kind expires d p policy now = Inr x" "finalize_snapshot s kind expires d p policy now' = Inr x'"
    "now \<le> now'" "closed_period p now = closed_period p now'"
  shows "freshness_rank (ss_freshness x) \<le> freshness_rank (ss_freshness x')
    \<and> (\<forall>finished. ss_source_finished_at s = Some finished \<and> fresh_for policy d (closed_period p now) \<le> stale_for (closed_period p now)
        \<longrightarrow> (ss_freshness x = FreshnessExpired \<longleftrightarrow> now \<ge> finished + stale_for (closed_period p now)))"
proof -
  obtain finished where f: "ss_source_finished_at s = Some finished" using assms(1) by (auto simp: finalize_Inr)
  note x = finalize_freshness[OF assms(1) f] and x' = finalize_freshness[OF assms(2) f, folded assms(4)]
  have "freshness_rank (ss_freshness x) \<le> freshness_rank (ss_freshness x')"
    unfolding x x' using assms(3) by (simp add: freshness_rank_def)
  moreover have "ss_freshness x = FreshnessExpired \<longleftrightarrow> now \<ge> finished + stale_for (closed_period p now)"
    if "fresh_for policy d (closed_period p now) \<le> stale_for (closed_period p now)"
    unfolding x using that by auto
  ultimately show ?thesis using f by auto
qed

text \<open>C26: A stale snapshot of today becomes fresh again at midnight: the period is then closed, and a
  snapshot of a closed period counts as fresh for a day after its source was read, although this one
  was read before the day was over.\<close>

theorem stale_snapshot_fresh_after_midnight:
  assumes "finalize_snapshot s kind expires d p policy now = Inr x" "ss_freshness x = FreshnessStale"
    "date_to p = format_date (local_day bangkok now)" "date_to p < format_date (local_day bangkok now')"
    "ss_source_finished_at s = Some finished" "now' < finished + 24 * hour"
  shows "\<exists>x'. finalize_snapshot s kind expires d p policy now' = Inr x' \<and> ss_freshness x' = FreshnessFresh
    \<and> ss_dashboard x' = ss_dashboard x \<and> ss_source_finished_at x' = Some finished"
proof -
  obtain x' where x': "finalize_snapshot s kind expires d p policy now' = Inr x'"
    using finalize_total assms(5) by blast
  have "closed_period p now'" using assms(4) by (simp add: closed_period_def)
  then have "ss_freshness x' = FreshnessFresh"
    using assms(6) by (simp add: finalize_freshness[OF x' assms(5)] fresh_for_def historical_snapshot_ttl_def)
  with x' show ?thesis using finalize_keeps[OF x'] finalize_keeps[OF assms(1)] assms(5) by auto
qed

section \<open>The run behind a snapshot\<close>

lemma finished_later_order: "weak_order finished_later"
  unfolding weak_order_def finished_later_def by (intro conjI allI impI) (auto elim!: instant_before.elims)

text \<open>The snapshot of a period comes from a succeeded run of the tenant for that report and period,
  made by the current query plan, definition and data source, and no such run has finished later.\<close>

theorem exact_snapshot_newest:
  assumes "exact_snapshot cfg db tenant k p policy now = Inr s"
  shows "\<exists>r \<in> set (db_runs db). usable_run cfg db tenant k r \<and> covers p r \<and> ss_run s = r_id r \<and> Some (ss_dashboard s) = r_dashboard r
    \<and> ss_from s = date_from p \<and> ss_to s = date_to p
    \<and> (\<forall>other \<in> set (db_runs db). usable_run cfg db tenant k other \<and> covers p other \<longrightarrow> \<not> finished_later other r)"
proof -
  obtain d r dash where r: "exact_run cfg db tenant k p = Some r" "r_dashboard r = Some dash"
      "finalize_snapshot (snapshot_of r dash (run_started r)) (r_kind r) (r_expires_at r) d p policy now = Inr s"
    using assms by (auto simp: exact_snapshot_def split: option.splits)
  have in': "r \<in> set (db_runs db)" "usable_run cfg db tenant k r" "covers p r"
    using select_first_Some[OF r(1)[unfolded exact_run_def]] by simp_all
  have "\<not> finished_later other r" if "other \<in> set (db_runs db)" "usable_run cfg db tenant k other \<and> covers p other" for other
    by (rule select_first_least[OF finished_later_order r(1)[unfolded exact_run_def] that])
  moreover have "ss_run s = r_id r" "ss_dashboard s = dash" "ss_from s = date_from p" "ss_to s = date_to p"
    using finalize_keeps[OF r(3)] in'(3) by (simp_all add: snapshot_of_def covers_def)
  ultimately show ?thesis using in' r(2) by (intro bexI[of _ r]) simp_all
qed

section \<open>Revalidation\<close>

lemma policy_error_Inr [simp]: "policy_error_of x = Inr y \<longleftrightarrow> x = Inr y"
  by (cases x) simp_all

lemma run_error_Inr [simp]: "run_error_of x = Inr y \<longleftrightarrow> x = Inr y"
  by (cases x) simp_all

lemma revalidate_cases:
  assumes "revalidate_snapshot cd cfg db pd tenant k p new_id now = Inr (db', v)"
  obtains (cached) "db' = db" "vd_run v = None"
      "vd_disposition v \<in> {RevalidationFreshCache, RevalidationDisabled, RevalidationCircuitOpen}"
  | (joined) d policy run and conn :: connection_row where "definition_for k = Some d" "get_refresh_policy db pd tenant = Inr policy"
      "snd (interval_for policy d)" "\<not> is_fresh (exact_snapshot cfg db tenant k p policy now)"
      "\<not> schedule_soon db tenant now" "\<not> opt_rel (\<lambda>u. u > now) (circuit_until db tenant)"
      "enqueue db cfg (background_input cd cfg tenant k p d (k_version conn) (fst (interval_for policy d)) now) new_id now = Inr (db', run)"
      "v = joined_revalidation (exact_snapshot cfg db tenant k p policy now) run"
proof -
  obtain d where d: "definition_for k = Some d" using assms by (auto simp: revalidate_snapshot_def split: option.splits)
  obtain policy where policy: "get_refresh_policy db pd tenant = Inr policy"
    using assms d by (auto simp: revalidate_snapshot_def bindr_Inr_iff)
  obtain conn where conn: "find_where (\<lambda>c. k_tenant c = tenant) (db_connections db) = Some conn"
    using assms d policy by (auto simp: revalidate_snapshot_def split: option.splits)
  obtain interval enabled where i: "interval_for policy d = (interval, enabled)" by fastforce
  let ?found = "exact_snapshot cfg db tenant k p policy now"
  note e = assms[unfolded revalidate_snapshot_def d policy conn option.case policy_error_of.simps bindr.simps Let_def i prod.case]
  consider "is_fresh ?found" | "\<not> is_fresh ?found" "\<not> enabled \<or> schedule_soon db tenant now \<or> opt_rel (\<lambda>u. u > now) (circuit_until db tenant)"
    | "\<not> is_fresh ?found" "enabled" "\<not> schedule_soon db tenant now" "\<not> opt_rel (\<lambda>u. u > now) (circuit_until db tenant)" by blast
  then show ?thesis
  proof cases
    case 3
    with e obtain run where "enqueue db cfg (background_input cd cfg tenant k p d (k_version conn) interval now) new_id now = Inr (db', run)"
        "v = joined_revalidation ?found run" by (auto simp: bindr_Inr_iff)
    with 3 d policy i show ?thesis by (intro joined[of d policy conn run]) simp_all
  qed (use e cached in \<open>auto split: if_splits\<close>)
qed

text \<open>C27: A revalidation starts a run only when there is no fresh snapshot, the policy refreshes the
  report, no schedule is due and the circuit is closed; otherwise it changes nothing.  What it says of
  the snapshot agrees with the run it joined.\<close>

theorem revalidation_guarded:
  assumes "revalidate_snapshot cd cfg db pd tenant k p new_id now = Inr (db', v)"
  shows "(vd_run v = None \<longrightarrow> db' = db)
    \<and> (\<forall>run. vd_run v = Some run \<longrightarrow> \<not> schedule_soon db tenant now \<and> \<not> opt_rel (\<lambda>u. u > now) (circuit_until db tenant)
        \<and> (\<exists>policy d. get_refresh_policy db pd tenant = Inr policy \<and> definition_for k = Some d \<and> snd (interval_for policy d)
            \<and> \<not> is_fresh (exact_snapshot cfg db tenant k p policy now))
        \<and> (vd_disposition v \<in> {RevalidationStaleRefreshing, RevalidationMissingRefreshing} \<longleftrightarrow> is_unfinished run)
        \<and> (\<forall>s. vd_snapshot v = Some s \<longrightarrow> (ss_freshness s = FreshnessRefreshing \<longleftrightarrow> is_unfinished run)))"
  using assms
proof (cases rule: revalidate_cases)
  case cached then show ?thesis by simp
next
  case (joined d policy run conn)
  have "vd_run v = Some run" by (simp add: joined(8) joined_revalidation_def Let_def)
  moreover have "vd_disposition v \<in> {RevalidationStaleRefreshing, RevalidationMissingRefreshing} \<longleftrightarrow> is_unfinished run"
    by (simp add: joined(8) joined_revalidation_def Let_def split: sum.splits)
  moreover have "ss_freshness s = FreshnessRefreshing \<longleftrightarrow> is_unfinished run" if "vd_snapshot v = Some s" for s
    using that by (auto simp: joined(8) joined_revalidation_def Let_def split: if_splits)
  ultimately show ?thesis using joined(1-6) by auto
qed

section \<open>Overviews\<close>

lemma published_items_all:
  "published_items cfg policy now rs = Some items \<Longrightarrow> list_all2 (\<lambda>r s. published_item cfg policy now r = Some s) rs items"
  by (induction rs arbitrary: items) (auto split: option.splits)

lemma published_item_of:
  assumes "published_item cfg policy now r = Some s"
  shows "ss_run s = r_id r" "ss_freshness s \<in> {FreshnessFresh, FreshnessStale, FreshnessExpired}"
proof -
  obtain dash d where "finalize_snapshot (snapshot_of r dash (Some (coalesce (run_started r) (r_queued_at r)))) (r_kind r) (r_expires_at r) d
      (result_period r dash) policy now = Inr s"
    using assms by (auto simp: published_item_def split: option.splits if_splits sum.splits)
  from finalize_keeps[OF this] show "ss_run s = r_id r" "ss_freshness s \<in> {FreshnessFresh, FreshnessStale, FreshnessExpired}"
    by (simp_all add: snapshot_of_def)
qed

lemma worst_fresh:
  assumes "set xs \<subseteq> {FreshnessFresh, FreshnessStale, FreshnessExpired}"
  shows "foldl worst_freshness acc xs = FreshnessFresh \<longleftrightarrow> acc = FreshnessFresh \<and> (\<forall>x \<in> set xs. x = FreshnessFresh)"
  using assms by (induction xs arbitrary: acc) (auto simp: worst_freshness_def)

lemma concat_singletons:
  assumes "\<And>l. l \<in> set ls \<Longrightarrow> length (f l) \<le> 1" "length (concat (map f ls)) \<ge> length ls" "l \<in> set ls"
  shows "f l \<noteq> []"
  using assms
proof (induction ls)
  case (Cons a ls)
  have le: "length (concat (map f xs)) \<le> length xs" if "set xs \<subseteq> set (a # ls)" for xs
    using that
  proof (induction xs)
    case (Cons x xs)
    then show ?case using Cons.prems \<open>\<And>l. l \<in> set (a # ls) \<Longrightarrow> length (f l) \<le> 1\<close>[of x] by simp
  qed simp
  have "length (concat (map f ls)) \<le> length ls" by (rule le) auto
  moreover have "length (f a) \<le> 1" by (rule Cons.prems(1)) simp
  ultimately have "length (f a) = 1" "length (concat (map f ls)) \<ge> length ls" using Cons.prems(2) by simp_all
  with Cons show ?case by (cases "l = a") auto
qed simp

lemma concat_singletons_length:
  "(\<And>l. l \<in> set ls \<Longrightarrow> length (f l) \<le> 1) \<Longrightarrow> length (concat (map f ls)) \<le> length ls"
proof (induction ls)
  case (Cons a ls)
  have "length (f a) \<le> 1" by (rule Cons.prems) simp
  moreover have "length (concat (map f ls)) \<le> length ls" by (rule Cons.IH) (use Cons.prems in auto)
  ultimately show ?case by simp
qed simp

lemma published_runs_all:
  assumes "generation_inv db" "int (length (published_runs db tenant g)) = int (length (links_of db (g_id g)))"
  shows "r_id ` set (published_runs db tenant g) = r_id ` set (generation_runs db (g_id g))"
    and "\<And>r. r \<in> set (published_runs db tenant g) \<Longrightarrow> r_status r = StatusSucceeded \<and> current_versions db r"
proof -
  define ok where "ok = (\<lambda>(l :: generation_link) (r :: run_row). r_id r = gl_run l \<and> r_tenant r = gl_tenant l \<and> current_versions db r
      \<and> r_status r = StatusSucceeded \<and> r_kind r = ResultSummary)"
  define ls where "ls = sort_by (\<lambda>a b. gl_position a < gl_position b) (filter (\<lambda>l. gl_tenant l = tenant) (links_of db (g_id g)))"
  have p: "published_runs db tenant g = concat (map (\<lambda>l. filter (ok l) (db_runs db)) ls)"
    by (simp add: published_runs_def ok_def ls_def links_of_def conj_commute)
  have dist: "distinct (map r_id (db_runs db))" using assms(1) by (simp add: generation_inv_def)
  have one: "length (filter (ok l) (db_runs db)) \<le> 1" for l
  proof -
    have "count_where (ok l) (db_runs db) \<le> 1" by (rule count_where_key[OF dist]) (simp add: ok_def)
    then show ?thesis by (simp add: count_where_def)
  qed
  have n1: "length (published_runs db tenant g) \<le> length ls" unfolding p by (rule concat_singletons_length) (rule one)
  have "length ls \<le> length (links_of db (g_id g))" by (simp add: ls_def)
  with n1 assms(2) have n2: "length ls = length (links_of db (g_id g))" by simp
  then have "count_where (\<lambda>l. gl_tenant l = tenant) (links_of db (g_id g)) = length (links_of db (g_id g))"
    by (simp add: ls_def count_where_def)
  then have all: "\<forall>l \<in> set (links_of db (g_id g)). gl_tenant l = tenant" by (intro ballI) (rule count_where_all)
  have set_ls: "set ls = set (links_of db (g_id g))" unfolding ls_def set_sort_by using all by auto
  have hit: "filter (ok l) (db_runs db) \<noteq> []" if "l \<in> set (links_of db (g_id g))" for l
  proof (rule concat_singletons[where ls = ls and f = "\<lambda>l. filter (ok l) (db_runs db)"])
    show "length (filter (ok m) (db_runs db)) \<le> 1" if "m \<in> set ls" for m by (rule one)
    show "length ls \<le> length (concat (map (\<lambda>l. filter (ok l) (db_runs db)) ls))"
      using assms(2) unfolding p of_nat_eq_iff by (simp only: n2)
    show "l \<in> set ls" using that unfolding set_ls .
  qed
  show "r_id ` set (published_runs db tenant g) = r_id ` set (generation_runs db (g_id g))"
  proof (intro equalityI subsetI)
    fix x assume "x \<in> r_id ` set (published_runs db tenant g)"
    then obtain l r where "l \<in> set (links_of db (g_id g))" "r \<in> set (db_runs db)" "ok l r" and x: "x = r_id r"
      unfolding p set_ls[symmetric] by auto
    then have "linked_run db (g_id g) r" by (auto simp: linked_run_def ok_def)
    then show "x \<in> r_id ` set (generation_runs db (g_id g))" unfolding generation_runs_set x by blast
  next
    fix x assume "x \<in> r_id ` set (generation_runs db (g_id g))"
    then obtain l where l: "l \<in> set (links_of db (g_id g))" "gl_run l = x"
      unfolding generation_runs_set by (auto simp: linked_run_def)
    then obtain r where r: "r \<in> set (db_runs db)" "ok l r" using hit[of l] by (auto simp: filter_empty_conv)
    then have "r \<in> set (published_runs db tenant g)" unfolding p using l(1) by (auto simp: set_ls)
    moreover have "r_id r = x" using r(2) l(2) by (simp add: ok_def)
    ultimately show "x \<in> r_id ` set (published_runs db tenant g)" by blast
  qed
  fix r assume "r \<in> set (published_runs db tenant g)"
  then show "r_status r = StatusSucceeded \<and> current_versions db r" unfolding p by (auto simp: ok_def)
qed

lemma load_published_Inr:
  assumes "load_published cfg db pd tenant g now = Inr ov"
  obtains policy items where "published_items cfg policy now (published_runs db tenant g) = Some items"
    "int (length items) = g_total g" "ov_data_status ov = foldl worst_freshness FreshnessFresh (map ss_freshness items)"
    "ov_items ov = (if ov_data_status ov = FreshnessExpired then [] else items)"
  using assms by (auto simp: load_published_def bindr_Inr_iff Let_def split: option.splits if_splits)

text \<open>C28: In a database the stores reach, an overview of a generation shows exactly the generation's
  runs, one snapshot for each and none left out, or nothing when a snapshot has expired; it is called
  fresh only when all of them are.\<close>

theorem overview_whole_generation:
  assumes "system_reachable cd cfg db" "g \<in> set (db_generations db)" "load_published cfg db pd tenant g now = Inr ov"
  shows "ov_data_status ov = FreshnessExpired \<and> ov_items ov = []
    \<or> int (length (ov_items ov)) = g_total g
      \<and> ss_run ` set (ov_items ov) = r_id ` set (generation_runs db (g_id g))
      \<and> (ov_data_status ov = FreshnessFresh \<longleftrightarrow> (\<forall>s \<in> set (ov_items ov). ss_freshness s = FreshnessFresh))"
proof -
  have inv: "generation_inv db" by (rule system_inv[OF assms(1)])
  obtain policy items where i: "published_items cfg policy now (published_runs db tenant g) = Some items"
    "int (length items) = g_total g" "ov_data_status ov = foldl worst_freshness FreshnessFresh (map ss_freshness items)"
    "ov_items ov = (if ov_data_status ov = FreshnessExpired then [] else items)"
    by (rule load_published_Inr[OF assms(3)])
  note l2 = published_items_all[OF i(1)]
  have "length (published_runs db tenant g) = length items" by (rule list_all2_lengthD[OF l2])
  moreover have "g_total g = int (length (links_of db (g_id g)))" using inv assms(2) by (simp add: generation_inv_def truthful_def)
  ultimately have ids: "r_id ` set (published_runs db tenant g) = r_id ` set (generation_runs db (g_id g))"
    using published_runs_all(1)[OF inv, of tenant g] i(2) by simp
  have "map ss_run items = map r_id (published_runs db tenant g)"
    using l2 by (induction rule: list_all2_induct) (simp_all add: published_item_of(1))
  then have runs: "ss_run ` set items = r_id ` set (generation_runs db (g_id g))" using ids by (metis set_map)
  have "set (map ss_freshness items) \<subseteq> {FreshnessFresh, FreshnessStale, FreshnessExpired}"
    using l2 by (induction rule: list_all2_induct) (use published_item_of(2) in auto)
  then have "ov_data_status ov = FreshnessFresh \<longleftrightarrow> (\<forall>s \<in> set items. ss_freshness s = FreshnessFresh)"
    unfolding i(3) using worst_fresh[of "map ss_freshness items" FreshnessFresh] by simp
  with runs i(2,4) show ?thesis by auto
qed

section \<open>The result of a refresh\<close>

lemma result_items_runs:
  "result_items policy now runs = Inr items \<Longrightarrow> map ss_run items = map (r_id \<circ> snd) (filter (\<lambda>(k, r). r_status r = StatusSucceeded) runs)"
proof (induction policy now runs arbitrary: items rule: result_items.induct)
  case (2 policy now k r rest)
  have "ss_run s = r_id r" if "result_item policy now k r = Inr s" for s
  proof -
    obtain dash d where "finalize_snapshot (snapshot_of r dash (Some (coalesce (run_started r) (r_queued_at r)))) (r_kind r) (r_expires_at r) d
        (result_period r dash) policy now = Inr s"
      using \<open>result_item policy now k r = Inr s\<close> by (auto simp: result_item_def split: option.splits if_splits sum.splits)
    from finalize_keeps(1)[OF this] show ?thesis by (simp add: snapshot_of_def)
  qed
  with 2 show ?case by (auto simp: bindr_Inr_iff split: if_splits)
qed simp

text \<open>The result of a refresh that is neither building nor waiting names every run of the refresh
  once: the succeeded ones as items in the order of their reports, the others as failures.\<close>

theorem refresh_result_complete:
  assumes "get_refresh_result db pd recipient tenant refresh now = Inr res"
  shows "(rs_items res = [] \<or> map ss_run (rs_items res)
        = map (r_id \<circ> snd) (filter (\<lambda>(k, r). r_status r = StatusSucceeded) (refresh_runs db refresh)))
    \<and> rs_failures res = result_failures (refresh_runs db refresh)
    \<and> (rs_status res = RefreshSucceeded \<longrightarrow> rs_items res \<noteq> [] \<and> (\<forall>(k, r) \<in> set (refresh_runs db refresh). r_status r = StatusSucceeded))
    \<and> (rs_status res = RefreshPartial \<longrightarrow> rs_items res \<noteq> [] \<and> rs_failures res \<noteq> [])"
proof -
  obtain policy where policy: "get_refresh_policy db pd tenant = Inr policy"
    using assms by (auto simp: get_refresh_result_def split: sum.splits)
  obtain f where f: "find_refresh db recipient tenant refresh = Some f"
    using assms policy by (auto simp: get_refresh_result_def split: option.splits)
  define gen where "gen = (case f_generation f of None \<Rightarrow> None | Some g \<Rightarrow> find_where (\<lambda>x. g_id x = g) (db_generations db))"
  define failed where "failed = opt_rel (\<lambda>g. g_status g = GenerationFailed) gen"
  note r = assms[unfolded get_refresh_result_def policy f sum.case option.case Let_def gen_def[symmetric] failed_def[symmetric]]
  obtain items where items: "result_items policy now (refresh_runs db refresh) = Inr items"
    using r by (cases "result_items policy now (refresh_runs db refresh)") (auto split: if_splits)
  have e: "result_items policy now (refresh_runs db refresh) = Inr items" "True"
    "\<not> failed \<longrightarrow> \<not> list_ex (\<lambda>(k, r). is_unfinished r) (refresh_runs db refresh)"
    "rs_items res = (if failed then [] else items)"
    "rs_failures res = result_failures (refresh_runs db refresh)"
    "rs_status res = (if failed then RefreshFailed
      else if items \<noteq> [] \<and> result_failures (refresh_runs db refresh) = [] then RefreshSucceeded
      else if items \<noteq> [] then RefreshPartial else RefreshFailed)"
    using r unfolding items sum.case by (auto split: if_splits)
  have "r_status r = StatusSucceeded" if "rs_status res = RefreshSucceeded" "(k, r) \<in> set (refresh_runs db refresh)" for k r
  proof -
    have "result_failures (refresh_runs db refresh) = []" "\<not> list_ex (\<lambda>(k, r). is_unfinished r) (refresh_runs db refresh)"
      using that(1) e(3,6) by (auto split: if_splits)
    then have "\<not> is_failed r" "\<not> is_unfinished r"
      using that(2) by (auto simp: result_failures_def filter_empty_conv list_ex_iff)
    then show ?thesis by (cases "r_status r") (auto simp: is_failed_def is_unfinished_def is_active_def)
  qed
  moreover have "rs_items res = [] \<or> map ss_run (rs_items res)
        = map (r_id \<circ> snd) (filter (\<lambda>(k, r). r_status r = StatusSucceeded) (refresh_runs db refresh))"
    using result_items_runs[OF e(1)] e(4) by auto
  ultimately show ?thesis using e(4-6) by (auto split: if_splits)
qed

section \<open>Examples\<close>

text \<open>The run of the refresh of the samples, claimed, started and completed with a dashboard.\<close>

definition sample_dashboard :: dashboard where
  "sample_dashboard = \<lparr>dash_report_key = SalesGoodsServices, dash_version = ''v'',
     dash_period = \<lparr>preset = Custom, date_from = ''2025-03-04'', date_to = ''2025-03-04''\<rparr>,
     dash_comparison_period = \<lparr>preset = Custom, date_from = ''2025-03-03'', date_to = ''2025-03-03''\<rparr>,
     dash_timezone = ''Asia/Bangkok'', dash_generated_at = None, dash_kpis = [], dash_visualizations = [],
     dash_quality = \<lparr>qual_status = ''OK'', qual_warnings = []\<rparr>\<rparr>"

text \<open>Noon of 4 March 2025 in Bangkok.\<close>

definition noon :: instant where "noon = 1741064400000000000"

definition refreshed_done :: db where
  "refreshed_done = (case claim_run cached_config refreshed_db [] ''w1'' minute (11 * hour) of
     Inl _ \<Rightarrow> empty_db
   | Inr (db, _) \<Rightarrow> (case mark_running db 100 ''w1'' minute (11 * hour) of
       Inl _ \<Rightarrow> empty_db
     | Inr db \<Rightarrow> (case complete_run (\<lambda>_. 0) db 100 ''w1'' (sample_summary\<lparr>sum_dashboard := Some sample_dashboard\<rparr>) False (11 * hour + second) of
         Inl _ \<Rightarrow> empty_db | Inr db \<Rightarrow> db)))"

definition no_policies :: policy_db where "no_policies = \<lparr>pd_policies = [], pd_audit = []\<rparr>"

lemma refreshed_done_state:
  "map (\<lambda>g. (g_id g, g_status g)) (db_generations refreshed_done) = [(50, GenerationPublished)]"
  "map (\<lambda>r. (r_id r, r_status r, r_finished_at r)) (db_runs refreshed_done) = [(100, StatusSucceeded, Some (11 * hour + second))]"
  by code_simp+

declare One_nat_def [simp del]

definition sample_period :: period where
  "sample_period = \<lparr>preset = Custom, date_from = ''2025-03-04'', date_to = ''2025-03-04''\<rparr>"

definition sample_run :: run_row where "sample_run = hd (db_runs refreshed_done)"

definition sample_generation :: generation_row where "sample_generation = hd (db_generations refreshed_done)"

lemma refreshed_done_rows:
  "db_runs refreshed_done = [sample_run]" "db_generations refreshed_done = [sample_generation]"
  using refreshed_done_state by (auto simp: sample_run_def sample_generation_def)

lemma sample_run_fields:
  "r_id sample_run = 100" "r_dashboard sample_run = Some (sample_dashboard\<lparr>dash_generated_at := Some (11 * hour + second)\<rparr>)"
  "r_source_finished_at sample_run = Some (11 * hour + second)" "r_key sample_run = SalesGoodsServices"
  "r_kind sample_run = ResultSummary" "r_period sample_run = sample_period" "r_status sample_run = StatusSucceeded"
  "r_fingerprint sample_run = cfg_fingerprint cached_config SalesGoodsServices ResultSummary"
proof -
  have "(r_id sample_run, r_dashboard sample_run, r_source_finished_at sample_run, r_key sample_run, r_kind sample_run,
      r_period sample_run, r_status sample_run, r_fingerprint sample_run)
    = (100, Some (sample_dashboard\<lparr>dash_generated_at := Some (11 * hour + second)\<rparr>), Some (11 * hour + second),
      SalesGoodsServices, ResultSummary, sample_period, StatusSucceeded, cfg_fingerprint cached_config SalesGoodsServices ResultSummary)"
    by code_simp
  then show "r_id sample_run = 100" "r_dashboard sample_run = Some (sample_dashboard\<lparr>dash_generated_at := Some (11 * hour + second)\<rparr>)"
    "r_source_finished_at sample_run = Some (11 * hour + second)" "r_key sample_run = SalesGoodsServices"
    "r_kind sample_run = ResultSummary" "r_period sample_run = sample_period" "r_status sample_run = StatusSucceeded"
    "r_fingerprint sample_run = cfg_fingerprint cached_config SalesGoodsServices ResultSummary" by simp_all
qed

lemma sample_definition:
  obtains d where "definition_for SalesGoodsServices = Some d" "def_refresh_class d = RefreshFast"
proof -
  obtain d where d: "definition_for SalesGoodsServices = Some d" using definition_for_iff[of SalesGoodsServices] by (auto simp: keys_eq)
  have "refresh_class_of SalesGoodsServices = RefreshFast" by code_simp
  with that d definition_fields(3)[OF d] show ?thesis by simp
qed

lemma sample_today: "format_date (local_day bangkok noon) = ''2025-03-04''"
  "format_date (local_day bangkok (noon + 20 * hour)) = ''2025-03-05''"
  "format_date (local_day bangkok (12 * hour)) = ''1970-01-01''"
  by code_simp+

text \<open>A snapshot read at noon of the day it is about.\<close>

definition noon_snapshot :: snapshot where
  "noon_snapshot = (snapshot_of sample_run sample_dashboard None)\<lparr>ss_source_finished_at := Some noon\<rparr>"

lemma noon_finished: "ss_source_finished_at noon_snapshot = Some noon"
  by (simp add: noon_snapshot_def)

lemma noon_closed: "\<not> closed_period sample_period noon" "\<not> closed_period sample_period (noon + hour)"
  "closed_period sample_period (noon + 20 * hour)"
  by code_simp+

lemma noon_stale:
  assumes "definition_for SalesGoodsServices = Some d" "def_refresh_class d = RefreshFast"
  obtains x where "finalize_snapshot noon_snapshot ResultSummary 0 d sample_period (default_refresh_policy 1) (noon + hour) = Inr x"
    "ss_freshness x = FreshnessStale"
proof -
  obtain x where x: "finalize_snapshot noon_snapshot ResultSummary 0 d sample_period (default_refresh_policy 1) (noon + hour) = Inr x"
    using finalize_total[of noon_snapshot] noon_finished by blast
  have "ss_freshness x = (if noon + hour < noon + fst (interval_for (default_refresh_policy 1) d) then FreshnessFresh
      else if noon + hour < noon + current_snapshot_hard_stale then FreshnessStale else FreshnessExpired)"
    using finalize_freshness[OF x noon_finished] noon_closed(2) by (simp only: fresh_for_def stale_for_def if_False)
  then have "ss_freshness x = FreshnessStale"
    by (simp add: interval_for_def assms(2) default_refresh_policy_def current_snapshot_hard_stale_def hour_def minute_def)
  with x that show ?thesis by blast
qed

lemma freshness_decays_witness:
  "\<exists>d x. finalize_snapshot noon_snapshot ResultSummary 0 d sample_period (default_refresh_policy 1) (noon + hour) = Inr x
     \<and> freshness_rank (ss_freshness x) \<le> 1"
proof -
  obtain d where d: "definition_for SalesGoodsServices = Some d" "def_refresh_class d = RefreshFast" by (rule sample_definition)
  obtain x where x: "finalize_snapshot noon_snapshot ResultSummary 0 d sample_period (default_refresh_policy 1) (noon + hour) = Inr x"
    "ss_freshness x = FreshnessStale" by (rule noon_stale[OF d])
  obtain y where y: "finalize_snapshot noon_snapshot ResultSummary 0 d sample_period (default_refresh_policy 1) noon = Inr y"
    using finalize_total[of noon_snapshot] noon_finished by blast
  have "freshness_rank (ss_freshness y) \<le> freshness_rank (ss_freshness x)"
    using freshness_decays[OF y x(1)] noon_closed by (simp add: hour_def)
  with x show ?thesis by (intro exI[of _ d] exI[of _ x]) (simp add: freshness_rank_def)
qed

lemma stale_snapshot_fresh_after_midnight_witness:
  "\<exists>d x'. finalize_snapshot noon_snapshot ResultSummary 0 d sample_period (default_refresh_policy 1) (noon + 20 * hour) = Inr x'
     \<and> ss_freshness x' = FreshnessFresh"
proof -
  obtain d where d: "definition_for SalesGoodsServices = Some d" "def_refresh_class d = RefreshFast" by (rule sample_definition)
  obtain x where x: "finalize_snapshot noon_snapshot ResultSummary 0 d sample_period (default_refresh_policy 1) (noon + hour) = Inr x"
    "ss_freshness x = FreshnessStale" by (rule noon_stale[OF d])
  have "format_date (local_day bangkok (noon + hour)) = ''2025-03-04''" by code_simp
  then have day: "date_to sample_period = format_date (local_day bangkok (noon + hour))" by (simp add: sample_period_def)
  have next_day: "date_to sample_period < format_date (local_day bangkok (noon + 20 * hour))"
    using noon_closed(3) by (simp add: closed_period_def)
  have "noon + 20 * hour < noon + 24 * hour" by (simp add: hour_def)
  from stale_snapshot_fresh_after_midnight[OF x day next_day noon_finished this] show ?thesis by blast
qed

lemma sample_exact:
  assumes "definition_for SalesGoodsServices = Some d"
  obtains s where "exact_snapshot cached_config refreshed_done 1 SalesGoodsServices sample_period (default_refresh_policy 1) (12 * hour) = Inr s"
proof -
  have "map_option r_id (exact_run cached_config refreshed_done 1 SalesGoodsServices sample_period) = Some 100" by code_simp
  then obtain r where r: "exact_run cached_config refreshed_done 1 SalesGoodsServices sample_period = Some r" by auto
  then have "r \<in> set (db_runs refreshed_done)" unfolding exact_run_def by (blast dest: select_first_Some)
  then have e: "r = sample_run" by (simp add: refreshed_done_rows)
  show ?thesis
    using that finalize_total assms r unfolding e exact_snapshot_def
    by (simp add: sample_run_fields snapshot_of_def or_else_def finalize_Inr)
qed

lemma exact_snapshot_newest_witness:
  "\<exists>s. exact_snapshot cached_config refreshed_done 1 SalesGoodsServices sample_period (default_refresh_policy 1) (12 * hour) = Inr s
     \<and> ss_from s = ''2025-03-04''"
proof -
  obtain d where d: "definition_for SalesGoodsServices = Some d" by (rule sample_definition)
  obtain s where s: "exact_snapshot cached_config refreshed_done 1 SalesGoodsServices sample_period (default_refresh_policy 1) (12 * hour) = Inr s"
    by (rule sample_exact[OF d])
  from exact_snapshot_newest[OF s] have "ss_from s = date_from sample_period" by blast
  with s show ?thesis by (simp add: sample_period_def)
qed

text \<open>Without a snapshot, a revalidation of the sample enqueues a background run.\<close>

definition sample_background :: enqueue_input where
  "sample_background = (let execution_key = snapshot_execution_key sample_codec 1 SalesGoodsServices sample_period DateRange
       ''1.0.0'' 1 (cfg_fingerprint cached_config SalesGoodsServices ResultSummary)
     in \<lparr>in_tenant = 1, in_key = SalesGoodsServices, in_source = SourceBackground,
         in_idempotency = ''background-'' @ take 24 execution_key @ ''-'' @ int_str 120, in_period = sample_period,
         in_recipient = None, in_kind = ResultSummary, in_priority = 30, in_execution_key = execution_key\<rparr>)"

lemma sample_background_enqueued:
  "\<exists>p. enqueue sample_db cached_config sample_background 300 (10 * hour) = Inr p \<and> is_unfinished (snd p)"
  by (rule evaluated) code_simp

lemma sample_unread: "exact_run cached_config sample_db 1 SalesGoodsServices sample_period = None"
  "find_where (\<lambda>c. k_tenant c = 1) (db_connections sample_db) = Some \<lparr>k_tenant = 1, k_host = ''sml.example'', k_version = 1,
     k_readiness = ReadinessReady, k_last_tested_at = Some 0\<rparr>"
  "get_refresh_policy sample_db no_policies 1 = Inr (default_refresh_policy 1)" "\<not> schedule_soon sample_db 1 (10 * hour)"
  "circuit_until sample_db 1 = None"
  by (simp_all add: exact_run_def select_first_None sample_db_def empty_db_def get_refresh_policy_def no_policies_def
    schedule_soon_def circuit_until_def)

lemma revalidation_guarded_witness:
  "\<exists>db' v. revalidate_snapshot sample_codec cached_config sample_db no_policies 1 SalesGoodsServices sample_period 300 (10 * hour) = Inr (db', v)
     \<and> vd_disposition v = RevalidationMissingRefreshing"
proof -
  obtain d where d: "definition_for SalesGoodsServices = Some d" "def_refresh_class d = RefreshFast" by (rule sample_definition)
  obtain db' run where run: "enqueue sample_db cached_config sample_background 300 (10 * hour) = Inr (db', run)" "is_unfinished run"
    using sample_background_enqueued by auto
  have i: "interval_for (default_refresh_policy 1) d = (5 * minute, True)" by (simp add: interval_for_def d default_refresh_policy_def)
  have none: "exact_snapshot cached_config sample_db 1 SalesGoodsServices sample_period (default_refresh_policy 1) (10 * hour) = Inl ErrRunNotFound"
    by (simp add: exact_snapshot_def d sample_unread)
  have "background_input sample_codec cached_config 1 SalesGoodsServices sample_period d 1 (5 * minute) (10 * hour) = sample_background"
    using definition_fields[OF d(1)] by (simp add: background_input_def sample_background_def Let_def d background_priority_def
        hour_def minute_def second_def)
  then have e: "revalidate_snapshot sample_codec cached_config sample_db no_policies 1 SalesGoodsServices sample_period 300 (10 * hour)
      = Inr (db', joined_revalidation (Inl ErrRunNotFound) run)"
    by (simp add: revalidate_snapshot_def d sample_unread i none is_fresh_def run Let_def)
  from revalidation_guarded[OF e] run(2) show ?thesis unfolding e
    by (intro exI conjI) (rule refl, simp add: joined_revalidation_def)
qed

lemma sample_published:
  "map r_id (published_runs refreshed_done 1 sample_generation) = [100]" "g_total sample_generation = 1"
proof -
  have "(map r_id (published_runs refreshed_done 1 sample_generation), g_total sample_generation) = ([100], 1)" by code_simp
  then show "map r_id (published_runs refreshed_done 1 sample_generation) = [100]" "g_total sample_generation = 1" by simp_all
qed

lemma sample_published_run: "published_runs refreshed_done 1 sample_generation = [sample_run]"
proof -
  have "set (published_runs refreshed_done 1 sample_generation) \<subseteq> set (db_runs refreshed_done)"
    by (auto simp: published_runs_def)
  moreover obtain r where r: "published_runs refreshed_done 1 sample_generation = [r]" using sample_published(1) by auto
  ultimately show ?thesis by (simp add: refreshed_done_rows)
qed

lemma sample_dashboard_fields: "dash_report_key sample_dashboard = SalesGoodsServices" "dash_version sample_dashboard = ''v''"
  by (simp_all add: sample_dashboard_def)

lemma sample_policy: "get_refresh_policy refreshed_done no_policies 1 = Inr (default_refresh_policy 1)"
proof -
  have "find_where (\<lambda>t. t_id t = 1) (db_tenants refreshed_done) \<noteq> None" by code_simp
  then show ?thesis by (auto simp: get_refresh_policy_def no_policies_def)
qed

lemma sample_done_reachable: "system_reachable sample_codec cached_config refreshed_done"
proof -
  define db1 where "db1 = (case claim_run cached_config refreshed_db [] ''w1'' minute (11 * hour) of Inr (db, _) \<Rightarrow> db | Inl _ \<Rightarrow> empty_db)"
  define db2 where "db2 = (case mark_running db1 100 ''w1'' minute (11 * hour) of Inr db \<Rightarrow> db | Inl _ \<Rightarrow> empty_db)"
  have "\<exists>v. claim_run cached_config refreshed_db [] ''w1'' minute (11 * hour) = Inr (db1, v)"
    unfolding db1_def by (rule evaluated_db) code_simp
  then obtain r where c: "claim_run cached_config refreshed_db [] ''w1'' minute (11 * hour) = Inr (db1, r)" by (elim exE)
  have ended: "refreshed_done = (case mark_running db1 100 ''w1'' minute (11 * hour) of Inl _ \<Rightarrow> empty_db
      | Inr db \<Rightarrow> (case complete_run (\<lambda>_. 0) db 100 ''w1'' (sample_summary\<lparr>sum_dashboard := Some sample_dashboard\<rparr>) False (11 * hour + second) of
         Inl _ \<Rightarrow> empty_db | Inr db \<Rightarrow> db))"
    unfolding refreshed_done_def c by simp
  have ne: "db_runs refreshed_done \<noteq> []" by (simp add: refreshed_done_rows)
  then obtain db2 where m: "mark_running db1 100 ''w1'' minute (11 * hour) = Inr db2"
    unfolding ended by (auto simp: empty_db_def split: sum.splits)
  then have k: "complete_run (\<lambda>_. 0) db2 100 ''w1'' (sample_summary\<lparr>sum_dashboard := Some sample_dashboard\<rparr>) False (11 * hour + second) = Inr refreshed_done"
    using ne unfolding ended m sum.case by (auto simp: empty_db_def split: sum.splits)
  have s: "system_step sample_codec cached_config refreshed_db db1" by (rule claimed[OF c])
  have "run_op (\<lambda>_. 0) (Mark minute) db1 100 ''w1'' (11 * hour) = Inr db2" by (simp add: m)
  then have s2: "system_step sample_codec cached_config db1 db2" by (rule worked)
  have "run_op (\<lambda>_. 0) (Complete (sample_summary\<lparr>sum_dashboard := Some sample_dashboard\<rparr>) False) db2 100 ''w1'' (11 * hour + second)
      = Inr refreshed_done" by (simp add: k)
  then have "system_step sample_codec cached_config db2 refreshed_done" by (rule worked)
  then show ?thesis using refreshed_reachable s s2 by (blast intro: system_reachable.step)
qed

lemma overview_whole_generation_witness:
  "\<exists>ov. load_published cached_config refreshed_done no_policies 1 sample_generation (12 * hour) = Inr ov
     \<and> ss_run ` set (ov_items ov) \<subseteq> r_id ` set (generation_runs refreshed_done (g_id sample_generation))"
proof -
  obtain d where d: "definition_for SalesGoodsServices = Some d" by (rule sample_definition)
  obtain s where s: "published_item cached_config (default_refresh_policy 1) (12 * hour) sample_run = Some s"
    by (simp add: published_item_def sample_run_fields d sample_dashboard_fields finalize_snapshot_def snapshot_of_def or_else_def Let_def)
  then have "published_items cached_config (default_refresh_policy 1) (12 * hour) [sample_run] = Some [s]" by simp
  then obtain ov where ov: "load_published cached_config refreshed_done no_policies 1 sample_generation (12 * hour) = Inr ov"
    by (simp add: load_published_def sample_policy sample_published_run sample_published(2) Let_def)
  have "sample_generation \<in> set (db_generations refreshed_done)" by (simp add: refreshed_done_rows)
  from overview_whole_generation[OF sample_done_reachable this ov] ov show ?thesis by auto
qed

lemma sample_refresh_state:
  "map (\<lambda>(k, r). (k, r_id r)) (refresh_runs refreshed_done 60) = [(SalesGoodsServices, 100)]"
  "map_option f_generation (find_refresh refreshed_done 7 1 60) = Some (Some 50)"
proof -
  have "(map (\<lambda>(k, r). (k, r_id r)) (refresh_runs refreshed_done 60), map_option f_generation (find_refresh refreshed_done 7 1 60))
    = ([(SalesGoodsServices, 100)], Some (Some 50))" by code_simp
  then show "map (\<lambda>(k, r). (k, r_id r)) (refresh_runs refreshed_done 60) = [(SalesGoodsServices, 100)]"
    "map_option f_generation (find_refresh refreshed_done 7 1 60) = Some (Some 50)" by simp_all
qed

lemma refresh_result_complete_witness:
  "\<exists>res. get_refresh_result refreshed_done no_policies 7 1 60 (12 * hour) = Inr res \<and> rs_failures res = []
     \<and> map ss_run (rs_items res) = [100]"
proof -
  obtain d where d: "definition_for SalesGoodsServices = Some d" by (rule sample_definition)
  obtain f where f: "find_refresh refreshed_done 7 1 60 = Some f" "f_generation f = Some 50"
    using sample_refresh_state(2) by auto
  obtain r where r: "refresh_runs refreshed_done 60 = [(SalesGoodsServices, r)]" using sample_refresh_state(1) by auto
  have "snd ` set (refresh_runs refreshed_done 60) \<subseteq> set (db_runs refreshed_done)" by (auto simp: refresh_runs_def)
  then have e: "r = sample_run" by (simp add: r refreshed_done_rows)
  have g: "find_where (\<lambda>x. g_id x = 50) (db_generations refreshed_done) = Some sample_generation"
    "g_status sample_generation = GenerationPublished"
    using refreshed_done_state(1) by (auto simp: refreshed_done_rows)
  obtain s where s: "result_item (default_refresh_policy 1) (12 * hour) SalesGoodsServices sample_run = Inr s"
    by (simp add: result_item_def sample_run_fields d sample_dashboard_fields finalize_snapshot_def snapshot_of_def or_else_def Let_def)
  have u: "\<not> is_failed sample_run" "\<not> is_unfinished sample_run"
    by (simp_all add: is_failed_def is_unfinished_def is_active_def sample_run_fields)
  obtain res where res: "get_refresh_result refreshed_done no_policies 7 1 60 (12 * hour) = Inr res" "rs_items res = [s]"
    by (simp add: get_refresh_result_def sample_policy f g r e Let_def sample_run_fields(7) s u result_failures_def)
  note all = refresh_result_complete[OF res(1)]
  then have "rs_failures res = result_failures (refresh_runs refreshed_done 60)" by (elim conjE)
  then have "rs_failures res = []" unfolding r e by (simp add: result_failures_def u)
  moreover have "map ss_run (rs_items res) = map (r_id \<circ> snd) (filter (\<lambda>(k, r). r_status r = StatusSucceeded) (refresh_runs refreshed_done 60))"
    using conjunct1[OF all] unfolding res(2) by (elim disjE) simp_all
  then have "map ss_run (rs_items res) = [100]" unfolding r e by (simp add: sample_run_fields(1,7))
  ultimately show ?thesis using res(1) by (intro exI conjI)
qed

declare One_nat_def [simp]

end
