(* ===== verification/SqlRender.thy ===== *)
theory SqlRender
  imports Generations
begin

text \<open>
  Rendering of the report queries (report/sql_render.go): the placeholders $1, $2, ... of a query are
  replaced by the literals of its arguments, because the SOAP service of the customer takes SQL text
  and no parameters.
\<close>

section \<open>Literals\<close>

text \<open>All the integer types of Go are ArgInt.  A float is its shortest decimal text, None for NaN and
  the infinities.  ArgOther is a value of any other type.\<close>

datatype sql_arg = ArgNull | ArgString string | ArgBool bool | ArgInt int | ArgFloat "string option"
  | ArgTime instant | ArgStrings "string list" | ArgOther

datatype render_error = QueryEmpty | PlaceholderUnmatched | NumberNotFinite | ArgumentUnsupported

definition quote_char :: char where "quote_char = CHR 0x27"

definition quote_postgres_string :: "string \<Rightarrow> string" where
  "quote_postgres_string v = quote_char # concat (map (\<lambda>c. if c = quote_char then [quote_char, quote_char] else [c]) v) @ [quote_char]"

text \<open>time.RFC3339Nano in UTC.\<close>

definition format_fraction :: "nat \<Rightarrow> string" where
  "format_fraction ns = (if ns = 0 then '''' else CHR ''.'' # rev (dropWhile (\<lambda>c. c = CHR ''0'') (rev (pad0 9 ns))))"

definition format_time :: "instant \<Rightarrow> string" where
  "format_time t = (let clock = local_clock utc t; s = nat (clock div second); ns = nat (clock mod second)
     in format_date (local_day utc t) @ ''T'' @ pad0 2 (s div 3600) @ '':'' @ pad0 2 (s div 60 mod 60) @ '':'' @ pad0 2 (s mod 60)
        @ format_fraction ns @ ''Z'')"

definition postgres_literal :: "sql_arg \<Rightarrow> render_error + string" where
  "postgres_literal v = (case v of
     ArgNull \<Rightarrow> Inr ''null''
   | ArgString s \<Rightarrow> Inr (quote_postgres_string s)
   | ArgBool b \<Rightarrow> Inr (if b then ''true'' else ''false'')
   | ArgInt i \<Rightarrow> Inr (int_str i)
   | ArgFloat None \<Rightarrow> Inl NumberNotFinite
   | ArgFloat (Some s) \<Rightarrow> Inr s
   | ArgTime t \<Rightarrow> Inr (quote_postgres_string (format_time t))
   | ArgStrings [] \<Rightarrow> Inr ''array[]::text[]''
   | ArgStrings (x # xs) \<Rightarrow> Inr (''array['' @ join_with '', '' (map quote_postgres_string (x # xs)) @ '']::text[]'')
   | ArgOther \<Rightarrow> Inl ArgumentUnsupported)"

section \<open>Placeholders\<close>

record query =
  sql :: string
  args :: "sql_arg list"

text \<open>The literal of a placeholder with these digits; an index that overflows an int is out of range too.\<close>

definition placeholder_value :: "sql_arg list \<Rightarrow> string \<Rightarrow> render_error + string" where
  "placeholder_value as digits = (let i = digits_val digits in
     if i < 1 \<or> i > length as then Inl PlaceholderUnmatched else postgres_literal (as ! (i - 1)))"

text \<open>A dollar sign and as many digits as follow; a dollar sign without digits stays.\<close>

function render_text :: "sql_arg list \<Rightarrow> string \<Rightarrow> render_error + string" where
  "render_text as [] = Inr []"
| "render_text as (c # s) = (
     if c = CHR ''$'' \<and> takeWhile is_digit s \<noteq> []
     then bindr (placeholder_value as (takeWhile is_digit s)) (\<lambda>v.
          bindr (render_text as (dropWhile is_digit s)) (\<lambda>rest. Inr (v @ rest)))
     else bindr (render_text as s) (\<lambda>rest. Inr (c # rest)))"
  by pat_completeness auto
termination
  by (relation "measure (\<lambda>(as, s). length s)") (auto simp: le_imp_less_Suc length_dropWhile_le)

definition render_sql :: "query \<Rightarrow> render_error + string" where
  "render_sql q = (if trim_space (sql q) = '''' then Inl QueryEmpty else render_text (args q) (sql q))"

section \<open>Reading a literal back\<close>

text \<open>
  The string literal of SQL, as PostgreSQL reads it with standard_conforming_strings: up to a single
  quotation mark, a doubled one stands for itself.
\<close>

fun lex_body :: "string \<Rightarrow> (string \<times> string) option" where
  "lex_body [] = None"
| "lex_body [c] = (if c = quote_char then Some ([], []) else None)"
| "lex_body (c # d # s) = (
     if c = quote_char then (if d = quote_char then map_option (\<lambda>(v, rest). (quote_char # v, rest)) (lex_body s)
       else Some ([], d # s))
     else map_option (\<lambda>(v, rest). (c # v, rest)) (lex_body (d # s)))"

definition lex_literal :: "string \<Rightarrow> (string \<times> string) option" where
  "lex_literal s = (case s of [] \<Rightarrow> None | c # rest \<Rightarrow> if c = quote_char then lex_body rest else None)"

text \<open>The elements of an array of literals, separated by a comma and a space.\<close>

fun lex_array :: "nat \<Rightarrow> string \<Rightarrow> (string list \<times> string) option" where
  "lex_array 0 s = None"
| "lex_array (Suc n) s = (case lex_literal s of
     None \<Rightarrow> None
   | Some (v, rest) \<Rightarrow> (if take 2 rest = '', '' then map_option (\<lambda>(vs, r). (v # vs, r)) (lex_array n (drop 2 rest))
       else Some ([v], rest)))"

lemma lex_body_quoted:
  assumes "rest = [] \<or> hd rest \<noteq> quote_char"
  shows "lex_body (concat (map (\<lambda>c. if c = quote_char then [quote_char, quote_char] else [c]) v) @ quote_char # rest) = Some (v, rest)"
proof (induction v)
  case Nil
  show ?case using assms by (cases rest) auto
next
  case (Cons c v)
  let ?tail = "concat (map (\<lambda>c. if c = quote_char then [quote_char, quote_char] else [c]) v) @ quote_char # rest"
  obtain d s where t: "?tail = d # s" by (cases ?tail) auto
  show ?case using Cons.IH t by auto
qed

lemma lex_quoted:
  "rest = [] \<or> hd rest \<noteq> quote_char \<Longrightarrow> lex_literal (quote_postgres_string v @ rest) = Some (v, rest)"
  using lex_body_quoted[of rest v] by (simp add: lex_literal_def quote_postgres_string_def)

lemma lex_array_quoted:
  assumes "rest = [] \<or> hd rest \<noteq> quote_char \<and> hd rest \<noteq> CHR '',''"
  shows "lex_array (length (x # xs)) (join_with '', '' (map quote_postgres_string (x # xs)) @ rest) = Some (x # xs, rest)"
proof (induction xs arbitrary: x)
  case Nil
  have "take 2 rest \<noteq> '', ''" using assms by (cases rest) auto
  then show ?case using assms lex_quoted[of rest x] by auto
next
  case (Cons y ys)
  have q: "\<And>r. lex_literal (quote_postgres_string x @ '', '' @ r) = Some (x, '', '' @ r)"
    by (rule lex_quoted) (simp add: quote_char_def)
  show ?case using Cons.IH[of y] q by simp
qed

text \<open>C29: The literal of a string or of a list of strings is read back by PostgreSQL as that value,
  whatever the value is, and the text after the literal is left as it was.\<close>

theorem literal_reads_back:
  assumes "rest = [] \<or> hd rest \<notin> {quote_char, CHR '',''}"
  shows "(\<exists>l. postgres_literal (ArgString v) = Inr l \<and> lex_literal (l @ rest) = Some (v, rest))
    \<and> (vs \<noteq> [] \<longrightarrow> (\<exists>l. postgres_literal (ArgStrings vs) = Inr l
         \<and> take 6 l = ''array['' \<and> lex_array (length vs) (drop 6 (l @ rest)) = Some (vs, '']::text[]'' @ rest)))"
proof -
  have "\<exists>l. postgres_literal (ArgString v) = Inr l \<and> lex_literal (l @ rest) = Some (v, rest)"
    using lex_quoted[of rest v] assms by (auto simp: postgres_literal_def)
  moreover have "\<exists>l. postgres_literal (ArgStrings vs) = Inr l
         \<and> take 6 l = ''array['' \<and> lex_array (length vs) (drop 6 (l @ rest)) = Some (vs, '']::text[]'' @ rest)" if "vs \<noteq> []"
  proof -
    from \<open>vs \<noteq> []\<close> obtain x xs where vs: "vs = x # xs" by (cases vs) auto
    have "lex_array (length (x # xs)) (join_with '', '' (map quote_postgres_string (x # xs)) @ '']::text[]'' @ rest) = Some (x # xs, '']::text[]'' @ rest)"
      by (rule lex_array_quoted) (simp add: quote_char_def)
    then show ?thesis by (simp add: vs postgres_literal_def)
  qed
  ultimately show ?thesis by blast
qed

lemma literal_reads_back_witness:
  "\<exists>l. postgres_literal (ArgString (''O'' @ [quote_char] @ ''Brien; drop table x'')) = Inr l
     \<and> lex_literal (l @ ''::date'') = Some (''O'' @ [quote_char] @ ''Brien; drop table x'', ''::date'')"
  by (rule conjunct1[OF literal_reads_back[where vs = "[]"]]) (simp add: quote_char_def)

section \<open>Templates with small indexes\<close>

text \<open>A scanner for the shape of the templates of this program: every dollar sign is followed by one
  digit from 1 to n and no further digit.\<close>

datatype scan_state = Plain | Dollar | Index

definition scan_char :: "nat \<Rightarrow> scan_state \<Rightarrow> char \<Rightarrow> scan_state option" where
  "scan_char n st c = (case st of
     Plain \<Rightarrow> Some (if c = CHR ''$'' then Dollar else Plain)
   | Dollar \<Rightarrow> if is_digit c \<and> 1 \<le> digit_val c \<and> digit_val c \<le> n then Some Index else None
   | Index \<Rightarrow> if is_digit c then None else Some (if c = CHR ''$'' then Dollar else Plain))"

fun scan :: "nat \<Rightarrow> scan_state \<Rightarrow> string \<Rightarrow> scan_state option" where
  "scan n st [] = Some st"
| "scan n st (c # s) = (case scan_char n st c of None \<Rightarrow> None | Some st' \<Rightarrow> scan n st' s)"

definition safe_sql :: "nat \<Rightarrow> string \<Rightarrow> bool" where
  "safe_sql n s \<longleftrightarrow> scan n Plain s = Some Plain \<or> scan n Plain s = Some Index"

text \<open>What rendering such a template gives.\<close>

fun fill :: "string list \<Rightarrow> string \<Rightarrow> string" where
  "fill ls [] = []"
| "fill ls [c] = [c]"
| "fill ls (c # d # s) = (if c = CHR ''$'' then ls ! (digit_val d - 1) @ fill ls s else c # fill ls (d # s))"

lemma scan_append: "scan n st (a @ b) = (case scan n st a of None \<Rightarrow> None | Some st' \<Rightarrow> scan n st' b)"
  by (induction a arbitrary: st) (auto split: option.splits)

lemma safe_sql_from_index: "b = [] \<or> \<not> is_digit (hd b) \<Longrightarrow> scan n Index b = (if b = [] then Some Index else scan n Plain b)"
  by (cases b) (auto simp: scan_char_def)

lemma safe_sql_append:
  assumes "safe_sql n a" "safe_sql n b" "b = [] \<or> \<not> is_digit (hd b)"
  shows "safe_sql n (a @ b)"
proof (cases "b = []")
  case False
  then have "scan n Index b = scan n Plain b" using safe_sql_from_index[OF assms(3)] by simp
  with assms(1,2) show ?thesis by (auto simp: safe_sql_def scan_append)
qed (use assms(1) in simp)

text \<open>A prefix that ends where the template goes on with another character than a digit is a template.\<close>

lemma safe_sql_prefix:
  assumes "safe_sql n (a @ c # b)" "\<not> is_digit c"
  shows "safe_sql n a"
proof -
  obtain st where st: "scan n Plain a = Some st" "scan n st (c # b) \<noteq> None"
    using assms(1) by (auto simp: safe_sql_def scan_append split: option.splits)
  then have "st \<noteq> Dollar" using assms(2) by (auto simp: scan_char_def)
  with st show ?thesis by (cases st) (simp_all add: safe_sql_def)
qed

lemma digits_val_single: "is_digit d \<Longrightarrow> digits_val [d] = digit_val d"
  by (simp add: digits_val_def)

lemma render_fill:
  assumes "scan n st s = Some st'" "st' \<noteq> Dollar" "st \<noteq> Dollar" "st = Index \<longrightarrow> s = [] \<or> \<not> is_digit (hd s)"
    "length ls = length as" "n \<le> length as" "\<And>i. i < length as \<Longrightarrow> postgres_literal (as ! i) = Inr (ls ! i)"
  shows "render_text as s = Inr (fill ls s)"
  using assms(1-4)
proof (induction "length s" arbitrary: s st rule: less_induct)
  case less
  show ?case
  proof (cases s)
    case Nil then show ?thesis by simp
  next
    case (Cons c t)
    show ?thesis
    proof (cases "c = CHR ''$''")
      case False
      have nd: "st = Index \<longrightarrow> \<not> is_digit c" using less.prems(4) Cons by auto
      have "scan_char n st c = Some Plain" using less.prems(1,3) Cons nd False
        by (cases st) (auto simp: scan_char_def)
      then have "scan n Plain t = Some st'" using less.prems(1) Cons by simp
      then have "render_text as t = Inr (fill ls t)" using less.hyps[of t Plain] less.prems(2) Cons by simp
      then show ?thesis using Cons False by (cases t) simp_all
    next
      case True
      have "scan_char n st c = Some Dollar" using True less.prems(3,4) Cons
        by (cases st) (auto simp: scan_char_def is_digit_def)
      then have s1: "scan n Dollar t = Some st'" using less.prems(1) Cons by simp
      with less.prems(2) obtain d u where t: "t = d # u" by (cases t) auto
      with s1 have d: "is_digit d" "1 \<le> digit_val d" "digit_val d \<le> n" and s2: "scan n Index u = Some st'"
        by (auto simp: scan_char_def split: if_splits)
      have u: "u = [] \<or> \<not> is_digit (hd u)" using s2 by (cases u) (auto simp: scan_char_def split: if_splits)
      have tw: "takeWhile is_digit t = [d]" "dropWhile is_digit t = u" using t d(1) u by (cases u; auto)+
      have "render_text as u = Inr (fill ls u)" using less.hyps[of u Index] s2 less.prems(2) u Cons t by simp
      moreover have "placeholder_value as [d] = Inr (ls ! (digit_val d - 1))"
        using d assms(5-7) by (simp add: placeholder_value_def digits_val_single)
      ultimately show ?thesis using Cons True tw t by simp
    qed
  qed
qed

lemma render_safe:
  assumes "safe_sql n (sql q)" "n \<le> length (args q)" "length ls = length (args q)"
    "\<And>i. i < length (args q) \<Longrightarrow> postgres_literal (args q ! i) = Inr (ls ! i)" "trim_space (sql q) \<noteq> ''''"
  shows "render_sql q = Inr (fill ls (sql q))"
proof -
  obtain st' where "scan n Plain (sql q) = Some st'" "st' \<noteq> Dollar" using assms(1) by (auto simp: safe_sql_def)
  with render_fill[of n Plain "sql q" st' ls "args q"] assms show ?thesis by (simp add: render_sql_def)
qed

end
