(* ===== verification/QueryPlan.thy ===== *)
theory QueryPlan
  imports SqlTexts
begin

text \<open>
  The query plans of the reports (report/query_plan.go, report/summary_query_plan.go and the queries
  of report/heavy_chunk.go): the steps of a report, their queries and arguments, and the fingerprint
  of a plan.  The sources that are embedded into the fingerprint are the parameters of plan_sources.
\<close>

section \<open>Plans\<close>

record query_step =
  step_name :: string
  step_query :: query

record query_plan =
  plan_key :: key
  plan_period :: period
  plan_steps :: "query_step list"

datatype plan_error = PeriodIncomplete | KeyNotApproved | ProjectionNotApproved | ChunkEmpty
  | ChunkBoundaryMissing | PlanNotChunkSafe key

definition step :: "string \<Rightarrow> string \<Rightarrow> sql_arg list \<Rightarrow> query_step" where
  "step name text as = \<lparr>step_name = name, step_query = \<lparr>sql = text, args = as\<rparr>\<rparr>"

definition date_range_args :: "period \<Rightarrow> sql_arg list" where
  "date_range_args p = [ArgString (date_from p), ArgString (date_to p)]"

definition detail_steps :: "key \<Rightarrow> period \<Rightarrow> query_step list" where
  "detail_steps k p = (case k of
     SalesGoodsServices \<Rightarrow> [step ''headers'' sales_header_sql (date_range_args p),
       step ''details'' sales_detail_sql (date_range_args p)]
   | PurchaseGoodsPayables \<Rightarrow> [step ''headers'' purchase_header_sql (date_range_args p),
       step ''details'' purchase_detail_sql (date_range_args p)]
   | GrossProfitByProduct \<Rightarrow> [step ''rows'' gross_profit_product_sql (date_range_args p)]
   | GrossProfitByARCustomer \<Rightarrow> [step ''rows'' gross_profit_customer_sql (date_range_args p)]
   | StockBalance \<Rightarrow> [step ''rows'' stock_balance_sql (date_range_args p)]
   | StockReorder \<Rightarrow> [step ''rows'' stock_reorder_sql []]
   | ARCustomerMovement \<Rightarrow> [step ''rows'' ar_customer_movement_sql [ArgString (date_to p)]]
   | ARDebtReceipt \<Rightarrow> [step ''rows'' ar_debt_receipt_sql (date_range_args p)]
   | CashBankReceipts \<Rightarrow> [step ''rows'' cash_bank_receipts_sql (date_range_args p)]
   | CashBankPayments \<Rightarrow> [step ''rows'' cash_bank_payments_sql (date_range_args p)]
   | OtherKey _ \<Rightarrow> [])"

definition summary_steps :: "key \<Rightarrow> period \<Rightarrow> query_step list" where
  "summary_steps k p = (case k of
     SalesGoodsServices \<Rightarrow> [step ''headers'' (summary_document_trend_sql sales_header_sql p False) (date_range_args p),
       step ''details'' summary_sales_products_sql (date_range_args p)]
   | PurchaseGoodsPayables \<Rightarrow> [step ''headers'' (summary_document_trend_sql purchase_header_sql p True) (date_range_args p)]
   | GrossProfitByProduct \<Rightarrow> [step ''rows'' (summary_profit_sql gross_profit_product_sql ''code'') (date_range_args p)]
   | GrossProfitByARCustomer \<Rightarrow> [step ''rows'' (summary_profit_sql gross_profit_customer_sql ''ar_code'') (date_range_args p)]
   | StockBalance \<Rightarrow> [step ''rows'' (summary_stock_sql stock_balance_sql) (date_range_args p)]
   | StockReorder \<Rightarrow> [step ''rows'' summary_reorder_sql []]
   | ARCustomerMovement \<Rightarrow> [step ''rows'' (summary_ar_movement_sql ar_customer_movement_sql) [ArgString (date_to p)]]
   | ARDebtReceipt \<Rightarrow> [step ''rows'' (summary_cash_flow_sql ar_debt_receipt_sql p True False) (date_range_args p)]
   | CashBankReceipts \<Rightarrow> [step ''rows'' (summary_cash_flow_sql cash_bank_receipts_sql p False False) (date_range_args p)]
   | CashBankPayments \<Rightarrow> [step ''rows'' (summary_cash_flow_sql cash_bank_payments_sql p False True) (date_range_args p)]
   | OtherKey _ \<Rightarrow> [])"

definition build_summary_query_plan :: "key \<Rightarrow> period \<Rightarrow> plan_error + query_plan" where
  "build_summary_query_plan k p = (case k of OtherKey _ \<Rightarrow> Inl KeyNotApproved
     | _ \<Rightarrow> Inr \<lparr>plan_key = k, plan_period = p, plan_steps = summary_steps k p\<rparr>)"

definition build_query_plan :: "key \<Rightarrow> period \<Rightarrow> result_kind \<Rightarrow> plan_error + query_plan" where
  "build_query_plan k p projection = (
     if date_from p = '''' \<or> date_to p = '''' then Inl PeriodIncomplete
     else if definition_for k = None then Inl KeyNotApproved
     else if projection \<noteq> ResultDetail \<and> projection \<noteq> ResultSummary then Inl ProjectionNotApproved
     else if projection = ResultSummary then build_summary_query_plan k p
     else Inr \<lparr>plan_key = k, plan_period = p, plan_steps = detail_steps k p\<rparr>)"

section \<open>Fingerprints\<close>

record plan_sources =
  src_builder :: string
  src_formatter :: string

text \<open>strings.Fields: the texts between runs of white space.\<close>

function fields_go :: "string \<Rightarrow> string \<Rightarrow> string list" where
  "fields_go acc [] = (if acc = [] then [] else [rev acc])"
| "fields_go acc (c # s) = (case strip_one spaces (c # s) of
     Some t \<Rightarrow> (if acc = [] then [] else [rev acc]) @ fields_go [] t
   | None \<Rightarrow> fields_go (c # acc) s)"
  by pat_completeness auto
termination
  by (relation "measure (\<lambda>(acc, s). length s)") (auto dest: strip_one_shorter[OF _ spaces_nonempty(1)])

definition normalize_sql_template :: "string \<Rightarrow> string" where
  "normalize_sql_template v = join_with '' '' (fields_go [] v)"

definition detail_query_templates :: "key \<Rightarrow> string list" where
  "detail_query_templates k = (case k of
     SalesGoodsServices \<Rightarrow> [sales_header_sql, sales_detail_sql]
   | PurchaseGoodsPayables \<Rightarrow> [purchase_header_sql, purchase_detail_sql]
   | GrossProfitByProduct \<Rightarrow> [gross_profit_product_sql]
   | GrossProfitByARCustomer \<Rightarrow> [gross_profit_customer_sql]
   | StockBalance \<Rightarrow> [stock_balance_sql]
   | StockReorder \<Rightarrow> [stock_reorder_sql]
   | ARCustomerMovement \<Rightarrow> [ar_customer_movement_sql]
   | ARDebtReceipt \<Rightarrow> [ar_debt_receipt_sql]
   | CashBankReceipts \<Rightarrow> [cash_bank_receipts_sql]
   | CashBankPayments \<Rightarrow> [cash_bank_payments_sql]
   | OtherKey _ \<Rightarrow> [])"

definition fingerprint_periods :: "period list" where
  "fingerprint_periods = [
     \<lparr>preset = Custom, date_from = ''2026-07-01'', date_to = ''2026-07-01''\<rparr>,
     \<lparr>preset = Custom, date_from = ''2026-01-01'', date_to = ''2026-03-31''\<rparr>,
     \<lparr>preset = Custom, date_from = ''2025-01-01'', date_to = ''2025-12-31''\<rparr>]"

definition query_templates :: "key \<Rightarrow> result_kind \<Rightarrow> string list" where
  "query_templates k projection = (if projection = ResultSummary
     then (case k of OtherKey _ \<Rightarrow> []
       | _ \<Rightarrow> ''bounded-summary-v1'' # detail_query_templates k
           @ concat (map (\<lambda>p. map (sql \<circ> step_query) (summary_steps k p)) fingerprint_periods))
     else detail_query_templates k)"

definition query_plan_fingerprint :: "codec \<Rightarrow> plan_sources \<Rightarrow> key \<Rightarrow> result_kind \<Rightarrow> string" where
  "query_plan_fingerprint cd src k projection = (
     if definition_for k = None \<or> projection \<noteq> ResultSummary \<and> projection \<noteq> ResultDetail then ''''
     else (let queries = query_templates k projection in
       if queries = [] then ''''
       else cd_hash cd (join_with nul ([key_string k, if projection = ResultSummary then ''SUMMARY'' else ''DETAIL'',
           ''executive-dashboard-v1'', ''report-format-v1'', normalize_sql_template (src_builder src),
           normalize_sql_template (src_formatter src)] @ map normalize_sql_template queries))))"

section \<open>Queries of chunks\<close>

definition chunk_manifest_query :: "key \<Rightarrow> period \<Rightarrow> plan_error + (query \<times> nat)" where
  "chunk_manifest_query k p = (case k of
     StockBalance \<Rightarrow> Inr (\<lparr>sql = ''select code as unit_key from ic_inventory where coalesce(item_type, 0) not in (1, 3) order by code'',
       args = []\<rparr>, 500)
   | ARCustomerMovement \<Rightarrow> Inr (\<lparr>sql = ''with manifest_source as ('' @ trim_final_order_by ar_customer_movement_sql
         @ '') select distinct cust_code as unit_key from manifest_source order by cust_code'', args = [ArgString (date_to p)]\<rparr>, 300)
   | _ \<Rightarrow> Inl (PlanNotChunkSafe k))"

text \<open>strings.Replace with a count, and strings.ReplaceAll; the needle is not empty.\<close>

function replace_n :: "string \<Rightarrow> string \<Rightarrow> nat option \<Rightarrow> string \<Rightarrow> string" where
  "replace_n needle by n [] = []"
| "replace_n needle by n (c # s) = (
     if needle \<noteq> [] \<and> n \<noteq> Some 0 \<and> starts_with needle (c # s)
     then by @ replace_n needle by (map_option (\<lambda>i. i - 1) n) (drop (length needle) (c # s))
     else c # replace_n needle by n s)"
  by pat_completeness auto
termination
  by (relation "measure (\<lambda>(needle, by, n, s). length s)") (auto simp: Suc_le_eq diff_less_Suc)

definition stock_needle :: string where "stock_needle = ''where coalesce(i.item_type, 0) not in (1, 3)''"
definition stock_boundary :: string where
  "stock_boundary = ''where i.code = any($3) and coalesce(i.item_type, 0) not in (1, 3)''"
definition ar_needle :: string where "ar_needle = ''where t.last_status = 0 and t.doc_date <= $1::date''"

definition chunk_query_plan :: "key \<Rightarrow> period \<Rightarrow> result_kind \<Rightarrow> string list \<Rightarrow> plan_error + query_plan" where
  "chunk_query_plan k p projection unit_keys = (
     if unit_keys = [] then Inl ChunkEmpty
     else (case k of
       StockBalance \<Rightarrow> (let base = replace_n stock_needle stock_boundary (Some 1) stock_balance_sql in
         if base = stock_balance_sql then Inl ChunkBoundaryMissing
         else Inr \<lparr>plan_key = k, plan_period = p, plan_steps = [step ''rows''
           (if projection = ResultSummary then summary_stock_sql base else base)
           [ArgString (date_from p), ArgString (date_to p), ArgStrings unit_keys]]\<rparr>)
     | ARCustomerMovement \<Rightarrow> (let base = replace_n ar_needle (ar_needle @ '' and t.cust_code = any($2)'') None ar_customer_movement_sql in
         if base = ar_customer_movement_sql then Inl ChunkBoundaryMissing
         else Inr \<lparr>plan_key = k, plan_period = p, plan_steps = [step ''rows''
           (if projection = ResultSummary then summary_ar_movement_sql base else base)
           [ArgString (date_to p), ArgStrings unit_keys]]\<rparr>)
     | _ \<Rightarrow> Inl (PlanNotChunkSafe k)))"

end
