(* ===== verification/QueryPlanProps.thy ===== *)
theory QueryPlanProps
  imports QueryPlan
begin

text \<open>
  The plans of report/query_plan.go, report/summary_query_plan.go and report/heavy_chunk.go can always
  be rendered: every placeholder of every query has an argument.
\<close>

section \<open>Trimming keeps templates\<close>

lemma trim_with_prefix: "\<exists>p. s = p @ trim_with ws s \<and> set p \<subseteq> set (concat ws)"
proof (induction ws s rule: trim_with.induct)
  case (1 ws s)
  show ?case
  proof (cases "[] \<in> set ws \<or> strip_one ws s = None")
    case True
    then have "trim_with ws s = s" by (auto simp: trim_with.simps[of ws s])
    then show ?thesis by simp
  next
    case False
    then obtain t where t: "strip_one ws s = Some t" by auto
    with 1 False obtain p where p: "t = p @ trim_with ws t" "set p \<subseteq> set (concat ws)" by blast
    from t obtain w r where f: "filter (\<lambda>w. starts_with w s) ws = w # r" and d: "t = drop (length w) s"
      by (auto simp: strip_one_def split: list.splits)
    then have w: "w \<in> set ws" "starts_with w s" by (auto dest: filter_eq_ConsD)
    then have "s = w @ t" using d by (metis append_take_drop_id starts_with_def)
    moreover have "trim_with ws s = trim_with ws t" using False t by (simp add: trim_with.simps[of ws s])
    ultimately have "s = (w @ p) @ trim_with ws s" "set (w @ p) \<subseteq> set (concat ws)" using p w(1) by auto
    then show ?thesis by blast
  qed
qed

lemma space_chars: "c \<in> set (concat spaces) \<Longrightarrow> \<not> is_digit c \<and> c \<noteq> CHR ''$''"
proof -
  have "list_all (\<lambda>c. \<not> is_digit c \<and> c \<noteq> CHR ''$'') (concat spaces)" by code_simp
  then show "c \<in> set (concat spaces) \<Longrightarrow> \<not> is_digit c \<and> c \<noteq> CHR ''$''" by (auto simp: list_all_iff)
qed

lemma scan_no_dollar: "CHR ''$'' \<notin> set p \<Longrightarrow> scan n Plain (p @ s) = scan n Plain s"
  by (induction p) (auto simp: scan_char_def)

lemma trim_space_parts:
  "\<exists>p q. s = p @ trim_space s @ q \<and> set p \<subseteq> set (concat spaces) \<and> set q \<subseteq> set (concat spaces)"
proof -
  obtain p where p: "s = p @ trim_left s" "set p \<subseteq> set (concat spaces)"
    using trim_with_prefix[of s spaces] by (auto simp: trim_left_def)
  obtain q where q: "rev (trim_left s) = q @ trim_with (map rev spaces) (rev (trim_left s))"
    "set q \<subseteq> set (concat (map rev spaces))"
    using trim_with_prefix by blast
  have "trim_left s = trim_space s @ rev q"
    using q(1) by (metis rev_append rev_rev_ident trim_right_def trim_space_def)
  moreover have "set (rev q) \<subseteq> set (concat spaces)" using q(2) by auto
  ultimately show ?thesis using p by metis
qed

lemma safe_trim_space:
  assumes "safe_sql n s" shows "safe_sql n (trim_space s)"
proof -
  obtain p q where pq: "s = p @ trim_space s @ q" "set p \<subseteq> set (concat spaces)" "set q \<subseteq> set (concat spaces)"
    using trim_space_parts by blast
  have "CHR ''$'' \<notin> set p" using pq(2) space_chars by blast
  then have "safe_sql n (trim_space s @ q)" using assms pq(1) scan_no_dollar unfolding safe_sql_def by metis
  then show ?thesis
  proof (cases q)
    case (Cons c r)
    then have "\<not> is_digit c" using pq(3) space_chars by auto
    with \<open>safe_sql n (trim_space s @ q)\<close> Cons show ?thesis using safe_sql_prefix by blast
  qed simp
qed

lemma trim_space_keeps:
  assumes "c \<in> set s" "c \<notin> set (concat spaces)" shows "c \<in> set (trim_space s)"
proof -
  obtain p q where pq: "s = p @ trim_space s @ q" "set p \<subseteq> set (concat spaces)" "set q \<subseteq> set (concat spaces)"
    using trim_space_parts by blast
  have "c \<in> set (p @ trim_space s @ q)" using assms(1) pq(1) by simp
  then show ?thesis using pq(2,3) assms(2) by auto
qed

lemma last_index_found: "last_index needle s = Some i \<Longrightarrow> starts_with needle (drop i s) \<and> i \<le> length s"
  by (induction s arbitrary: i) (auto simp: starts_with_def split: if_splits option.splits)

lemma lower_digit: "is_digit c \<Longrightarrow> lower_char c \<noteq> newline"
  by (auto simp: is_digit_def lower_char_def newline_def Let_def)

lemma safe_trim_final_order_by:
  assumes "safe_sql n s" shows "safe_sql n (trim_final_order_by s)"
proof (cases "last_index (newline # ''order by '') (map lower_char (trim_space s))")
  case None
  then show ?thesis using safe_trim_space[OF assms] by (simp add: trim_final_order_by_def)
next
  case (Some i)
  let ?t = "trim_space s"
  have i: "starts_with (newline # ''order by '') (drop i (map lower_char ?t))" using last_index_found[OF Some] by simp
  then obtain c r where d: "drop i ?t = c # r" by (cases "drop i ?t") (auto simp: starts_with_def drop_map)
  with i have "lower_char c = newline" by (simp add: starts_with_def drop_map)
  then have "\<not> is_digit c" using lower_digit by blast
  moreover have "safe_sql n (take i ?t @ c # r)" using safe_trim_space[OF assms] d by (metis append_take_drop_id)
  ultimately have "safe_sql n (take i ?t)" using safe_sql_prefix by blast
  then show ?thesis using Some safe_trim_space by (simp add: trim_final_order_by_def)
qed

section \<open>Texts\<close>

lemma scan_unquote: "scan n st (map unquote s) = scan n st s"
proof (induction s arbitrary: st)
  case (Cons c s)
  have "scan_char n st (unquote c) = scan_char n st c"
    by (auto simp: scan_char_def unquote_def quote_char_def is_digit_def split: scan_state.splits)
  with Cons show ?case by (auto split: option.splits)
qed simp

lemma safe_sql_text: "list_all (safe_sql n) ls \<Longrightarrow> safe_sql n (sql_text ls)"
proof (induction ls)
  case Nil
  then show ?case by (simp add: sql_text_def safe_sql_def)
next
  case (Cons l ls)
  have l: "safe_sql n (map unquote l)" using Cons.prems by (simp add: safe_sql_def scan_unquote)
  show ?case
  proof (cases ls)
    case Nil then show ?thesis using l by (simp add: sql_text_def)
  next
    case (Cons m ms)
    have t: "sql_text (l # ls) = map unquote l @ newline # sql_text ls" using Cons by (simp add: sql_text_def)
    have "safe_sql n (sql_text ls)" using Cons.IH Cons.prems by simp
    then have "safe_sql n (newline # sql_text ls)" by (simp add: safe_sql_def scan_char_def newline_def)
    then show ?thesis using safe_sql_append[OF l] unfolding t by (simp add: newline_def is_digit_def)
  qed
qed

lemmas detail_texts = sales_header_sql_def sales_detail_sql_def purchase_header_sql_def purchase_detail_sql_def
  gross_profit_product_sql_def gross_profit_customer_sql_def stock_balance_sql_def stock_reorder_sql_def
  ar_customer_movement_sql_def ar_debt_receipt_sql_def cash_bank_receipts_sql_def cash_bank_payments_sql_def

lemma safe_detail_texts:
  "safe_sql 2 sales_header_sql" "safe_sql 2 sales_detail_sql" "safe_sql 2 purchase_header_sql"
  "safe_sql 2 purchase_detail_sql" "safe_sql 2 gross_profit_product_sql" "safe_sql 2 gross_profit_customer_sql"
  "safe_sql 2 stock_balance_sql" "safe_sql 0 stock_reorder_sql" "safe_sql 1 ar_customer_movement_sql"
  "safe_sql 2 ar_debt_receipt_sql" "safe_sql 2 cash_bank_receipts_sql" "safe_sql 2 cash_bank_payments_sql"
  unfolding detail_texts by (rule safe_sql_text; code_simp)+

section \<open>Summary queries\<close>

text \<open>A piece without a placeholder, and a hole that is followed by such a piece.\<close>

lemma safe_piece: "CHR ''$'' \<notin> set a \<Longrightarrow> safe_sql n b \<Longrightarrow> safe_sql n (a @ b)"
  by (simp add: safe_sql_def scan_no_dollar)

lemma safe_hole: "safe_sql n x \<Longrightarrow> safe_sql n b \<Longrightarrow> b = [] \<or> \<not> is_digit (hd b) \<Longrightarrow> safe_sql n (x @ b)"
  by (rule safe_sql_append)

lemma safe_last: "CHR ''$'' \<notin> set a \<Longrightarrow> safe_sql n a"
  using scan_no_dollar[of a n "[]"] by (simp add: safe_sql_def)

lemma no_dollar_text: "list_all (\<lambda>l. CHR ''$'' \<notin> set l) ls \<Longrightarrow> CHR ''$'' \<notin> set (sql_text ls)"
proof (induction ls)
  case (Cons l ls)
  have "CHR ''$'' \<notin> set (map unquote l)" using Cons.prems by (auto simp: unquote_def quote_char_def)
  with Cons show ?case by (cases ls) (auto simp: sql_text_def newline_def)
qed (simp add: sql_text_def)

lemma hd_text: "l \<noteq> [] \<Longrightarrow> hd (sql_text (l # ls) @ b) = unquote (hd l)"
  by (cases l; cases ls) (simp_all add: sql_text_def)

lemma hd_text_newline: "hd (sql_text ([] # m # ls) @ b) = newline"
  by (simp add: sql_text_def)

lemma safe_bucket: "safe_sql 2 (summary_bucket_expression p ''doc_date'')"
proof -
  have "safe_sql 2 (sql_text [''date_trunc(`month`, ''] @ ''doc_date'' @ '')::date'')
    \<and> safe_sql 2 (''$1::date + ((('' @ ''doc_date'' @ ''::date - $1::date) / 7) * 7)'') \<and> safe_sql 2 (''doc_date'' @ ''::date'')"
    by code_simp
  then show ?thesis unfolding summary_bucket_expression_def by (auto simp: Let_def split: option.splits prod.splits)
qed

lemma no_dollar_limit: "CHR ''$'' \<notin> set (nat_str summary_row_limit)"
  by code_simp

lemma supplier_ranking_shape: "CHR ''$'' \<notin> set supplier_ranking_sql"
  unfolding supplier_ranking_sql_def by (rule no_dollar_text) code_simp

lemma safe_summary_profit:
  assumes "safe_sql 2 base" "CHR ''$'' \<notin> set f"
  shows "safe_sql 2 (summary_profit_sql base f)"
  unfolding summary_profit_sql_def
  apply (rule safe_piece, rule no_dollar_text, code_simp)
  apply (rule safe_hole, rule safe_trim_final_order_by, rule assms(1))
  apply (rule safe_piece, rule no_dollar_text, code_simp, rule safe_piece, rule assms(2))+
   apply (rule safe_last, rule no_dollar_text, code_simp)
  apply (simp add: hd_text unquote_def is_digit_def)
  done

lemma safe_summary_source:
  assumes "safe_sql n base" "CHR ''$'' \<notin> set (sql_text (l # ls))" "l \<noteq> []" "\<not> is_digit (unquote (hd l))"
  shows "safe_sql n (sql_text [[], ''with summary_source as (''] @ trim_final_order_by base @ sql_text (l # ls))"
proof -
  have "CHR ''$'' \<notin> set (sql_text [[], ''with summary_source as (''])" by (rule no_dollar_text) code_simp
  moreover have "safe_sql n (trim_final_order_by base @ sql_text (l # ls))"
    using safe_hole[OF safe_trim_final_order_by[OF assms(1)] safe_last[OF assms(2)]] hd_text[OF assms(3), of ls "[]"] assms(4) by simp
  ultimately show ?thesis by (rule safe_piece)
qed

lemma safe_summary_stock: "safe_sql n base \<Longrightarrow> safe_sql n (summary_stock_sql base)"
  unfolding summary_stock_sql_def
  by (rule safe_summary_source, assumption, rule no_dollar_text, code_simp, simp, code_simp)

lemma safe_summary_ar_movement: "safe_sql n base \<Longrightarrow> safe_sql n (summary_ar_movement_sql base)"
  unfolding summary_ar_movement_sql_def
  by (rule safe_summary_source, assumption, rule no_dollar_text, code_simp, simp, code_simp)

lemma safe_summary_reorder: "safe_sql 0 summary_reorder_sql"
  unfolding summary_reorder_sql_def
  by (rule safe_summary_source, rule safe_detail_texts, rule no_dollar_text, code_simp, simp, code_simp)

lemma safe_summary_sales: "safe_sql 2 summary_sales_products_sql"
  unfolding summary_sales_products_sql_def
  by (rule safe_summary_source, rule safe_detail_texts, rule no_dollar_text, code_simp, simp, code_simp)

lemma safe_summary_trend:
  assumes "safe_sql 2 base" shows "safe_sql 2 (summary_document_trend_sql base p s)"
proof -
  have sel: "CHR ''$'' \<notin> set (if s then ''select * from trend_rows union all select * from supplier_rows''
         else ''select * from trend_rows'')"
    by simp
  have rank: "CHR ''$'' \<notin> set (if s then supplier_ranking_sql else [])" using supplier_ranking_shape by simp
  show ?thesis
    unfolding summary_document_trend_sql_def Let_def
    apply (rule safe_piece, rule no_dollar_text, code_simp)
    apply (rule safe_hole, rule safe_trim_final_order_by, rule assms)
     apply (rule safe_piece, rule no_dollar_text, code_simp)
     apply (rule safe_hole, rule safe_bucket)
      apply (rule safe_piece, rule no_dollar_text, code_simp)
      apply (rule safe_hole, rule safe_bucket)
       apply (rule safe_piece, rule no_dollar_text, code_simp)
       apply (rule safe_hole, rule safe_bucket)
        apply (rule safe_piece, rule no_dollar_text, code_simp, rule safe_piece, rule rank)
        apply (rule safe_piece, rule no_dollar_text, code_simp, rule safe_piece, rule sel)
        apply (rule safe_piece, rule no_dollar_text, code_simp, rule safe_last, rule no_dollar_limit)
       apply (simp_all add: hd_text hd_text_newline unquote_def newline_def is_digit_def)
    done
qed

lemma safe_summary_cash:
  assumes "safe_sql 2 base" shows "safe_sql 2 (summary_cash_flow_sql base p debt payment)"
proof -
  have piece: "CHR ''$'' \<notin> set (if b then x else y) \<and> CHR ''$'' \<notin> set (if b \<or> c then x else y)"
    if "CHR ''$'' \<notin> set x" "CHR ''$'' \<notin> set y" for b c x y
    using that by simp
  show ?thesis
    unfolding summary_cash_flow_sql_def Let_def
    apply (rule safe_piece, rule no_dollar_text, code_simp)
    apply (rule safe_hole, rule safe_trim_final_order_by, rule assms)
     apply (rule safe_piece, rule no_dollar_text, code_simp, rule safe_piece, simp)+
     apply (rule safe_piece, rule no_dollar_text, code_simp)
     apply (rule safe_hole, rule safe_bucket)
      apply (rule safe_piece, rule no_dollar_text, code_simp, rule safe_piece, simp)+
      apply (rule safe_piece, rule no_dollar_text, code_simp)
      apply (rule safe_hole, rule safe_bucket)
       apply (rule safe_piece, rule no_dollar_text, code_simp)
       apply (rule safe_hole, rule safe_bucket)
        apply (rule safe_piece, rule no_dollar_text, code_simp, rule safe_last, rule no_dollar_limit)
       apply (simp_all add: hd_text hd_text_newline unquote_def newline_def is_digit_def)
    done
qed

section \<open>Chunk queries\<close>

lemma scan_more: "scan n st s = Some st' \<Longrightarrow> n \<le> m \<Longrightarrow> scan m st s = Some st'"
  by (induction s arbitrary: st) (auto simp: scan_char_def split: scan_state.splits option.splits if_splits)

lemma starts_with_split: "starts_with w s \<Longrightarrow> s = w @ drop (length w) s"
  by (metis append_take_drop_id starts_with_def)

lemma scan_replace:
  assumes n: "\<And>st. st \<noteq> Dollar \<Longrightarrow> scan m st needle = Some Plain" "\<And>st. st \<noteq> Dollar \<Longrightarrow> scan m st new = Some Plain"
    and d: "scan m Dollar needle = None"
  shows "scan m st s = Some st' \<Longrightarrow> scan m st (replace_n needle new k s) = Some st'"
proof (induction "length s" arbitrary: s st k rule: less_induct)
  case less
  show ?case
  proof (cases s)
    case Nil then show ?thesis using less.prems by simp
  next
    case (Cons c t)
    show ?thesis
    proof (cases "needle \<noteq> [] \<and> k \<noteq> Some 0 \<and> starts_with needle s")
      case False
      from less.prems Cons obtain st2 where st2: "scan_char m st c = Some st2" "scan m st2 t = Some st'"
        by (auto split: option.splits)
      then have "scan m st2 (replace_n needle new k t) = Some st'" using less.hyps[of t] Cons by simp
      moreover have "replace_n needle new k s = c # replace_n needle new k t" using False Cons by auto
      ultimately show ?thesis using st2(1) by simp
    next
      case True
      let ?r = "drop (length needle) s"
      have s: "s = needle @ ?r" using True starts_with_split by blast
      have "scan m st (needle @ ?r) = Some st'" using less.prems s by simp
      then have nd: "st \<noteq> Dollar" using d by (auto simp: scan_append)
      then have "scan m Plain ?r = Some st'" using \<open>scan m st (needle @ ?r) = Some st'\<close> n(1) by (simp add: scan_append)
      moreover have "length ?r < length s" using True Cons by simp
      ultimately have "scan m Plain (replace_n needle new (map_option (\<lambda>i. i - 1) k) ?r) = Some st'" using less.hyps by blast
      moreover have "replace_n needle new k s = new @ replace_n needle new (map_option (\<lambda>i. i - 1) k) ?r" using True Cons by auto
      ultimately show ?thesis using n(2)[OF nd] by (simp add: scan_append)
    qed
  qed
qed

text \<open>A replacement by a longer text changes every text that has the needle.\<close>

lemma replace_n_step:
  "replace_n needle new k (c # t) = (if needle \<noteq> [] \<and> k \<noteq> Some 0 \<and> starts_with needle (c # t)
    then new @ replace_n needle new (map_option (\<lambda>i. i - 1) k) (drop (length needle) (c # t))
    else c # replace_n needle new k t)"
  by (rule replace_n.simps)

lemma replace_n_grows:
  assumes "length needle < length new"
  shows "length s \<le> length (replace_n needle new k s)"
proof (induction "length s" arbitrary: s k rule: less_induct)
  case less
  show ?case
  proof (cases s)
    case (Cons c t)
    show ?thesis
    proof (cases "needle \<noteq> [] \<and> k \<noteq> Some 0 \<and> starts_with needle s")
      case False
      then have "replace_n needle new k s = c # replace_n needle new k t" using Cons by (simp only: replace_n_step) auto
      then show ?thesis using less[of t k] Cons by simp
    next
      case True
      let ?r = "drop (length needle) s"
      have r: "replace_n needle new k s = new @ replace_n needle new (map_option (\<lambda>i. i - 1) k) ?r"
        using True Cons by (simp only: replace_n_step) auto
      have "length ?r < length s" using True Cons by simp
      then have "length ?r \<le> length (replace_n needle new (map_option (\<lambda>i. i - 1) k) ?r)" by (rule less)
      then show ?thesis unfolding r using assms by simp
    qed
  qed simp
qed

lemma replace_n_changes:
  assumes "length needle < length new" "needle \<noteq> []" "k \<noteq> Some 0"
  shows "length (a @ needle @ b) < length (replace_n needle new k (a @ needle @ b))"
proof (induction a)
  case Nil
  have "\<exists>c t. needle = c # t" using assms(2) by (cases needle) auto
  then obtain c t where c: "needle = c # t" by blast
  have "replace_n needle new k (needle @ b) = new @ replace_n needle new (map_option (\<lambda>i. i - 1) k) b"
    using replace_n_step[of needle new k c "t @ b"] assms(2,3) c by (simp add: starts_with_def)
  then show ?case using add_less_le_mono[OF assms(1) replace_n_grows[OF assms(1), of b "map_option (\<lambda>i. i - 1) k"]] by simp
next
  case (Cons c a)
  let ?s = "c # a @ needle @ b"
  show ?case
  proof (cases "starts_with needle ?s")
    case False
    then have "replace_n needle new k ?s = c # replace_n needle new k (a @ needle @ b)"
      using replace_n_step[of needle new k c "a @ needle @ b"] by simp
    then show ?thesis using Cons by simp
  next
    case True
    let ?r = "drop (length needle) ?s"
    have "replace_n needle new k ?s = new @ replace_n needle new (map_option (\<lambda>i. i - 1) k) ?r"
      using replace_n_step[of needle new k c "a @ needle @ b"] True assms(2,3) by simp
    moreover have "length ?s = length needle + length ?r" using starts_with_split[OF True] by (metis length_append)
    moreover have "length ?r \<le> length (replace_n needle new (map_option (\<lambda>i. i - 1) k) ?r)" by (rule replace_n_grows[OF assms(1)])
    ultimately show ?thesis using assms(1) by simp
  qed
qed

lemma sql_text_line: "l \<in> set ls \<Longrightarrow> \<exists>a b. sql_text ls = a @ map unquote l @ b"
proof (induction ls)
  case (Cons m ls)
  show ?case
  proof (cases "l = m")
    case True
    then show ?thesis by (cases ls) (auto simp: sql_text_def intro: exI[of _ "[]"])
  next
    case False
    then obtain a b where "sql_text ls = a @ map unquote l @ b" "ls \<noteq> []" using Cons by fastforce
    then have "sql_text (m # ls) = (map unquote m @ newline # a) @ map unquote l @ b"
      by (cases ls) (simp_all add: sql_text_def)
    then show ?thesis by blast
  qed
qed simp

lemma needle_in_line: "pre @ needle @ sfx \<in> set ls \<Longrightarrow> map unquote needle = needle \<Longrightarrow> \<exists>a b. sql_text ls = a @ needle @ b"
  using sql_text_line[of "pre @ needle @ sfx" ls] by (metis append.assoc map_append)

lemma stock_needle_found: "\<exists>a b. stock_balance_sql = a @ stock_needle @ b"
proof -
  have "map unquote stock_needle = stock_needle" unfolding stock_needle_def by code_simp
  then show ?thesis unfolding stock_balance_sql_def
    by (rule needle_in_line[where pre = "''  ''" and sfx = "[]", rotated]) (simp add: stock_needle_def)
qed

lemma ar_needle_found: "\<exists>a b. ar_customer_movement_sql = a @ ar_needle @ b"
proof -
  have "map unquote ar_needle = ar_needle" unfolding ar_needle_def by code_simp
  then show ?thesis unfolding ar_customer_movement_sql_def
    by (rule needle_in_line[where pre = "''  ''" and sfx = "[]", rotated]) (simp add: ar_needle_def)
qed

lemma safe_replace:
  assumes "safe_sql n s" "n \<le> m" "scan m Plain needle = Some Plain" "scan m Index needle = Some Plain" "scan m Dollar needle = None"
    "scan m Plain new = Some Plain" "scan m Index new = Some Plain"
  shows "safe_sql m (replace_n needle new k s)"
proof -
  have "scan m st needle = Some Plain \<and> scan m st new = Some Plain" if "st \<noteq> Dollar" for st
    using that assms by (cases st) auto
  then have "scan m Plain (replace_n needle new k s) = Some st'" if "scan n Plain s = Some st'" for st'
    using scan_replace[of m needle new Plain s st'] scan_more[OF that assms(2)] assms(5) by blast
  with assms(1) show ?thesis unfolding safe_sql_def by blast
qed
lemma chunk_bases:
  "safe_sql 3 (replace_n stock_needle stock_boundary (Some 1) stock_balance_sql)"
  "replace_n stock_needle stock_boundary (Some 1) stock_balance_sql \<noteq> stock_balance_sql"
  "safe_sql 2 (replace_n ar_needle (ar_needle @ '' and t.cust_code = any($2)'') None ar_customer_movement_sql)"
  "replace_n ar_needle (ar_needle @ '' and t.cust_code = any($2)'') None ar_customer_movement_sql \<noteq> ar_customer_movement_sql"
proof -
  show "safe_sql 3 (replace_n stock_needle stock_boundary (Some 1) stock_balance_sql)"
    by (rule safe_replace[OF safe_detail_texts(7)]) code_simp+
  show "safe_sql 2 (replace_n ar_needle (ar_needle @ '' and t.cust_code = any($2)'') None ar_customer_movement_sql)"
    by (rule safe_replace[OF safe_detail_texts(9)]) code_simp+
  have s: "length stock_needle < length stock_boundary" "stock_needle \<noteq> []" by (simp_all add: stock_needle_def stock_boundary_def)
  obtain a b where "stock_balance_sql = a @ stock_needle @ b" using stock_needle_found by blast
  then show "replace_n stock_needle stock_boundary (Some 1) stock_balance_sql \<noteq> stock_balance_sql"
    using replace_n_changes[OF s, of "Some 1" a b] by (metis nat_less_le option.inject zero_neq_one)
  have r: "length ar_needle < length (ar_needle @ '' and t.cust_code = any($2)'')" "ar_needle \<noteq> []" by (simp_all add: ar_needle_def)
  obtain c d where "ar_customer_movement_sql = c @ ar_needle @ d" using ar_needle_found by blast
  then show "replace_n ar_needle (ar_needle @ '' and t.cust_code = any($2)'') None ar_customer_movement_sql \<noteq> ar_customer_movement_sql"
    using replace_n_changes[OF r, of None c d] by (metis nat_less_le option.distinct(1))
qed

section \<open>Every plan renders\<close>

definition renders :: "query \<Rightarrow> bool" where
  "renders q \<longleftrightarrow> (\<exists>ls. length ls = length (args q) \<and> (\<forall>i < length (args q). postgres_literal (args q ! i) = Inr (ls ! i))
     \<and> render_sql q = Inr (fill ls (sql q)))"

lemma literal_texts:
  "list_all (\<lambda>a. \<exists>s. a = ArgString s \<or> (\<exists>vs. a = ArgStrings vs)) as
   \<Longrightarrow> \<exists>ls. length ls = length as \<and> (\<forall>i < length as. postgres_literal (as ! i) = Inr (ls ! i))"
proof (induction as)
  case (Cons a as)
  then obtain ls where ls: "length ls = length as" "\<forall>i < length as. postgres_literal (as ! i) = Inr (ls ! i)" by auto
  have "\<exists>l. postgres_literal a = Inr l"
    using Cons.prems by (auto simp: postgres_literal_def split: list.splits)
  then obtain l where "postgres_literal a = Inr l" by blast
  with ls show ?case by (intro exI[of _ "l # ls"]) (auto simp: nth_Cons split: nat.splits)
qed simp

lemma rendersI:
  assumes "safe_sql n t" "n \<le> length as" "list_all (\<lambda>a. \<exists>s. a = ArgString s \<or> (\<exists>vs. a = ArgStrings vs)) as"
    "c \<in> set t" "c \<notin> set (concat spaces)"
  shows "renders (step_query (step name t as))"
proof -
  obtain ls where ls: "length ls = length as" "\<forall>i < length as. postgres_literal (as ! i) = Inr (ls ! i)"
    using literal_texts[OF assms(3)] by blast
  have "trim_space t \<noteq> []" using trim_space_keeps[OF assms(4,5)] by auto
  then show ?thesis using ls assms(1,2) render_safe[of n "step_query (step name t as)" ls]
    unfolding renders_def step_def by auto
qed

lemma s_no_space: "CHR ''s'' \<notin> set (concat spaces)"
  by code_simp

lemma text_contains: "l \<in> set ls \<Longrightarrow> c \<in> set l \<Longrightarrow> c \<noteq> CHR 0x60 \<Longrightarrow> c \<in> set (sql_text ls @ rest)"
  using sql_text_line[of l ls] by (auto simp: unquote_def intro!: image_eqI[where x = c])

lemma summary_head: "CHR ''s'' \<in> set (sql_text ([] # ''with summary_source as ('' # ls) @ rest)"
  by (rule text_contains[where l = "''with summary_source as (''"]) simp_all

lemma detail_texts_contain_s:
  "list_all (\<lambda>t. CHR ''s'' \<in> set t) [sales_header_sql, sales_detail_sql, purchase_header_sql, purchase_detail_sql,
     gross_profit_product_sql, gross_profit_customer_sql, stock_balance_sql, stock_reorder_sql, ar_customer_movement_sql,
     ar_debt_receipt_sql, cash_bank_receipts_sql, cash_bank_payments_sql]"
proof -
  have s: "list_ex (\<lambda>l. CHR ''s'' \<in> set l) ls \<Longrightarrow> CHR ''s'' \<in> set (sql_text ls)" for ls
    using text_contains[of _ ls "CHR ''s''" "[]"] by (auto simp: list_ex_iff)
  show ?thesis
    unfolding list.pred_inject detail_texts by (intro conjI s TrueI; code_simp)
qed

lemmas renders_detail = rendersI[OF _ _ _ _ s_no_space]

lemma other_key_unknown: "definition_for (OtherKey x) = None"
  by (simp add: definition_for_None keys_def ordered_definitions_def)

lemma detail_steps_render:
  assumes "definition_for k \<noteq> None"
  shows "detail_steps k p \<noteq> [] \<and> (\<forall>s \<in> set (detail_steps k p). renders (step_query s))"
  using assms detail_texts_contain_s
  by (cases k) (auto simp: other_key_unknown detail_steps_def date_range_args_def intro!: renders_detail safe_detail_texts)

lemma summary_steps_render:
  assumes "definition_for k \<noteq> None"
  shows "summary_steps k p \<noteq> [] \<and> (\<forall>s \<in> set (summary_steps k p). renders (step_query s))"
proof -
  have s: "CHR ''s'' \<in> set (summary_document_trend_sql b p r)" "CHR ''s'' \<in> set summary_sales_products_sql"
    "CHR ''s'' \<in> set (summary_profit_sql b f)" "CHR ''s'' \<in> set (summary_stock_sql b)" "CHR ''s'' \<in> set summary_reorder_sql"
    "CHR ''s'' \<in> set (summary_ar_movement_sql b)" "CHR ''s'' \<in> set (summary_cash_flow_sql b p r q)" for b r f q
    unfolding summary_document_trend_sql_def summary_sales_products_sql_def summary_profit_sql_def summary_stock_sql_def
      summary_reorder_sql_def summary_ar_movement_sql_def summary_cash_flow_sql_def Let_def
    by (rule summary_head)+
  show ?thesis using assms
    by (cases k) (auto simp: other_key_unknown summary_steps_def date_range_args_def intro!: renders_detail safe_detail_texts s
      safe_summary_trend safe_summary_sales safe_summary_profit safe_summary_stock safe_summary_reorder safe_summary_ar_movement
      safe_summary_cash)
qed


text \<open>A chunk query plan is refused only without unit keys or for another report than the two that
  are chunked: the boundary is always found in the query.  The query of the plan renders.\<close>

theorem chunk_plans_render:
  "case chunk_query_plan k p projection unit_keys of
     Inl e \<Rightarrow> unit_keys = [] \<or> k \<noteq> StockBalance \<and> k \<noteq> ARCustomerMovement
   | Inr plan \<Rightarrow> plan_steps plan \<noteq> [] \<and> (\<forall>s \<in> set (plan_steps plan). renders (step_query s))"
proof (cases "unit_keys = []")
  case False
  have s: "CHR ''s'' \<in> set (summary_stock_sql b)" "CHR ''s'' \<in> set (summary_ar_movement_sql b)" for b
    unfolding summary_stock_sql_def summary_ar_movement_sql_def by (rule summary_head)+
  have c: "CHR ''s'' \<in> set (replace_n needle new n t)"
    if "CHR ''s'' \<in> set t" "CHR ''s'' \<in> set new" for needle new n t
    using that by (induction needle new n t rule: replace_n.induct) auto
  let ?stock = "replace_n stock_needle stock_boundary (Some 1) stock_balance_sql"
    and ?ar = "replace_n ar_needle (ar_needle @ '' and t.cust_code = any($2)'') None ar_customer_movement_sql"
  have in_base: "CHR ''s'' \<in> set ?stock" "CHR ''s'' \<in> set ?ar"
    using detail_texts_contain_s by (auto intro!: c simp: stock_boundary_def)
  have "renders (step_query (step ''rows'' (if projection = ResultSummary then summary_stock_sql ?stock else ?stock)
      [ArgString (date_from p), ArgString (date_to p), ArgStrings unit_keys]))"
    by (rule renders_detail[where n = 3]) (use chunk_bases(1) safe_summary_stock s in_base in auto)
  moreover have "renders (step_query (step ''rows'' (if projection = ResultSummary then summary_ar_movement_sql ?ar else ?ar)
      [ArgString (date_to p), ArgStrings unit_keys]))"
    by (rule renders_detail[where n = 2]) (use chunk_bases(3) safe_summary_ar_movement s in_base in auto)
  ultimately show ?thesis using False chunk_bases(2,4)
    by (cases k) (simp_all add: chunk_query_plan_def Let_def del: One_nat_def)
qed (simp add: chunk_query_plan_def)

section \<open>Examples\<close>

definition sample_quarter :: period where
  "sample_quarter = \<lparr>preset = Custom, date_from = ''2026-01-01'', date_to = ''2026-03-31''\<rparr>"

lemma sales_approved: "definition_for SalesGoodsServices \<noteq> None"
  by (simp add: definition_for_None keys_eq)


lemma chunk_plans_render_witness:
  "\<exists>plan. chunk_query_plan StockBalance sample_quarter ResultDetail [''A'', ''B''] = Inr plan
     \<and> list_all (\<lambda>s. renders (step_query s)) (plan_steps plan)"
  using chunk_plans_render[where k = StockBalance and p = sample_quarter and projection = ResultDetail and unit_keys = "[''A'', ''B'']"]
  by (auto simp: list_all_iff split: sum.splits)

end
