(* ===== verification/TrendBuckets.thy ===== *)
theory TrendBuckets
  imports QueryPlan
begin

text \<open>
  The trend of a summary run: the database groups by the expression of summaryBucketExpression
  (report/summary_query_plan.go), the dashboard groups what it gets once more with dashboardBucketKey
  (report/dashboard_builder.go).  sql_bucket is the date that PostgreSQL gives for the expression.
\<close>

section \<open>What the database groups by\<close>

definition sql_bucket :: "day \<Rightarrow> day \<Rightarrow> day \<Rightarrow> day" where
  "sql_bucket from to d = (case bucket_mode_of from to of
     BucketMonth \<Rightarrow> civil_day (year_of d) (month_of d) 1
   | BucketWeek \<Rightarrow> from + (d - from) div 7 * 7
   | BucketDay \<Rightarrow> d)"

definition bucketed :: "day \<Rightarrow> day \<Rightarrow> row \<Rightarrow> row" where
  "bucketed from to r = (case parse_date (fld r ''doc_date'') of
     None \<Rightarrow> r | Some d \<Rightarrow> r(''doc_date'' \<mapsto> format_date (sql_bucket from to d)))"

lemma month_first_le: "civil_day (year_of d) (month_of d) 1 \<le> d"
  using civil_day_of[of d] mday_bounds[of d] by (simp add: civil_day_def)

lemma month_start_civil:
  "year_of (civil_day (year_of d) (month_of d) 1) = year_of d" "month_of (civil_day (year_of d) (month_of d) 1) = month_of d"
proof -
  have "valid_civil (year_of d) (month_of d) 1" using valid_civil_of[of d] by (auto simp: valid_civil_def)
  then show "year_of (civil_day (year_of d) (month_of d) 1) = year_of d" "month_of (civil_day (year_of d) (month_of d) 1) = month_of d"
    by (simp_all add: civil_of_day)
qed

lemma month_start_after:
  assumes "mday_of from = 1" "from \<le> d" shows "from \<le> civil_day (year_of d) (month_of d) 1"
proof (rule ccontr)
  assume "\<not> from \<le> civil_day (year_of d) (month_of d) 1"
  then have "civil_day (year_of d) (month_of d) 1 < civil_day (year_of from) (month_of from) 1"
    using civil_day_of[of "from"] assms(1) by simp
  moreover have v: "valid_civil (year_of d) (month_of d) 1" "valid_civil (year_of from) (month_of from) 1" "valid_civil (year_of d) (month_of d) (mday_of d)"
    using valid_civil_of[of d] valid_civil_of[of "from"] by (auto simp: valid_civil_def)
  ultimately have "year_of d < year_of from \<or> year_of d = year_of from \<and> month_of d < month_of from"
    using civil_day_less_iff by auto
  then have "civil_day (year_of d) (month_of d) (mday_of d) < civil_day (year_of from) (month_of from) 1"
    using civil_day_less_iff[OF v(3,2)] by auto
  then show False using assms civil_day_of[of d] civil_day_of[of "from"] by simp
qed

lemma bucket_in_range:
  assumes "date_in_range a" "a \<le> b" "b \<le> c" "date_in_range c" shows "date_in_range b"
proof -
  have "year_of a \<le> year_of b" if "a \<le> b" for a b
  proof (rule ccontr)
    assume "\<not> ?thesis"
    then have "days_before_year (year_of b + 1) \<le> days_before_year (year_of a)" by (intro days_before_year_mono) simp
    then show False using year_of_bounds[of a] year_of_bounds[of b] that by linarith
  qed
  then show ?thesis using assms unfolding date_in_range_def by (meson order_trans)
qed

lemma bucket_expression_mode:
  assumes "parse_date (date_from p) = Some from" "parse_date (date_to p) = Some to" "from \<le> to"
  shows "summary_bucket_expression p f = (case bucket_mode_of from to of
     BucketMonth \<Rightarrow> sql_text [''date_trunc(`month`, ''] @ f @ '')::date''
   | BucketWeek \<Rightarrow> ''$1::date + ((('' @ f @ ''::date - $1::date) / 7) * 7)''
   | BucketDay \<Rightarrow> f @ ''::date'')"
  using assms by (simp add: summary_bucket_expression_def bucket_mode_of_def Let_def)

section \<open>The second grouping keeps the buckets\<close>

lemma sql_bucket_same:
  assumes "from \<le> d" "d \<le> to" "bucket_mode_of from to = BucketMonth \<longrightarrow> mday_of from = 1"
  shows "from \<le> sql_bucket from to d \<and> sql_bucket from to d \<le> d
    \<and> dashboard_bucket_key from (sql_bucket from to d) (bucket_mode_of from to) = dashboard_bucket_key from d (bucket_mode_of from to)"
proof (cases "bucket_mode_of from to")
  case BucketDay
  then show ?thesis using assms by (simp add: sql_bucket_def)
next
  case BucketMonth
  then show ?thesis using assms month_first_le[of d] month_start_after[of "from" d] month_start_civil[of d]
    by (simp add: sql_bucket_def dashboard_bucket_key_def format_month_def)
next
  case BucketWeek
  then have "to - from \<le> 186" by (auto simp: bucket_mode_of_def days_between_def Let_def split: if_splits)
  moreover have "0 \<le> (d - from) div 7 * 7" "(d - from) div 7 * 7 \<le> d - from" using assms(1) by simp_all
  ultimately show ?thesis using assms BucketWeek
    by (simp add: sql_bucket_def dashboard_bucket_key_def days_between_def)
qed

lemma bucketed_date:
  assumes "parse_date (fld r ''doc_date'') = Some d" "date_in_range (sql_bucket from to d)"
  shows "parse_date (fld (bucketed from to r) ''doc_date'') = Some (sql_bucket from to d)"
  using assms by (simp add: bucketed_def fld_def)

lemma bucketed_field: "field \<noteq> ''doc_date'' \<Longrightarrow> fld (bucketed from to r) field = fld r field"
  by (simp add: bucketed_def fld_def split: option.split)

lemma add_rows_bucketed:
  assumes "date_in_range from" "date_in_range to" "bucket_mode_of from to = BucketMonth \<longrightarrow> mday_of from = 1"
    "field \<noteq> ''doc_date''" "list_all (in_trend from to) rows"
  shows "add_rows from to (bucket_mode_of from to) indexes field (map (bucketed from to) rows) vs
    = add_rows from to (bucket_mode_of from to) indexes field rows vs"
  using assms(5)
proof (induction rows arbitrary: vs)
  case (Cons r rows)
  then obtain d where d: "parse_date (fld r ''doc_date'') = Some d" "from \<le> d" "d \<le> to"
    by (auto simp: in_trend_def split: option.splits)
  note b = sql_bucket_same[OF d(2,3) assms(3)]
  have "date_in_range (sql_bucket from to d)" using bucket_in_range[OF assms(1) _ _ assms(2)] b d by (meson order_trans)
  note e = bucketed_date[OF d(1) this]
  show ?case using Cons e d b
    by (cases "indexes (dashboard_bucket_key from d (bucket_mode_of from to))") (simp_all add: bucketed_field[OF assms(4)])
qed simp


section \<open>The first month of a long period\<close>

lemma month_start_before:
  assumes "year_of d = year_of from" "month_of d = month_of from" "mday_of from \<noteq> 1"
  shows "civil_day (year_of d) (month_of d) 1 < from"
  using assms civil_day_of[of "from"] mday_bounds[of "from"] by (simp add: civil_day_def)

lemma aggregate_first_row:
  assumes "in_trend from to r" "decimal (fld r field) = Inr x"
    "parse_date (date_from p) = Some from" "parse_date (date_to p) = Some to"
    "aggregate_period_rows p (r # rows) field = Inr (vs', ls')" "aggregate_period_rows p rows field = Inr (vs, ls)"
  shows "sum_list vs' = sum_list vs + x"
proof -
  let ?mode = "bucket_mode_of from to"
  obtain labels indexes where li: "period_buckets from to ?mode = (labels, indexes)" by fastforce
  have r: "add_rows from to ?mode indexes field (r # rows) (map (\<lambda>_. 0) labels) = Inr vs'"
    and n: "add_rows from to ?mode indexes field rows (map (\<lambda>_. 0) labels) = Inr vs"
    using assms(3-6) li by (auto simp: aggregate_period_rows_def Let_def split: if_splits)
  have ix: "\<exists>i < length (map (\<lambda>_. 0::rat) labels). indexes (dashboard_bucket_key from d ?mode) = Some i" if "from \<le> d" "d \<le> to" for d
    using period_buckets_ok(2)[OF li that] by simp
  obtain xs' where xs': "column (filter (in_trend from to) (r # rows)) field xs'" "sum_list vs' = sum_list (map (\<lambda>_. 0) labels) + sum_list xs'"
    using add_rows_sum[OF ix r] by blast
  obtain xs where xs: "column (filter (in_trend from to) rows) field xs" "sum_list vs = sum_list (map (\<lambda>_. 0) labels) + sum_list xs"
    using add_rows_sum[OF ix n] by blast
  have "xs' = x # xs" using xs'(1) xs(1) assms(1,2) column_unique by (cases xs') auto
  then show ?thesis using xs'(2) xs(2) by simp
qed

text \<open>C32: In a period of more than 186 days that does not begin on the first day of a month, the bucket of
  the database for the first month lies before the period, and the dashboard leaves its row out: the
  documents of that month are missing from the trend of a summary run, although the dashboard of the
  documents themselves would count their amount.\<close>

theorem first_month_dropped:
  assumes "parse_date (date_from p) = Some from" "parse_date (date_to p) = Some to"
    "bucket_mode_of from to = BucketMonth" "mday_of from \<noteq> 1" "in_trend from to r"
    "parse_date (fld r ''doc_date'') = Some d" "year_of d = year_of from" "month_of d = month_of from"
  shows "aggregate_period_rows p (bucketed from to r # rows) field = aggregate_period_rows p rows field
    \<and> (\<forall>x vs' ls' vs ls. decimal (fld r field) = Inr x \<and> aggregate_period_rows p (r # rows) field = Inr (vs', ls') \<and> aggregate_period_rows p rows field = Inr (vs, ls)
         \<longrightarrow> sum_list vs' = sum_list vs + x)"
proof
  have b: "sql_bucket from to d < from" using month_start_before[OF assms(7,8,4)] assms(3) by (simp add: sql_bucket_def)
  have "date_in_range (sql_bucket from to d)"
    using month_start_civil(1)[of d] parse_date_Some(1)[OF assms(6)] assms(3) by (simp add: sql_bucket_def date_in_range_def)
  with b show "aggregate_period_rows p (bucketed from to r # rows) field = aggregate_period_rows p rows field"
    using bucketed_date[OF assms(6)] assms(1,2) by (simp add: aggregate_period_rows_def Let_def)
qed (use aggregate_first_row[OF assms(5) _ assms(1,2)] in blast)

section \<open>Examples\<close>

definition long_year :: period where
  "long_year = \<lparr>preset = Custom, date_from = ''2025-01-15'', date_to = ''2025-12-31''\<rparr>"
definition january_row :: row where
  "january_row = [''doc_date'' \<mapsto> ''2025-01-20'', ''total_amount'' \<mapsto> ''100.00'']"
definition quarter :: period where
  "quarter = \<lparr>preset = Custom, date_from = ''2025-01-15'', date_to = ''2025-04-14''\<rparr>"

lemma long_year_days:
  "parse_date (date_from long_year) = Some 739265" "parse_date (date_to long_year) = Some 739615"
  "bucket_mode_of 739265 739615 = BucketMonth" "parse_date (date_to quarter) = Some 739354"
  by code_simp+


lemma first_month_dropped_witness:
  "aggregate_period_rows long_year [bucketed 739265 739615 january_row] ''total_amount''
   = aggregate_period_rows long_year [] ''total_amount''"
proof (rule conjunct1[OF first_month_dropped])
  show "parse_date (date_from long_year) = Some 739265" "parse_date (date_to long_year) = Some 739615" by (rule long_year_days)+
  show "bucket_mode_of 739265 739615 = BucketMonth" by code_simp
  show "mday_of 739265 \<noteq> 1" by code_simp
  show "in_trend 739265 739615 january_row" by code_simp
  show "parse_date (fld january_row ''doc_date'') = Some 739270" by code_simp
  show "year_of 739270 = year_of 739265" "month_of 739270 = month_of 739265" by code_simp+
qed

end
