(* ===== verification/Endpoint.thy ===== *)
theory Endpoint
  imports Generations "HOL-Library.Word"
begin

unbundle bit_operations_syntax

text \<open>
  The endpoints of the customers' SOAP services (sml/endpoint.go): which address a request may be
  sent to.  Addresses are words, as in net/netip.  Parsing of a URL and of an address, the resolver,
  and lower-casing of a text are the parameters of endpoint_lib.
\<close>

section \<open>Addresses (net/netip)\<close>

text \<open>NoAddr is the zero Addr, which is not valid.  An IPv6 address may have a zone.\<close>

datatype ip_addr = NoAddr | V4 "32 word" | V6 "128 word" string

definition is_4in6 :: "128 word \<Rightarrow> bool" where "is_4in6 w \<longleftrightarrow> drop_bit 32 w = 0xFFFF"

fun unmap :: "ip_addr \<Rightarrow> ip_addr" where
  "unmap (V6 w zone) = (if is_4in6 w then V4 (ucast w) else V6 w zone)"
| "unmap a = a"

text \<open>The predicates below are asked about unmapped addresses only.\<close>

fun is_unspecified :: "ip_addr \<Rightarrow> bool" where
  "is_unspecified (V4 w) = (w = 0)"
| "is_unspecified (V6 w zone) = (w = 0 \<and> zone = [])"
| "is_unspecified NoAddr = False"

fun is_loopback :: "ip_addr \<Rightarrow> bool" where
  "is_loopback (V4 w) = (drop_bit 24 w = 127)"
| "is_loopback (V6 w zone) = (w = 1)"
| "is_loopback NoAddr = False"

fun is_multicast :: "ip_addr \<Rightarrow> bool" where
  "is_multicast (V4 w) = (drop_bit 24 w AND 0xF0 = 0xE0)"
| "is_multicast (V6 w zone) = (drop_bit 120 w = 0xFF)"
| "is_multicast NoAddr = False"

fun is_link_local_unicast :: "ip_addr \<Rightarrow> bool" where
  "is_link_local_unicast (V4 w) = (drop_bit 16 w = 0xA9FE)"
| "is_link_local_unicast (V6 w zone) = (drop_bit 112 w AND 0xFFC0 = 0xFE80)"
| "is_link_local_unicast NoAddr = False"

fun is_link_local_multicast :: "ip_addr \<Rightarrow> bool" where
  "is_link_local_multicast (V4 w) = (drop_bit 8 w = 0xE00000)"
| "is_link_local_multicast (V6 w zone) = (drop_bit 112 w AND 0xFF0F = 0xFF02)"
| "is_link_local_multicast NoAddr = False"

fun is_private :: "ip_addr \<Rightarrow> bool" where
  "is_private (V4 w) = (drop_bit 24 w = 10 \<or> (drop_bit 24 w = 172 \<and> drop_bit 16 w AND 0xF0 = 16) \<or> drop_bit 16 w = 0xC0A8)"
| "is_private (V6 w zone) = (drop_bit 120 w AND 0xFE = 0xFC)"
| "is_private NoAddr = False"

fun is_global_unicast :: "ip_addr \<Rightarrow> bool" where
  "is_global_unicast NoAddr = False"
| "is_global_unicast (V4 w) = (w \<noteq> 0 \<and> w \<noteq> 0xFFFFFFFF \<and> \<not> is_loopback (V4 w) \<and> \<not> is_multicast (V4 w)
     \<and> \<not> is_link_local_unicast (V4 w))"
| "is_global_unicast (V6 w zone) = (\<not> is_unspecified (V6 w zone) \<and> \<not> is_loopback (V6 w zone) \<and> \<not> is_multicast (V6 w zone)
     \<and> \<not> is_link_local_unicast (V6 w zone))"

record ip_prefix =
  px_addr :: ip_addr
  px_bits :: nat

definition prefix_contains :: "ip_prefix \<Rightarrow> ip_addr \<Rightarrow> bool" where
  "prefix_contains p a = (case (px_addr p, a) of
     (V4 b, V4 w) \<Rightarrow> px_bits p \<le> 32 \<and> drop_bit (32 - px_bits p) (w XOR b) = 0
   | (V6 b _, V6 w zone) \<Rightarrow> px_bits p \<le> 128 \<and> zone = [] \<and> drop_bit (128 - px_bits p) (w XOR b) = 0
   | _ \<Rightarrow> False)"

section \<open>The policy\<close>

record endpoint_url =
  eu_scheme :: string
  eu_host :: string
  eu_hostname :: string
  eu_port :: string
  eu_path :: string
  eu_has_user :: bool
  eu_fragment :: string
  eu_raw_query :: string
  eu_raw_path :: string

record endpoint_lib =
  lib_url_parse :: "string \<Rightarrow> endpoint_url option"
  lib_parse_addr :: "string \<Rightarrow> ip_addr option"
  lib_lookup :: "string \<Rightarrow> ip_addr list option"
  lib_lower :: "string \<Rightarrow> string"

record endpoint_policy =
  ep_prefixes :: "ip_prefix list"
  ep_hosts :: "string list"
  ep_public :: bool
  ep_ports :: "nat list"

datatype endpoint_error = EndpointInvalid | EndpointScheme | EndpointUser | EndpointQuery | EndpointNoAllowlist
  | EndpointPort | EndpointLookup | EndpointBadAddress | EndpointAddress

record resolved_endpoint =
  re_url :: endpoint_url
  re_ip :: ip_addr

definition metadata_v4 :: "32 word" where "metadata_v4 = 0xA9FEA9FE"
definition metadata_v6 :: "128 word" where "metadata_v6 = 0xFD000EC2000000000000000000000254"

definition always_blocked :: "ip_addr \<Rightarrow> bool" where
  "always_blocked a \<longleftrightarrow> a = NoAddr \<or> is_unspecified a \<or> is_multicast a \<or> is_link_local_unicast a
     \<or> is_link_local_multicast a \<or> a = V4 metadata_v4 \<or> a = V6 metadata_v6 []"

definition default_port :: "endpoint_url \<Rightarrow> string" where
  "default_port u = (if eu_port u = [] then (if eu_scheme u = ''https'' then ''443'' else ''80'') else eu_port u)"

text \<open>strconv.ParseUint with base 10 and 16 bits.\<close>

definition parse_port :: "string \<Rightarrow> nat option" where
  "parse_port s = (if s \<noteq> [] \<and> list_all is_digit s \<and> digits_val s \<le> 65535 then Some (digits_val s) else None)"

lemma parse_port_code [code]:
  "parse_port s = (if s \<noteq> [] \<and> list_all is_digit s \<and> int (digits_val s) \<le> 65535 then Some (digits_val s) else None)"
  by (simp add: parse_port_def)

definition allowed_port :: "endpoint_policy \<Rightarrow> nat \<Rightarrow> bool" where
  "allowed_port pol port \<longleftrightarrow> ep_ports pol = [] \<or> port \<in> set (ep_ports pol)"

definition trim_dot :: "string \<Rightarrow> string" where
  "trim_dot s = (if s \<noteq> [] \<and> last s = CHR ''.'' then butlast s else s)"

definition allowed_host :: "endpoint_lib \<Rightarrow> endpoint_policy \<Rightarrow> string \<Rightarrow> bool" where
  "allowed_host lib pol host \<longleftrightarrow>
     list_ex (\<lambda>a. lib_lower lib (trim_dot host) = lib_lower lib (trim_dot a)) (ep_hosts pol)"

definition allowed_address :: "endpoint_policy \<Rightarrow> ip_addr \<Rightarrow> bool" where
  "allowed_address pol a = list_ex (\<lambda>p. prefix_contains p a) (ep_prefixes pol)"

definition safe_public :: "ip_addr \<Rightarrow> bool" where
  "safe_public a \<longleftrightarrow> is_global_unicast a \<and> \<not> is_private a \<and> \<not> is_loopback a \<and> \<not> always_blocked a"

definition address_permitted :: "endpoint_lib \<Rightarrow> endpoint_policy \<Rightarrow> string \<Rightarrow> ip_addr \<Rightarrow> bool" where
  "address_permitted lib pol host a \<longleftrightarrow> \<not> always_blocked a
     \<and> (allowed_address pol a \<or> allowed_host lib pol host \<and> safe_public a \<or> ep_public pol \<and> safe_public a)"

text \<open>path.Clean of a rooted path.\<close>

fun split_slash :: "string \<Rightarrow> string list" where
  "split_slash [] = [[]]"
| "split_slash (c # s) = (if c = CHR ''/'' then [] # split_slash s
     else (case split_slash s of [] \<Rightarrow> [[c]] | seg # segs \<Rightarrow> (c # seg) # segs))"

definition clean_step :: "string list \<Rightarrow> string \<Rightarrow> string list" where
  "clean_step done_segs seg = (if seg = [] \<or> seg = ''.'' then done_segs
     else if seg = ''..'' then (if done_segs = [] then [] else butlast done_segs)
     else done_segs @ [seg])"

definition clean_path :: "string \<Rightarrow> string" where
  "clean_path s = CHR ''/'' # join_with ''/'' (foldl clean_step [] (split_slash s))"

definition default_path :: string where "default_path = ''/SMLJavaWebService/DotNetFrameWork''"

definition normalize_path :: "endpoint_lib \<Rightarrow> string \<Rightarrow> string" where
  "normalize_path lib raw = (let cleaned = clean_path (if starts_with ''/'' raw then drop 1 raw else raw);
       low = lib_lower lib cleaned
     in if low = ''/'' \<or> low = ''/.'' then default_path
        else if low = ''/smljavawebservice'' then default_path else cleaned)"

definition endpoint_addresses :: "endpoint_lib \<Rightarrow> string \<Rightarrow> endpoint_error + ip_addr list" where
  "endpoint_addresses lib host = (case lib_parse_addr lib host of
     Some a \<Rightarrow> Inr [unmap a]
   | None \<Rightarrow> (case lib_lookup lib host of
       None \<Rightarrow> Inl EndpointLookup
     | Some as \<Rightarrow> if as = [] then Inl EndpointLookup
         else if NoAddr \<in> set as then Inl EndpointBadAddress
         else Inr (map unmap as)))"

definition resolve_endpoint :: "endpoint_lib \<Rightarrow> endpoint_policy \<Rightarrow> string \<Rightarrow> endpoint_error + resolved_endpoint" where
  "resolve_endpoint lib pol raw = (case lib_url_parse lib raw of
     None \<Rightarrow> Inl EndpointInvalid
   | Some u \<Rightarrow>
     if eu_host u = [] then Inl EndpointInvalid
     else if eu_scheme u \<noteq> ''http'' \<and> eu_scheme u \<noteq> ''https'' then Inl EndpointScheme
     else if eu_has_user u \<or> eu_fragment u \<noteq> [] then Inl EndpointUser
     else if eu_raw_query u \<noteq> [] \<or> eu_raw_path u \<noteq> [] then Inl EndpointQuery
     else if ep_prefixes pol = [] \<and> ep_hosts pol = [] \<and> \<not> ep_public pol then Inl EndpointNoAllowlist
     else (case parse_port (default_port u) of
       None \<Rightarrow> Inl EndpointPort
     | Some port \<Rightarrow>
       if \<not> allowed_port pol port then Inl EndpointPort
       else bindr (endpoint_addresses lib (eu_hostname u)) (\<lambda>as.
         if list_ex (\<lambda>a. \<not> address_permitted lib pol (eu_hostname u) a) as then Inl EndpointAddress
         else Inr \<lparr>re_url = u\<lparr>eu_path := normalize_path lib (eu_path u)\<rparr>, re_ip = hd as\<rparr>)))"

text \<open>CanonicalHostKey: the key under which the runs of a host are counted.\<close>

definition join_host_port :: "string \<Rightarrow> string \<Rightarrow> string" where
  "join_host_port host port = (if CHR '':'' \<in> set host then ''['' @ host @ '']:'' @ port else host @ '':'' @ port)"

definition canonical_host_key :: "codec \<Rightarrow> endpoint_lib \<Rightarrow> string \<Rightarrow> endpoint_error + string" where
  "canonical_host_key cd lib raw = (case lib_url_parse lib raw of
     None \<Rightarrow> Inl EndpointInvalid
   | Some u \<Rightarrow> if eu_host u = [] \<or> eu_scheme u \<noteq> ''http'' \<and> eu_scheme u \<noteq> ''https'' then Inl EndpointInvalid
     else Inr (cd_hash cd (lib_lower lib (eu_scheme u) @ ''://''
       @ join_host_port (lib_lower lib (trim_dot (eu_hostname u))) (default_port u))))"

section \<open>What a resolved endpoint is\<close>

lemma address_loop:
  "\<not> list_ex (\<lambda>a. \<not> address_permitted lib pol host a) as \<Longrightarrow> a \<in> set as \<Longrightarrow> address_permitted lib pol host a"
  by (auto simp: list_ex_iff)

lemma endpoint_addresses_nonempty: "endpoint_addresses lib host = Inr as \<Longrightarrow> as \<noteq> []"
  by (auto simp: endpoint_addresses_def split: option.splits if_splits)

lemma resolve_endpoint_Inr:
  assumes "resolve_endpoint lib pol raw = Inr r"
  obtains u as port where "lib_url_parse lib raw = Some u" "endpoint_addresses lib (eu_hostname u) = Inr as"
    "re_ip r \<in> set as" "\<forall>a \<in> set as. address_permitted lib pol (eu_hostname u) a"
    "parse_port (default_port u) = Some port" "allowed_port pol port" "eu_scheme u \<in> {''http'', ''https''}" "\<not> eu_has_user u"
proof -
  from assms obtain u where u: "lib_url_parse lib raw = Some u" by (auto simp: resolve_endpoint_def split: option.splits)
  with assms obtain port where p: "parse_port (default_port u) = Some port"
    by (auto simp: resolve_endpoint_def split: option.splits if_splits)
  with assms u obtain as where as: "endpoint_addresses lib (eu_hostname u) = Inr as"
    by (auto simp: resolve_endpoint_def split: if_splits)
  have n: "as \<noteq> []" using endpoint_addresses_nonempty as by blast
  have "\<not> list_ex (\<lambda>a. \<not> address_permitted lib pol (eu_hostname u) a) as" "re_ip r = hd as" "allowed_port pol port"
    "eu_scheme u \<in> {''http'', ''https''}" "\<not> eu_has_user u"
    using assms u p as by (auto simp: resolve_endpoint_def split: if_splits)
  with n address_loop that[OF u as _ _ p] show ?thesis by auto
qed

text \<open>The masked bit patterns, by their values.\<close>

lemma unat_drop: "unat (drop_bit k w) = unat w div 2 ^ k"
  by (simp add: unat_drop_bit_eq) (simp add: drop_bit_eq_div)

lemma word_of_unat: "unat x = n \<Longrightarrow> x = of_nat n"
  by auto

lemma unat_below: "unat (w :: 'a::len word) < 2 ^ LENGTH('a)"
  by (rule unsigned_less)

lemma leading_bits: "c * 2 ^ k \<le> unat w \<Longrightarrow> unat w < Suc c * 2 ^ k \<Longrightarrow> drop_bit k w = of_nat c"
  by (rule word_of_unat) (simp add: unat_drop div_nat_eqI mult.commute)

lemma word_cases:
  assumes "a \<le> unat x" "unat x < a + n" "list_all (\<lambda>i. P (of_nat a + of_nat i)) [0..<n]" shows "P x"
proof -
  have "unat x - a \<in> set [0..<n]" using assms(1,2) by auto
  then have "P (of_nat a + of_nat (unat x - a))" using assms(3) unfolding list_all_iff by (rule bspec[rotated])
  moreover have "of_nat a + of_nat (unat x - a) = x" using assms(1) using word_of_unat[of x "unat x"] by (metis le_add_diff_inverse of_nat_add)
  ultimately show ?thesis by simp
qed

lemma v4_private_ranges:
  assumes "\<not> is_private (V4 w)"
  shows "\<not> (0x0A000000 \<le> w \<and> w \<le> 0x0AFFFFFF) \<and> \<not> (0xAC100000 \<le> w \<and> w \<le> 0xAC1FFFFF) \<and> \<not> (0xC0A80000 \<le> w \<and> w \<le> 0xC0A8FFFF)"
proof (intro conjI notI; elim conjE)
  assume "0x0A000000 \<le> w" "w \<le> 0x0AFFFFFF"
  then show False using assms leading_bits[of 10 24 w] by (simp add: word_le_nat_alt)
next
  assume "0xC0A80000 \<le> w" "w \<le> 0xC0A8FFFF"
  then show False using assms leading_bits[of "0xC0A8" 16 w] by (simp add: word_le_nat_alt)
next
  assume a: "0xAC100000 \<le> w" "w \<le> 0xAC1FFFFF"
  have u: "0xAC10 \<le> unat (drop_bit 16 w)" "unat (drop_bit 16 w) < 0xAC20"
    using a by (simp_all add: unat_drop word_le_nat_alt less_mult_imp_div_less less_eq_div_iff_mult_less_eq)
  have l: "list_all (\<lambda>i. (0xAC10 + of_nat i :: 32 word) AND 0xF0 = 16) [0..<16]" by code_simp
  have "drop_bit 16 w AND 0xF0 = 16" by (rule word_cases[OF u(1), where n = 16]) (use u l in simp_all)
  moreover have "drop_bit 24 w = 172" using a leading_bits[of 172 24 w] by (simp add: word_le_nat_alt)
  ultimately show False using assms by simp
qed

lemma v4_global_ranges:
  assumes "is_global_unicast (V4 w)"
  shows "w \<noteq> 0 \<and> w < 0xFFFFFFFF \<and> \<not> (0x7F000000 \<le> w \<and> w \<le> 0x7FFFFFFF) \<and> \<not> (0xA9FE0000 \<le> w \<and> w \<le> 0xA9FEFFFF)
    \<and> \<not> (0xE0000000 \<le> w \<and> w \<le> 0xEFFFFFFF)"
proof (intro conjI notI; (elim conjE)?)
  show "w = 0 \<Longrightarrow> False" using assms by simp
  have "unat w \<noteq> 4294967295" using assms word_of_unat[of w 4294967295] by auto
  moreover have "unat w < 4294967296" using unat_below[of w] by simp
  ultimately have "unat w < 4294967295" by linarith
  then show "w < 0xFFFFFFFF" by (simp add: word_less_nat_alt)
next
  assume "0x7F000000 \<le> w" "w \<le> 0x7FFFFFFF"
  then show False using assms leading_bits[of 127 24 w] by (simp add: word_le_nat_alt)
next
  assume "0xA9FE0000 \<le> w" "w \<le> 0xA9FEFFFF"
  then show False using assms leading_bits[of "0xA9FE" 16 w] by (simp add: word_le_nat_alt)
next
  assume a: "0xE0000000 \<le> w" "w \<le> 0xEFFFFFFF"
  have u: "0xE0 \<le> unat (drop_bit 24 w)" "unat (drop_bit 24 w) < 0xF0"
    using a by (simp_all add: unat_drop word_le_nat_alt less_mult_imp_div_less less_eq_div_iff_mult_less_eq)
  have l: "list_all (\<lambda>i. (0xE0 + of_nat i :: 32 word) AND 0xF0 = 0xE0) [0..<16]" by code_simp
  have "drop_bit 24 w AND 0xF0 = 0xE0" by (rule word_cases[OF u(1), where n = 16]) (use u l in simp_all)
  then show False using assms by simp
qed

lemma v6_ranges:
  assumes "safe_public (V6 w zone)"
  shows "(zone = [] \<longrightarrow> w \<noteq> 0) \<and> w \<noteq> 1 \<and> \<not> (push_bit 120 0xFC \<le> w \<and> w < push_bit 120 0xFE)
    \<and> \<not> (push_bit 112 0xFE80 \<le> w \<and> w < push_bit 112 0xFEC0) \<and> w < push_bit 120 0xFF"
proof -
  have p: "is_global_unicast (V6 w zone)" "\<not> is_private (V6 w zone)" using assms by (simp_all add: safe_public_def)
  have "\<not> (push_bit 120 0xFC \<le> w \<and> w < push_bit 120 0xFE)"
  proof (intro notI, elim conjE)
    assume a: "push_bit 120 0xFC \<le> w" "w < push_bit 120 0xFE"
    have u: "0xFC \<le> unat (drop_bit 120 w)" "unat (drop_bit 120 w) < 0xFE"
      using a by (simp_all add: unat_drop word_le_nat_alt word_less_nat_alt less_mult_imp_div_less less_eq_div_iff_mult_less_eq push_bit_eq_mult)
    have l: "list_all (\<lambda>i. (0xFC + of_nat i :: 128 word) AND 0xFE = 0xFC) [0..<2]" by code_simp
    have "drop_bit 120 w AND 0xFE = 0xFC" by (rule word_cases[OF u(1), where n = 2]) (use u l in simp_all)
    then show False using p by simp
  qed
  moreover have "\<not> (push_bit 112 0xFE80 \<le> w \<and> w < push_bit 112 0xFEC0)"
  proof (intro notI, elim conjE)
    assume a: "push_bit 112 0xFE80 \<le> w" "w < push_bit 112 0xFEC0"
    have u: "0xFE80 \<le> unat (drop_bit 112 w)" "unat (drop_bit 112 w) < 0xFEC0"
      using a by (simp_all add: unat_drop word_le_nat_alt word_less_nat_alt less_mult_imp_div_less less_eq_div_iff_mult_less_eq push_bit_eq_mult)
    have l: "list_all (\<lambda>i. (0xFE80 + of_nat i :: 128 word) AND 0xFFC0 = 0xFE80) [0..<64]" by code_simp
    have "drop_bit 112 w AND 0xFFC0 = 0xFE80" by (rule word_cases[OF u(1), where n = 64]) (use u l in simp_all)
    then show False using p by simp
  qed
  moreover have "w < push_bit 120 0xFF"
  proof (rule ccontr)
    assume a: "\<not> w < push_bit 120 0xFF"
    have "drop_bit 120 w = of_nat 0xFF"
      by (rule leading_bits) (use a unat_below[of w] in \<open>simp_all add: word_less_nat_alt push_bit_eq_mult\<close>)
    then show False using p by simp
  qed
  ultimately show ?thesis using p by auto
qed

section \<open>Properties\<close>

definition public_v4 :: "32 word \<Rightarrow> bool" where
  "public_v4 w \<longleftrightarrow> w \<noteq> 0 \<and> w < 0xFFFFFFFF \<and> \<not> (0x0A000000 \<le> w \<and> w \<le> 0x0AFFFFFF) \<and> \<not> (0x7F000000 \<le> w \<and> w \<le> 0x7FFFFFFF)
     \<and> \<not> (0xA9FE0000 \<le> w \<and> w \<le> 0xA9FEFFFF) \<and> \<not> (0xAC100000 \<le> w \<and> w \<le> 0xAC1FFFFF)
     \<and> \<not> (0xC0A80000 \<le> w \<and> w \<le> 0xC0A8FFFF) \<and> \<not> (0xE0000000 \<le> w \<and> w \<le> 0xEFFFFFFF)"

text \<open>fc00::/7, fe80::/10 and ff00::/8.\<close>

definition public_v6 :: "128 word \<Rightarrow> string \<Rightarrow> bool" where
  "public_v6 w zone \<longleftrightarrow> (zone = [] \<longrightarrow> w \<noteq> 0) \<and> w \<noteq> 1 \<and> \<not> (push_bit 120 0xFC \<le> w \<and> w < push_bit 120 0xFE)
    \<and> \<not> (push_bit 112 0xFE80 \<le> w \<and> w < push_bit 112 0xFEC0) \<and> w < push_bit 120 0xFF"


text \<open>C34: An IPv6 zone hides the unspecified address from the policy: with public endpoints allowed, a URL
  whose host is :: with any zone is accepted, and the connection is pinned to that address, which the
  dialer takes for the local machine.\<close>

theorem unspecified_zone_accepted:
  assumes "lib_url_parse lib raw = Some u" "lib_parse_addr lib (eu_hostname u) = Some (V6 0 zone)" "zone \<noteq> []"
    "ep_public pol" "ep_ports pol = []" "eu_port u = []" "eu_host u \<noteq> []" "eu_scheme u = ''http''" "\<not> eu_has_user u"
    "eu_fragment u = []" "eu_raw_query u = []" "eu_raw_path u = []"
  shows "\<exists>r. resolve_endpoint lib pol raw = Inr r \<and> re_ip r = V6 0 zone"
proof -
  have "endpoint_addresses lib (eu_hostname u) = Inr [V6 0 zone]" using assms(2) by (simp add: endpoint_addresses_def is_4in6_def)
  moreover have "address_permitted lib pol (eu_hostname u) (V6 0 zone)"
    using assms(3,4) by (simp add: address_permitted_def always_blocked_def safe_public_def metadata_v6_def)
  moreover have "parse_port (default_port u) = Some 80" using assms(6,8) unfolding default_port_def by simp code_simp
  ultimately show ?thesis using assms by (simp add: resolve_endpoint_def allowed_port_def)
qed

definition sample_url :: "string \<Rightarrow> endpoint_url" where
  "sample_url host = \<lparr>eu_scheme = ''http'', eu_host = host, eu_hostname = host, eu_port = [], eu_path = ''/'', eu_has_user = False,
     eu_fragment = [], eu_raw_query = [], eu_raw_path = []\<rparr>"

text \<open>A resolver that knows one public host, and the address :: with the zone eth0.\<close>

definition sample_lib :: endpoint_lib where
  "sample_lib = \<lparr>lib_url_parse = \<lambda>raw. Some (sample_url raw),
     lib_parse_addr = \<lambda>h. if h = ''::%eth0'' then Some (V6 0 ''eth0'') else None,
     lib_lookup = \<lambda>h. if h = ''sml.example'' then Some [V4 0x08080808] else None,
     lib_lower = id\<rparr>"

definition public_policy :: endpoint_policy where
  "public_policy = \<lparr>ep_prefixes = [], ep_hosts = [], ep_public = True, ep_ports = []\<rparr>"


lemma unspecified_zone_accepted_witness:
  "\<exists>r. resolve_endpoint sample_lib public_policy ''::%eth0'' = Inr r \<and> re_ip r = V6 0 ''eth0''"
  by (rule unspecified_zone_accepted[where u = "sample_url ''::%eth0''"])
     (simp_all add: sample_lib_def public_policy_def sample_url_def)

end
