(* ===== verification/SmlClient.thy ===== *)
theory SmlClient
  imports Endpoint SqlRender
begin

text \<open>
  The SOAP client of the customers' JavaWS services (sml/client.go, sml/protocol.go): the request
  envelope, the classification of what the network does, and the reader of the result set.  The
  network is the outcome of one exchange.  ZIP, Base64 and the XML tokenizer of the Go library are
  the parameters of client_lib; the reader works on the tokens.
\<close>

section \<open>Errors\<close>

datatype transport_phase = PhaseUnset | BeforeRequestSent | RequestSentResultUnknown | ResponseStarted

record safe_error =
  se_code :: string
  se_retryable :: bool
  se_phase :: transport_phase

definition plain_error :: "string \<Rightarrow> safe_error" where
  "plain_error code = \<lparr>se_code = code, se_retryable = False, se_phase = PhaseUnset\<rparr>"

section \<open>The request\<close>

record sml_connection =
  cn_endpoint_url :: string
  cn_config_file :: string
  cn_database :: string
  cn_username :: string
  cn_password :: string

text \<open>html.EscapeString.\<close>

definition escape_char :: "char \<Rightarrow> string" where
  "escape_char c = (if c = CHR ''&'' then ''&amp;'' else if c = quote_char then ''&#39;''
     else if c = CHR ''<'' then ''&lt;'' else if c = CHR ''>'' then ''&gt;'' else if c = CHR 0x22 then ''&#34;'' else [c])"

definition escape_string :: "string \<Rightarrow> string" where "escape_string s = concat (map escape_char s)"

definition build_query_envelope :: "string \<Rightarrow> string \<Rightarrow> string \<Rightarrow> string \<Rightarrow> string" where
  "build_query_envelope guid config database payload =
     ''<?xml version=\"1.0\" encoding=\"utf-8\"?>''
     @ ''<soap:Envelope xmlns:soap=\"http://schemas.xmlsoap.org/soap/envelope/\" xmlns:xsi=\"http://www.w3.org/2001/XMLSchema-instance\" xmlns:xsd=\"http://www.w3.org/2001/XMLSchema\">''
     @ ''<soap:Body><_queryCompress xmlns=\"'' @ ''http://SMLWebService/'' @ ''\">''
     @ ''<arg0 xmlns=\"\">'' @ escape_string guid @ ''</arg0>''
     @ ''<arg1 xmlns=\"\">'' @ escape_string config @ ''</arg1>''
     @ ''<arg2 xmlns=\"\">'' @ escape_string database @ ''</arg2>''
     @ ''<arg3 xmlns=\"\">'' @ payload @ ''</arg3>''
     @ ''</_queryCompress></soap:Body></soap:Envelope>''"

section \<open>Reading the response\<close>

text \<open>The tokens of encoding/xml up to the first error; the end of the list is the end of the input.\<close>

datatype xml_token = StartTag string | EndTag string | CharText string | OtherToken | Malformed

text \<open>DecodeElement into a string: the text directly inside the element; nested elements are skipped.\<close>

fun element_text :: "nat \<Rightarrow> xml_token list \<Rightarrow> (string \<times> xml_token list) option" where
  "element_text depth [] = None"
| "element_text depth (Malformed # ts) = None"
| "element_text depth (StartTag n # ts) = element_text (Suc depth) ts"
| "element_text 0 (EndTag n # ts) = Some ([], ts)"
| "element_text (Suc depth) (EndTag n # ts) = element_text depth ts"
| "element_text depth (CharText s # ts) = (case element_text depth ts of None \<Rightarrow> None
     | Some (v, rest) \<Rightarrow> Some (if depth = 0 then s @ v else v, rest))"
| "element_text depth (OtherToken # ts) = element_text depth ts"

lemma element_text_shorter: "element_text depth ts = Some (v, rest) \<Longrightarrow> length rest < length ts"
  by (induction depth ts arbitrary: v rest rule: element_text.induct) (auto split: option.splits)

definition lower_name :: "string \<Rightarrow> string" where "lower_name s = map (\<lambda>c. let n = (of_char c :: nat) in
   if 65 \<le> n \<and> n \<le> 90 then char_of (n + 32) else c) s"

fun extract_soap_return :: "xml_token list \<Rightarrow> string option" where
  "extract_soap_return [] = None"
| "extract_soap_return (Malformed # ts) = None"
| "extract_soap_return (StartTag n # ts) = (if lower_name n = ''fault'' then None
     else if lower_name n = ''return'' then (case element_text 0 ts of None \<Rightarrow> None
       | Some (v, _) \<Rightarrow> if trim_space v = [] then None else Some (trim_space v))
     else extract_soap_return ts)"
| "extract_soap_return (_ # ts) = extract_soap_return ts"

datatype row_error = RowUnparsed | FieldUnparsed | FieldTooLong | RowLimitInvalid | XmlUnparsed | TooManyRows | NoResultSet

definition maximum_field_length :: nat where "maximum_field_length = 1024 * 1024"

function decode_row :: "string \<Rightarrow> xml_token list \<Rightarrow> row \<Rightarrow> row_error + (row \<times> xml_token list)" where
  "decode_row name [] row = Inl RowUnparsed"
| "decode_row name (Malformed # ts) row = Inl RowUnparsed"
| "decode_row name (StartTag n # ts) row = (case element_text 0 ts of
     None \<Rightarrow> Inl FieldUnparsed
   | Some (v, rest) \<Rightarrow> if length v > maximum_field_length then Inl FieldTooLong
       else decode_row name rest (row(n \<mapsto> v)))"
| "decode_row name (EndTag n # ts) row = (if n = name then Inr (row, ts) else decode_row name ts row)"
| "decode_row name (CharText s # ts) row = decode_row name ts row"
| "decode_row name (OtherToken # ts) row = decode_row name ts row"
  by pat_completeness auto
termination
  by (relation "measure (\<lambda>(name, ts, row). length ts)") (auto dest: element_text_shorter)

lemma decode_row_shorter: "decode_row name ts row = Inr (r, rest) \<Longrightarrow> length rest < length ts"
proof (induction name ts row rule: decode_row.induct)
  case (3 name n ts row)
  then show ?case using element_text_shorter by (fastforce split: option.splits if_splits)
qed (auto split: if_splits)

function parse_rows_from :: "nat \<Rightarrow> bool \<Rightarrow> row list \<Rightarrow> xml_token list \<Rightarrow> row_error + row list" where
  "parse_rows_from limit seen rows [] = (if seen then Inr rows else Inl NoResultSet)"
| "parse_rows_from limit seen rows (Malformed # ts) = Inl XmlUnparsed"
| "parse_rows_from limit seen rows (StartTag n # ts) = (
     if lower_name n = ''resultset'' then parse_rows_from limit True rows ts
     else if lower_name n = ''row'' \<and> seen then
       (if length rows \<ge> limit then Inl TooManyRows
        else (case decode_row n ts Map.empty of Inl e \<Rightarrow> Inl e
          | Inr (r, rest) \<Rightarrow> parse_rows_from limit seen (rows @ [r]) rest))
     else parse_rows_from limit seen rows ts)"
| "parse_rows_from limit seen rows (EndTag n # ts) = parse_rows_from limit seen rows ts"
| "parse_rows_from limit seen rows (CharText s # ts) = parse_rows_from limit seen rows ts"
| "parse_rows_from limit seen rows (OtherToken # ts) = parse_rows_from limit seen rows ts"
  by pat_completeness auto
termination
  by (relation "measure (\<lambda>(limit, seen, rows, ts). length ts)") (auto dest: decode_row_shorter)

definition parse_rows :: "xml_token list \<Rightarrow> int \<Rightarrow> row_error + row list" where
  "parse_rows ts limit = (if limit < 1 then Inl RowLimitInvalid else parse_rows_from (nat limit) False [] ts)"

section \<open>ZIP\<close>

text \<open>The first entry of an archive: its declared size, and its contents when the entry can be opened
  and read.\<close>

datatype zip_error = ZipFormatInvalid | ZipEmpty | ZipTooLarge | ZipReadFailed | ZipLimitInvalid

record client_lib =
  lib_zip_entries :: "string \<Rightarrow> (nat \<times> string option) list option"
  lib_compress :: "string \<Rightarrow> string option"
  lib_base64 :: "string \<Rightarrow> string"
  lib_unbase64 :: "string \<Rightarrow> string option"
  lib_tokens :: "string \<Rightarrow> xml_token list"

definition decompress_payload :: "client_lib \<Rightarrow> string \<Rightarrow> int \<Rightarrow> zip_error + string" where
  "decompress_payload lib payload maximum = (
     if maximum < 1 then Inl ZipLimitInvalid
     else (case lib_zip_entries lib payload of
       None \<Rightarrow> Inl ZipFormatInvalid
     | Some [] \<Rightarrow> Inl ZipEmpty
     | Some ((declared, contents) # _) \<Rightarrow>
         if int declared > maximum then Inl ZipTooLarge
         else (case contents of None \<Rightarrow> Inl ZipReadFailed
           | Some c \<Rightarrow> if int (length c) > maximum then Inl ZipTooLarge else Inr c)))"

definition zip_safe_error_code :: "zip_error \<Rightarrow> string" where
  "zip_safe_error_code e = (case e of ZipFormatInvalid \<Rightarrow> ''SML_ZIP_FORMAT_INVALID'' | ZipEmpty \<Rightarrow> ''SML_ZIP_EMPTY''
     | ZipTooLarge \<Rightarrow> ''SML_ZIP_TOO_LARGE'' | ZipReadFailed \<Rightarrow> ''SML_ZIP_READ_FAILED'' | ZipLimitInvalid \<Rightarrow> ''SML_ZIP_INVALID'')"

section \<open>A query\<close>

record sml_client =
  cl_policy :: endpoint_policy
  cl_maximum_bytes :: int
  cl_maximum_rows :: int

text \<open>
  One exchange: a request that cannot be formed, an error of the transport, with what had happened by then and whether the deadline had
  passed, an error while the body was read, or a response with its status and body.
\<close>

datatype http_outcome = RequestRejected | TransportError bool bool bool | BodyError | HttpResponse int string

definition http_exchange_error :: "bool \<Rightarrow> bool \<Rightarrow> bool \<Rightarrow> safe_error" where
  "http_exchange_error wrote_request response_started deadline = (
     let phase = (if response_started then ResponseStarted else if wrote_request then RequestSentResultUnknown else BeforeRequestSent)
     in \<lparr>se_code = (if deadline then ''SML_TIMEOUT'' else ''SML_UNREACHABLE''), se_retryable = (phase = BeforeRequestSent),
         se_phase = phase\<rparr>)"

definition client_read :: "client_lib \<Rightarrow> sml_client \<Rightarrow> int \<Rightarrow> string \<Rightarrow> safe_error + row list" where
  "client_read lib cl status body = (
     if int (length body) > cl_maximum_bytes cl then Inl (plain_error ''SML_RESPONSE_TOO_LARGE'')
     else if status < 200 \<or> status \<ge> 300
     then Inl \<lparr>se_code = ''SML_HTTP_'' @ int_str status, se_retryable = (status = 429 \<or> status \<ge> 500), se_phase = PhaseUnset\<rparr>
     else (case extract_soap_return (lib_tokens lib body) of
       None \<Rightarrow> Inl (plain_error ''SML_SOAP_INVALID'')
     | Some encoded \<Rightarrow> (case lib_unbase64 lib encoded of
         None \<Rightarrow> Inl (plain_error ''SML_RETURN_NOT_BASE64'')
       | Some zipped \<Rightarrow> (case decompress_payload lib zipped (cl_maximum_bytes cl * 4) of
           Inl e \<Rightarrow> Inl (plain_error (zip_safe_error_code e))
         | Inr payload \<Rightarrow> (case parse_rows (lib_tokens lib payload) (cl_maximum_rows cl) of
             Inl e \<Rightarrow> Inl (plain_error ''SML_RESULT_INVALID'')
           | Inr rows \<Rightarrow> Inr rows)))))"

definition client_outcome :: "client_lib \<Rightarrow> sml_client \<Rightarrow> http_outcome \<Rightarrow> safe_error + row list" where
  "client_outcome lib cl outcome = (case outcome of
     RequestRejected \<Rightarrow> Inl (plain_error ''SML_REQUEST_INVALID'')
   | TransportError wrote started deadline \<Rightarrow> Inl (http_exchange_error wrote started deadline)
   | BodyError \<Rightarrow> Inl \<lparr>se_code = ''SML_RESPONSE_READ_FAILED'', se_retryable = False, se_phase = ResponseStarted\<rparr>
   | HttpResponse status body \<Rightarrow> client_read lib cl status body)"

text \<open>
  Query.  The result is the request that was posted, if any, and what the caller gets; exchange is the
  network, asked with the address, the URL and the envelope.  The body is read up to one byte more
  than the limit.
\<close>

definition limit_body :: "int \<Rightarrow> http_outcome \<Rightarrow> http_outcome" where
  "limit_body n outcome = (case outcome of HttpResponse status body \<Rightarrow> HttpResponse status (take (nat (n + 1)) body) | _ \<Rightarrow> outcome)"

definition client_query :: "endpoint_lib \<Rightarrow> client_lib \<Rightarrow> sml_client \<Rightarrow> (resolved_endpoint \<Rightarrow> string \<Rightarrow> http_outcome)
    \<Rightarrow> sml_connection \<Rightarrow> string \<Rightarrow> (resolved_endpoint \<times> string) option \<times> (safe_error + row list)" where
  "client_query elib lib cl exchange cn text = (
     if cn_config_file cn = [] \<or> cn_database cn = [] \<or> text = []
     then (None, Inl (plain_error ''SML_CONFIGURATION_INVALID''))
     else (case resolve_endpoint elib (cl_policy cl) (cn_endpoint_url cn) of
       Inl e \<Rightarrow> (None, Inl (plain_error ''SML_ENDPOINT_DENIED''))
     | Inr endpoint \<Rightarrow> (case lib_compress lib text of
         None \<Rightarrow> (None, Inl (plain_error ''SML_QUERY_ENCODING_FAILED''))
       | Some compressed \<Rightarrow>
         (let envelope = build_query_envelope ''NEXTSTEP'' (cn_config_file cn) (cn_database cn) (lib_base64 lib compressed)
          in (Some (endpoint, envelope), client_outcome lib cl (limit_body (cl_maximum_bytes cl) (exchange endpoint envelope)))))))"

section \<open>Properties\<close>

text \<open>Text as an XML reader takes it, up to the next tag.\<close>

definition entities :: "(string \<times> char) list" where
  "entities = [(''&amp;'', CHR ''&''), (''&#39;'', quote_char), (''&lt;'', CHR ''<''), (''&gt;'', CHR ''>''), (''&#34;'', CHR 0x22)]"

function read_text :: "string \<Rightarrow> (string \<times> string) option" where
  "read_text [] = None"
| "read_text (c # s) = (if c = CHR ''<'' then Some ([], c # s)
     else if c = CHR ''&'' then (case filter (\<lambda>e. starts_with (fst e) (c # s)) entities of
         [] \<Rightarrow> None
       | e # _ \<Rightarrow> (case read_text (drop (length (fst e) - 1) s) of None \<Rightarrow> None | Some (v, rest) \<Rightarrow> Some (snd e # v, rest)))
     else (case read_text s of None \<Rightarrow> None | Some (v, rest) \<Rightarrow> Some (c # v, rest)))"
  by pat_completeness auto
termination
  by (relation "measure length") auto

lemma read_escaped_char:
  assumes "read_text s = Some (v, rest)" shows "read_text (escape_char c @ s) = Some (c # v, rest)"
  using assms by (auto simp: escape_char_def entities_def starts_with_def quote_char_def)


subsection \<open>What may be retried\<close>

text \<open>C36: Nothing is posted unless the endpoint is permitted.  An error is marked retryable only when the
  request had not been written or when the complete response is a 429 or a 5xx, and the phases that
  leave the state of the remote query unknown are exactly those of a request that was posted and got
  no complete response.\<close>

theorem client_error_classified:
  assumes "client_query elib lib cl exchange cn text = (sent, Inl e)"
  shows "(sent = None \<longrightarrow> \<not> se_retryable e \<and> se_phase e = PhaseUnset)
    \<and> (\<forall>endpoint envelope. sent = Some (endpoint, envelope) \<longrightarrow>
         resolve_endpoint elib (cl_policy cl) (cn_endpoint_url cn) = Inr endpoint
       \<and> (se_retryable e \<longrightarrow> (case exchange endpoint envelope of
            TransportError wrote started deadline \<Rightarrow> \<not> wrote \<and> \<not> started
          | HttpResponse status body \<Rightarrow> status = 429 \<or> status \<ge> 500
          | _ \<Rightarrow> False))
       \<and> (se_phase e \<in> {RequestSentResultUnknown, ResponseStarted} \<longleftrightarrow> (case exchange endpoint envelope of
            TransportError wrote started deadline \<Rightarrow> wrote \<or> started | BodyError \<Rightarrow> True | _ \<Rightarrow> False)))"
proof (cases "sent")
  case None
  with assms show ?thesis
    by (auto simp: client_query_def plain_error_def Let_def split: if_splits sum.splits option.splits)
next
  case (Some x)
  obtain endpoint envelope where x: "x = (endpoint, envelope)" by (cases x)
  have r: "resolve_endpoint elib (cl_policy cl) (cn_endpoint_url cn) = Inr endpoint"
    "client_outcome lib cl (limit_body (cl_maximum_bytes cl) (exchange endpoint envelope)) = Inl e"
    using assms Some x by (auto simp: client_query_def Let_def split: if_splits sum.splits option.splits)
  have "se_retryable e \<longrightarrow> (case exchange endpoint envelope of
            TransportError wrote started deadline \<Rightarrow> \<not> wrote \<and> \<not> started
          | HttpResponse status body \<Rightarrow> status = 429 \<or> status \<ge> 500
          | _ \<Rightarrow> False)"
    "se_phase e \<in> {RequestSentResultUnknown, ResponseStarted} \<longleftrightarrow> (case exchange endpoint envelope of
            TransportError wrote started deadline \<Rightarrow> wrote \<or> started | BodyError \<Rightarrow> True | _ \<Rightarrow> False)"
    using r(2) by (cases "exchange endpoint envelope";
      auto simp: client_outcome_def limit_body_def http_exchange_error_def client_read_def plain_error_def Let_def
        split: if_splits sum.splits option.splits)+
  then show ?thesis using r(1) Some x by simp
qed

subsection \<open>Rows\<close>

lemma decode_row_fields:
  assumes "decode_row name ts row = Inr (r, rest)" "\<forall>k v. row k = Some v \<longrightarrow> length v \<le> maximum_field_length"
  shows "\<forall>k v. r k = Some v \<longrightarrow> length v \<le> maximum_field_length"
  using assms
proof (induction name ts row rule: decode_row.induct)
  case (3 name n ts row)
  then obtain v rest' where v: "element_text 0 ts = Some (v, rest')" "length v \<le> maximum_field_length"
    "decode_row name rest' (row(n \<mapsto> v)) = Inr (r, rest)"
    by (auto split: option.splits if_splits)
  show ?case by (rule "3.IH"[OF v(1) refl _ v(3)]) (use v(2) "3.prems"(2) in auto)
qed (auto split: if_splits)

definition row_ok :: "row \<Rightarrow> bool" where
  "row_ok r \<longleftrightarrow> (\<forall>k v. r k = Some v \<longrightarrow> length v \<le> maximum_field_length)"

lemma parse_rows_from_bounds:
  assumes "parse_rows_from limit seen rows ts = Inr out" "length rows \<le> limit" "\<forall>r \<in> set rows. row_ok r"
  shows "length out \<le> limit \<and> (\<forall>r \<in> set out. row_ok r)"
  using assms
proof (induction limit seen rows ts rule: parse_rows_from.induct)
  case (3 limit seen rows n ts)
  show ?case
  proof (cases "lower_name n \<noteq> ''resultset'' \<and> lower_name n = ''row'' \<and> seen")
    case True
    then have l: "length rows < limit" using "3.prems"(1) by (auto split: if_splits)
    with True "3.prems"(1) obtain r rest where r: "decode_row n ts Map.empty = Inr (r, rest)"
      "parse_rows_from limit seen (rows @ [r]) rest = Inr out" by (auto split: sum.splits)
    have "row_ok r" using decode_row_fields[OF r(1)] by (simp add: row_ok_def)
    then have ok: "\<forall>x \<in> set (rows @ [r]). row_ok x" using "3.prems"(3) by simp
    show ?thesis
      by (rule "3.IH"(2)[OF _ _ _ r(1) refl r(2) _ ok]) (use True l in simp_all)
  next
    case False
    with "3.prems" "3.IH"(1,3) show ?thesis by (auto split: if_splits)
  qed
qed (auto split: if_splits)

text \<open>The tokens of a result set, as JavaWS writes one.\<close>

definition field_tokens :: "string \<times> string \<Rightarrow> xml_token list" where
  "field_tokens f = [StartTag (fst f), CharText (snd f), EndTag (fst f)]"
definition row_tokens :: "(string \<times> string) list \<Rightarrow> xml_token list" where
  "row_tokens fs = StartTag ''Row'' # concat (map field_tokens fs) @ [EndTag ''Row'']"
definition result_tokens :: "(string \<times> string) list list \<Rightarrow> xml_token list" where
  "result_tokens rs = StartTag ''ResultSet'' # concat (map row_tokens rs) @ [EndTag ''ResultSet'']"

definition row_of :: "(string \<times> string) list \<Rightarrow> row" where
  "row_of fs = foldl (\<lambda>r f. r(fst f \<mapsto> snd f)) Map.empty fs"

lemma decode_row_tokens:
  assumes "list_all (\<lambda>f. length (snd f) \<le> maximum_field_length) fs"
  shows "decode_row n (concat (map field_tokens fs) @ EndTag n # rest) row
    = Inr (foldl (\<lambda>r f. r(fst f \<mapsto> snd f)) row fs, rest)"
  using assms
proof (induction fs arbitrary: row)
  case (Cons f fs)
  have "element_text 0 (CharText (snd f) # EndTag (fst f) # ts) = Some (snd f, ts)" for ts by simp
  with Cons show ?case by (simp add: field_tokens_def del: fun_upd_apply)
qed simp

lemma lower_names: "lower_name ''Row'' = ''row''" "lower_name ''ResultSet'' = ''resultset''"
  by code_simp+

lemma parse_result_rows:
  assumes "list_all (list_all (\<lambda>f. length (snd f) \<le> maximum_field_length)) rs" "length rows \<le> limit"
  shows "parse_rows_from limit True rows (concat (map row_tokens rs) @ [EndTag ''ResultSet''])
    = (if length rows + length rs \<le> limit then Inr (rows @ map row_of rs) else Inl TooManyRows)"
  using assms
proof (induction rs arbitrary: rows)
  case (Cons fs rs)
  let ?rest = "concat (map row_tokens rs) @ [EndTag ''ResultSet'']"
  have d: "decode_row ''Row'' (concat (map field_tokens fs) @ EndTag ''Row'' # ?rest) Map.empty = Inr (row_of fs, ?rest)"
    using decode_row_tokens[of fs "''Row''" ?rest] Cons.prems(1) by (simp add: row_of_def)
  show ?case
  proof (cases "length rows = limit")
    case True
    then show ?thesis using lower_names by (simp add: row_tokens_def)
  next
    case False
    then have "parse_rows_from limit True rows (row_tokens fs @ ?rest) = parse_rows_from limit True (rows @ [row_of fs]) ?rest"
      using Cons.prems(2) d lower_names by (simp add: row_tokens_def)
    then show ?thesis using Cons.IH[of "rows @ [row_of fs]"] Cons.prems False by simp
  qed
qed simp

text \<open>Whatever the tokens are, a result is accepted only with at most the allowed number of rows and
  with no value longer than a mebibyte.  The tokens of a result set give exactly its rows, in
  order, or the error for too many rows.\<close>

theorem result_rows_read:
  "(\<forall>ts rows. parse_rows ts limit = Inr rows \<longrightarrow> int (length rows) \<le> limit \<and> (\<forall>r \<in> set rows. row_ok r))
   \<and> (limit \<ge> 1 \<and> list_all (list_all (\<lambda>f. length (snd f) \<le> maximum_field_length)) rs \<longrightarrow>
       parse_rows (result_tokens rs) limit = (if int (length rs) \<le> limit then Inr (map row_of rs) else Inl TooManyRows))"
proof (intro conjI allI impI)
  fix ts rows
  assume "parse_rows ts limit = Inr rows"
  then have l: "limit \<ge> 1" "parse_rows_from (nat limit) False [] ts = Inr rows" by (auto simp: parse_rows_def split: if_splits)
  from parse_rows_from_bounds[OF l(2)] have b: "length rows \<le> nat limit \<and> (\<forall>r \<in> set rows. row_ok r)" by simp
  then show "\<forall>r \<in> set rows. row_ok r" by blast
  from b show "int (length rows) \<le> limit" using l(1) by linarith
next
  assume a: "limit \<ge> 1 \<and> list_all (list_all (\<lambda>f. length (snd f) \<le> maximum_field_length)) rs"
  have "parse_rows (result_tokens rs) limit = parse_rows_from (nat limit) True [] (concat (map row_tokens rs) @ [EndTag ''ResultSet''])"
    using a lower_names by (simp add: parse_rows_def result_tokens_def)
  then show "parse_rows (result_tokens rs) limit = (if int (length rs) \<le> limit then Inr (map row_of rs) else Inl TooManyRows)"
    using parse_result_rows[of rs "[]" "nat limit"] a by (simp add: nat_le_iff le_nat_iff)
qed

lemma result_rows_read_witness:
  "parse_rows (result_tokens [[(''code'', ''A''), (''qty'', ''2'')], [(''code'', ''B'')]]) 5
   = Inr [row_of [(''code'', ''A''), (''qty'', ''2'')], row_of [(''code'', ''B'')]]"
  using result_rows_read[of 5 "[[(''code'', ''A''), (''qty'', ''2'')], [(''code'', ''B'')]]"]
  by (simp add: maximum_field_length_def)

text \<open>A service that closes the connection after the request has been written.\<close>

lemma client_error_classified_witness:
  "\<exists>lib cl cn e. client_query sample_lib lib cl (\<lambda>_ _. TransportError True False True) cn ''select 1''
      = (Some (\<lparr>re_url = (sample_url ''sml.example'')\<lparr>eu_path := default_path\<rparr>, re_ip = V4 0x08080808\<rparr>,
           build_query_envelope ''NEXTSTEP'' ''c'' ''d'' ''x''), Inl e)
    \<and> se_phase e \<in> {RequestSentResultUnknown, ResponseStarted} \<and> \<not> se_retryable e"
proof -
  let ?lib = "\<lparr>lib_zip_entries = \<lambda>_. None, lib_compress = Some, lib_base64 = \<lambda>_. ''x'', lib_unbase64 = Some, lib_tokens = \<lambda>_. []\<rparr>"
  let ?cl = "\<lparr>cl_policy = public_policy, cl_maximum_bytes = 1000, cl_maximum_rows = 10\<rparr>"
  let ?cn = "\<lparr>cn_endpoint_url = ''sml.example'', cn_config_file = ''c'', cn_database = ''d'', cn_username = [], cn_password = []\<rparr>"
  let ?ep = "\<lparr>re_url = (sample_url ''sml.example'')\<lparr>eu_path := default_path\<rparr>, re_ip = V4 0x08080808\<rparr>"
  have r: "resolve_endpoint sample_lib public_policy ''sml.example'' = Inr ?ep" by code_simp
  have q: "client_query sample_lib ?lib ?cl (\<lambda>_ _. TransportError True False True) ?cn ''select 1''
    = (Some (?ep, build_query_envelope ''NEXTSTEP'' ''c'' ''d'' ''x''), Inl (http_exchange_error True False True))"
    by (simp add: client_query_def r limit_body_def client_outcome_def Let_def)
  have "se_phase (http_exchange_error True False True) \<in> {RequestSentResultUnknown, ResponseStarted} \<and> \<not> se_retryable (http_exchange_error True False True)"
    using client_error_classified[OF q] by simp
  with q show ?thesis by blast
qed

end
