(* ===== verification/Worker.thy ===== *)
theory Worker
  imports QueryPlan SmlClient RunStore "HOL-Library.AList"
begin

text \<open>
  The report worker (worker/report_worker.go).  It works on a store through the interface run_ops, so
  that the worker does not depend on the tables.  An action of the worker is one call of the store or
  one query; before each action other processes may have changed the store and the heartbeat may have
  extended the lease (e_between), the clock may have moved, the process may be shutting down, and a
  call of the store may fail before or after its transaction was committed.
\<close>

section \<open>The interfaces\<close>

record 's run_ops =
  op_claim :: "'s \<Rightarrow> string \<Rightarrow> duration \<Rightarrow> instant \<Rightarrow> run_error + ('s \<times> run_row)"
  op_mark_running :: "'s \<Rightarrow> uuid \<Rightarrow> string \<Rightarrow> duration \<Rightarrow> instant \<Rightarrow> run_error + 's"
  op_update_progress :: "'s \<Rightarrow> uuid \<Rightarrow> string \<Rightarrow> progress_phase \<Rightarrow> int \<Rightarrow> int \<Rightarrow> instant \<Rightarrow> run_error + 's"
  op_extend_lease :: "'s \<Rightarrow> uuid \<Rightarrow> string \<Rightarrow> duration \<Rightarrow> instant \<Rightarrow> run_error + 's"
  op_complete :: "'s \<Rightarrow> uuid \<Rightarrow> string \<Rightarrow> summary_result \<Rightarrow> bool \<Rightarrow> instant \<Rightarrow> run_error + 's"
  op_retry :: "'s \<Rightarrow> uuid \<Rightarrow> string \<Rightarrow> string \<Rightarrow> instant \<Rightarrow> instant \<Rightarrow> run_error + 's"
  op_retry_pre_request :: "'s \<Rightarrow> uuid \<Rightarrow> string \<Rightarrow> string \<Rightarrow> instant \<Rightarrow> instant \<Rightarrow> run_error + 's"
  op_fail :: "'s \<Rightarrow> uuid \<Rightarrow> string \<Rightarrow> string \<Rightarrow> string \<Rightarrow> instant \<Rightarrow> run_error + 's"
  op_fail_pre_request :: "'s \<Rightarrow> uuid \<Rightarrow> string \<Rightarrow> string \<Rightarrow> string \<Rightarrow> instant \<Rightarrow> run_error + 's"
  op_fail_remote_unknown :: "'s \<Rightarrow> uuid \<Rightarrow> string \<Rightarrow> string \<Rightarrow> string \<Rightarrow> instant \<Rightarrow> instant \<Rightarrow> run_error + 's"
  op_set_consistency :: "('s \<Rightarrow> uuid \<Rightarrow> string \<Rightarrow> source_consistency \<Rightarrow> instant \<Rightarrow> run_error + 's) option"
  op_chunks :: bool
  op_prepare_chunks :: "'s \<Rightarrow> uuid \<Rightarrow> string \<Rightarrow> chunk_manifest list \<Rightarrow> instant \<Rightarrow> run_error + 's"
  op_start_chunk :: "'s \<Rightarrow> uuid \<Rightarrow> string \<Rightarrow> nat \<Rightarrow> instant \<Rightarrow> run_error + 's"
  op_complete_chunk :: "'s \<Rightarrow> uuid \<Rightarrow> string \<Rightarrow> nat \<Rightarrow> steps \<times> steps \<Rightarrow> int \<Rightarrow> instant \<Rightarrow> run_error + 's"
  op_fail_chunk :: "'s \<Rightarrow> uuid \<Rightarrow> string \<Rightarrow> nat \<Rightarrow> string \<Rightarrow> instant \<Rightarrow> run_error + 's"

datatype 'c open_answer = Opened 'c | OpenFailed string bool | NotConfigured | OpenError

datatype query_error = SafeFailure safe_error | DeadlinePassed | OtherQueryError

datatype query_answer = Answered "row list" | AnsweredError query_error

record report_worker =
  wk_id :: string
  wk_summary_queries :: bool
  wk_heavy_chunks :: bool
  wk_schedule_chunks :: bool
  wk_chunk_targets :: "(uuid \<times> key) list"

definition lease_duration :: duration where "lease_duration = 3 * minute"
definition maximum_attempts :: int where "maximum_attempts = 3"

record failure =
  fl_code :: string
  fl_retryable :: bool
  fl_remote_unknown :: bool
  fl_pre_request :: bool

definition fatal :: "string \<Rightarrow> failure" where
  "fatal code = \<lparr>fl_code = code, fl_retryable = False, fl_remote_unknown = False, fl_pre_request = False\<rparr>"
definition transient :: "string \<Rightarrow> failure" where
  "transient code = \<lparr>fl_code = code, fl_retryable = True, fl_remote_unknown = False, fl_pre_request = False\<rparr>"

definition failure_from_safe_error :: "safe_error \<Rightarrow> failure" where
  "failure_from_safe_error e = \<lparr>fl_code = se_code e, fl_retryable = se_retryable e,
     fl_remote_unknown = (se_phase e = RequestSentResultUnknown \<or> se_phase e = ResponseStarted),
     fl_pre_request = (se_retryable e \<and> se_phase e = BeforeRequestSent
        \<and> (se_code e = ''SML_TIMEOUT'' \<or> se_code e = ''SML_UNREACHABLE''))\<rparr>"

definition failure_of_error :: "query_error \<Rightarrow> failure" where
  "failure_of_error e = (case e of
     SafeFailure s \<Rightarrow> failure_from_safe_error s
   | DeadlinePassed \<Rightarrow> \<lparr>fl_code = ''SML_TIMEOUT'', fl_retryable = True, fl_remote_unknown = True, fl_pre_request = False\<rparr>
   | OtherQueryError \<Rightarrow> \<lparr>fl_code = ''SML_QUERY_FAILED'', fl_retryable = True, fl_remote_unknown = True, fl_pre_request = False\<rparr>)"

section \<open>The world around the worker\<close>

text \<open>What may happen between two actions: another process changes the store, or the ticker of the
  heartbeat fires at an instant.\<close>

datatype 's happening = Others "'s \<Rightarrow> 's" | Heartbeat instant

datatype fault = NoFault | FaultBefore | FaultAfter

text \<open>A context: that of the process, one of the execution of a run with the deadlines of its
  timeouts, or one without cancellation.\<close>

datatype ctx = RootCtx | ExecCtx uuid "instant list" | DetachedCtx uuid

record ('s, 'c) env =
  e_clock :: "nat \<Rightarrow> instant"
  e_between :: "nat \<Rightarrow> 's happening list"
  e_shutdown :: "nat \<Rightarrow> bool"
  e_fault :: "nat \<Rightarrow> fault"
  e_open :: "nat \<Rightarrow> uuid \<Rightarrow> 'c open_answer"
  e_client :: "nat \<Rightarrow> ctx \<Rightarrow> 'c \<Rightarrow> string \<Rightarrow> query_answer"
  e_digest :: "string \<Rightarrow> string"

record 's world =
  w_store :: 's
  w_tick :: nat
  w_cancelled :: bool
  w_lease_error :: "run_error option"
  w_log :: "(string \<times> query_answer) list"

text \<open>keepLease: a failed extension cancels the execution and ends the heartbeat.\<close>

definition beat :: "'s run_ops \<Rightarrow> ('s, 'c) env \<Rightarrow> report_worker \<Rightarrow> uuid \<Rightarrow> instant \<Rightarrow> 's world \<Rightarrow> 's world" where
  "beat ops env wk run t w = (
     if w_cancelled w then w
     else (case (if e_shutdown env (w_tick w) then Inl (ErrRun ''context canceled'')
                 else op_extend_lease ops (w_store w) run (wk_id wk) lease_duration t) of
       Inl e \<Rightarrow> w\<lparr>w_cancelled := True, w_lease_error := Some e\<rparr>
     | Inr s \<Rightarrow> w\<lparr>w_store := s\<rparr>))"

definition happen :: "'s run_ops \<Rightarrow> ('s, 'c) env \<Rightarrow> report_worker \<Rightarrow> ctx \<Rightarrow> 's happening \<Rightarrow> 's world \<Rightarrow> 's world" where
  "happen ops env wk c h w = (case h of
     Others f \<Rightarrow> w\<lparr>w_store := f (w_store w)\<rparr>
   | Heartbeat t \<Rightarrow> (case c of RootCtx \<Rightarrow> w | ExecCtx run _ \<Rightarrow> beat ops env wk run t w | DetachedCtx run \<Rightarrow> beat ops env wk run t w))"

definition advance :: "'s run_ops \<Rightarrow> ('s, 'c) env \<Rightarrow> report_worker \<Rightarrow> ctx \<Rightarrow> 's world \<Rightarrow> 's world" where
  "advance ops env wk c w = (fold (happen ops env wk c) (e_between env (w_tick w)) w)\<lparr>w_tick := Suc (w_tick w)\<rparr>"

definition ctx_done :: "('s, 'c) env \<Rightarrow> ctx \<Rightarrow> nat \<Rightarrow> bool \<Rightarrow> bool" where
  "ctx_done env c i cancelled = (case c of
     RootCtx \<Rightarrow> e_shutdown env i
   | ExecCtx _ deadlines \<Rightarrow> e_shutdown env i \<or> cancelled \<or> list_ex (\<lambda>d. d \<le> e_clock env i) deadlines
   | DetachedCtx _ \<Rightarrow> False)"

definition with_timeout :: "('s, 'c) env \<Rightarrow> duration \<Rightarrow> ctx \<Rightarrow> 's world \<Rightarrow> ctx" where
  "with_timeout env d c w = (case c of ExecCtx run ds \<Rightarrow> ExecCtx run ((e_clock env (w_tick w) + d) # ds) | _ \<Rightarrow> c)"

text \<open>One call of the store.\<close>

definition call :: "'s run_ops \<Rightarrow> ('s, 'c) env \<Rightarrow> report_worker \<Rightarrow> ctx \<Rightarrow> ('s \<Rightarrow> instant \<Rightarrow> run_error + 's)
    \<Rightarrow> 's world \<Rightarrow> (run_error + unit) \<times> 's world" where
  "call ops env wk c f w = (let i = w_tick w; w1 = advance ops env wk c w in
     if ctx_done env c i (w_cancelled w1) then (Inl (ErrRun ''context''), w1)
     else (case f (w_store w1) (e_clock env i) of
       Inl e \<Rightarrow> (Inl e, w1)
     | Inr s \<Rightarrow> (case e_fault env i of
         NoFault \<Rightarrow> (Inr (), w1\<lparr>w_store := s\<rparr>)
       | FaultBefore \<Rightarrow> (Inl (ErrRun ''store''), w1)
       | FaultAfter \<Rightarrow> (Inl (ErrRun ''store''), w1\<lparr>w_store := s\<rparr>))))"

text \<open>One query of the customer's service; the log keeps what was asked and answered.\<close>

definition ask :: "'s run_ops \<Rightarrow> ('s, 'c) env \<Rightarrow> report_worker \<Rightarrow> ctx \<Rightarrow> duration \<Rightarrow> 'c \<Rightarrow> string
    \<Rightarrow> 's world \<Rightarrow> query_answer \<times> 's world" where
  "ask ops env wk c timeout conn text w = (let w1 = advance ops env wk c w;
       answer = e_client env (w_tick w) (with_timeout env timeout c w) conn text
     in (answer, w1\<lparr>w_log := w_log w1 @ [(text, answer)]\<rparr>))"

section \<open>Tasks\<close>

type_synonym ('s, 'a) task = "'s world \<Rightarrow> (failure + 'a) \<times> 's world"

definition give :: "'a \<Rightarrow> ('s, 'a) task" where "give x w = (Inr x, w)"
definition stop :: "failure \<Rightarrow> ('s, 'a) task" where "stop f w = (Inl f, w)"

definition andthen :: "('s, 'a) task \<Rightarrow> ('a \<Rightarrow> ('s, 'b) task) \<Rightarrow> ('s, 'b) task" where
  "andthen m k w = (case m w of (Inl f, w') \<Rightarrow> (Inl f, w') | (Inr x, w') \<Rightarrow> k x w')"

text \<open>A step whose errors all give one failure, and a call whose error is ignored.\<close>

definition need :: "failure \<Rightarrow> 'e + 'a \<Rightarrow> ('s, 'a) task" where
  "need f r = (case r of Inl _ \<Rightarrow> stop f | Inr x \<Rightarrow> give x)"
definition attempt :: "failure \<Rightarrow> ('s world \<Rightarrow> (run_error + unit) \<times> 's world) \<Rightarrow> ('s, unit) task" where
  "attempt f m w = (case m w of (Inl _, w') \<Rightarrow> (Inl f, w') | (Inr _, w') \<Rightarrow> (Inr (), w'))"
definition ignoring :: "('s world \<Rightarrow> (run_error + unit) \<times> 's world) \<Rightarrow> ('s, unit) task" where
  "ignoring m w = (Inr (), snd (m w))"

text \<open>What to do with a failure.\<close>

definition rescue :: "('s, 'a) task \<Rightarrow> (failure \<Rightarrow> ('s, 'a) task) \<Rightarrow> ('s, 'a) task" where
  "rescue m h w = (case m w of (Inl f, w') \<Rightarrow> h f w' | (Inr x, w') \<Rightarrow> (Inr x, w'))"

section \<open>Queries\<close>

definition run_query :: "'s run_ops \<Rightarrow> ('s, 'c) env \<Rightarrow> report_worker \<Rightarrow> ctx \<Rightarrow> duration \<Rightarrow> 'c \<Rightarrow> query \<Rightarrow> ('s, row list) task" where
  "run_query ops env wk c timeout conn q = (case render_sql q of
     Inl _ \<Rightarrow> stop (fatal ''REPORT_QUERY_RENDER_FAILED'')
   | Inr text \<Rightarrow> (\<lambda>w. case ask ops env wk c timeout conn text w of
       (Answered rows, w') \<Rightarrow> (Inr rows, w')
     | (AnsweredError e, w') \<Rightarrow> (Inl (failure_of_error e), w')))"

definition uses_summary_budget :: "run_row \<Rightarrow> bool" where
  "uses_summary_budget run \<longleftrightarrow> r_source run = SourceSchedule \<or> r_source run = SourceBackground \<or> r_kind run = ResultSummary"

definition query_timeout :: "run_row \<Rightarrow> report_definition \<Rightarrow> duration" where
  "query_timeout run d = (if uses_summary_budget run then def_summary_timeout d else def_detail_timeout d)"

fun execute_steps :: "'s run_ops \<Rightarrow> ('s, 'c) env \<Rightarrow> report_worker \<Rightarrow> ctx \<Rightarrow> duration \<Rightarrow> int \<Rightarrow> 'c \<Rightarrow> query_step list
    \<Rightarrow> int \<Rightarrow> steps \<Rightarrow> ('s, steps) task" where
  "execute_steps ops env wk c timeout max_rows conn [] sofar acc = give acc"
| "execute_steps ops env wk c timeout max_rows conn (s # ss) sofar acc =
     andthen (run_query ops env wk c timeout conn (step_query s)) (\<lambda>rows.
       if sofar + int (length rows) > max_rows then stop (fatal ''REPORT_ROW_LIMIT_EXCEEDED'')
       else execute_steps ops env wk c timeout max_rows conn ss (sofar + int (length rows)) (AList.update (step_name s) rows acc))"

definition execute_plan :: "'s run_ops \<Rightarrow> ('s, 'c) env \<Rightarrow> report_worker \<Rightarrow> ctx \<Rightarrow> run_row \<Rightarrow> report_definition \<Rightarrow> 'c
    \<Rightarrow> query_plan \<Rightarrow> ('s, steps) task" where
  "execute_plan ops env wk c run d conn plan =
     execute_steps ops env wk c (query_timeout run d) (def_max_rows d) conn (plan_steps plan) 0 []"

definition empty_report_steps :: "key \<Rightarrow> steps" where
  "empty_report_steps k = (if k = SalesGoodsServices \<or> k = PurchaseGoodsPayables
     then [(''headers'', []), (''details'', [])] else [(''rows'', [])])"

definition should_use_chunks :: "report_worker \<Rightarrow> run_row \<Rightarrow> report_definition \<Rightarrow> result_kind \<Rightarrow> bool" where
  "should_use_chunks wk run d projection = (
     if \<not> wk_heavy_chunks wk \<or> \<not> def_chunk_safe d \<or> wk_chunk_targets wk = [] then False
     else if r_source run = SourceSchedule \<and> \<not> wk_schedule_chunks wk then False
     else if projection \<noteq> ResultSummary \<and> projection \<noteq> ResultDetail then False
     else (r_tenant run, r_key run) \<in> set (wk_chunk_targets wk))"

definition total_progress_steps :: "run_row \<Rightarrow> int" where
  "total_progress_steps run = (if comparison_supported (r_key run) (r_period run) then 6 else 5)"

definition progress :: "'s run_ops \<Rightarrow> ('s, 'c) env \<Rightarrow> report_worker \<Rightarrow> ctx \<Rightarrow> run_row \<Rightarrow> progress_phase \<Rightarrow> int
    \<Rightarrow> 's world \<Rightarrow> (run_error + unit) \<times> 's world" where
  "progress ops env wk c run phase n = call ops env wk c (\<lambda>s t. op_update_progress ops s (r_id run) (wk_id wk) phase n (total_progress_steps run) t)"

definition with_dashboard :: "run_row \<Rightarrow> period \<Rightarrow> steps \<Rightarrow> steps \<Rightarrow> string \<Rightarrow> summary_result \<Rightarrow> summary_error + summary_result" where
  "with_dashboard run comparison_p rows comparison_rows warning summary =
     bindr (build_dashboard (r_key run) (r_period run) comparison_p rows comparison_rows) (\<lambda>d.
       Inr (summary\<lparr>sum_dashboard := Some (if warning = [] then d else set_comparison_unavailable d warning)\<rparr>))"

section \<open>Direct execution\<close>

definition execute_comparison :: "'s run_ops \<Rightarrow> ('s, 'c) env \<Rightarrow> report_worker \<Rightarrow> ctx \<Rightarrow> run_row \<Rightarrow> report_definition \<Rightarrow> 'c
    \<Rightarrow> result_kind \<Rightarrow> period \<Rightarrow> ('s, steps \<times> string) task" where
  "execute_comparison ops env wk c run d conn projection comparison_p = (
     if \<not> comparison_supported (r_key run) (r_period run) then give (empty_report_steps (r_key run), [])
     else andthen (attempt (transient ''REPORT_PROGRESS_FAILED'') (progress ops env wk c run ProgressQueryingComparison 3)) (\<lambda>_.
       andthen (need (fatal ''REPORT_CONTRACT_INVALID'') (build_query_plan (r_key run) comparison_p projection)) (\<lambda>plan.
       rescue (andthen (execute_plan ops env wk c run d conn plan) (\<lambda>rows. give (rows, [])))
         (\<lambda>f. if fl_remote_unknown f then stop f
              else give (empty_report_steps (r_key run), ''COMPARISON_QUERY_FAILED'')))))"

definition execute_direct :: "'s run_ops \<Rightarrow> ('s, 'c) env \<Rightarrow> report_worker \<Rightarrow> ctx \<Rightarrow> run_row \<Rightarrow> report_definition \<Rightarrow> 'c
    \<Rightarrow> result_kind \<Rightarrow> ('s, summary_result) task" where
  "execute_direct ops env wk c run d conn projection =
     andthen (need (fatal ''REPORT_CONTRACT_INVALID'') (build_query_plan (r_key run) (r_period run) projection)) (\<lambda>plan.
     andthen (case op_set_consistency ops of None \<Rightarrow> give ()
        | Some set_consistency \<Rightarrow> attempt (transient ''REPORT_PROGRESS_FAILED'') (call ops env wk c (\<lambda>s t. set_consistency s (r_id run) (wk_id wk)
            (if length (plan_steps plan) > 1 \<or> comparison_supported (r_key run) (r_period run)
             then ConsistencySerialWindow else ConsistencyStatement) t))) (\<lambda>_.
     andthen (attempt (transient ''REPORT_PROGRESS_FAILED'') (progress ops env wk c run ProgressQueryingCurrent 2)) (\<lambda>_.
     andthen (execute_plan ops env wk c run d conn plan) (\<lambda>rows.
     andthen (need (fatal ''REPORT_OUTPUT_INVALID'') (summarize (r_key run) rows)) (\<lambda>summary.
     andthen (need (fatal ''REPORT_CONTRACT_INVALID'') (resolve_comparison_period (r_period run))) (\<lambda>comparison_p.
     andthen (execute_comparison ops env wk c run d conn projection comparison_p) (\<lambda>(comparison_rows, warning).
     andthen (attempt (transient ''REPORT_PROGRESS_FAILED'') (progress ops env wk c run ProgressBuildingDashboard
        (if total_progress_steps run = 6 then 4 else 3))) (\<lambda>_.
     need (fatal ''REPORT_OUTPUT_INVALID'') (with_dashboard run comparison_p rows comparison_rows warning summary)))))))))"

section \<open>Chunked execution\<close>

text \<open>One chunk: its rows, the rows of the comparison, and whether the comparison has failed.\<close>

definition chunk_comparison :: "'s run_ops \<Rightarrow> ('s, 'c) env \<Rightarrow> report_worker \<Rightarrow> ctx \<Rightarrow> run_row \<Rightarrow> report_definition \<Rightarrow> 'c
    \<Rightarrow> result_kind \<Rightarrow> period \<Rightarrow> chunk_manifest \<Rightarrow> ('s, steps \<times> bool) task" where
  "chunk_comparison ops env wk c run d conn projection comparison_p m = (
     let fail_chunk = (\<lambda>fc code. ignoring (call ops env wk fc (\<lambda>s t. op_fail_chunk ops s (r_id run) (wk_id wk) (cm_number m) code t)))
     in if \<not> comparison_supported (r_key run) (r_period run) then give ([], False)
     else (case chunk_query_plan (r_key run) comparison_p projection (cm_unit_keys m) of
       Inl _ \<Rightarrow> andthen (fail_chunk c ''REPORT_CONTRACT_INVALID'') (\<lambda>_. stop (fatal ''REPORT_CONTRACT_INVALID''))
     | Inr plan \<Rightarrow> rescue (andthen (execute_plan ops env wk c run d conn plan) (\<lambda>rows. give (rows, False)))
         (\<lambda>f. if fl_remote_unknown f then andthen (fail_chunk (DetachedCtx (r_id run)) (fl_code f)) (\<lambda>_. stop f)
              else give (empty_report_steps (r_key run), True))))"

definition execute_chunk :: "'s run_ops \<Rightarrow> ('s, 'c) env \<Rightarrow> report_worker \<Rightarrow> ctx \<Rightarrow> run_row \<Rightarrow> report_definition \<Rightarrow> 'c
    \<Rightarrow> result_kind \<Rightarrow> period \<Rightarrow> chunk_manifest \<Rightarrow> ('s, steps \<times> steps \<times> bool) task" where
  "execute_chunk ops env wk c run d conn projection comparison_p m = (
     let fail_chunk = (\<lambda>fc code. ignoring (call ops env wk fc (\<lambda>s t. op_fail_chunk ops s (r_id run) (wk_id wk) (cm_number m) code t)))
     in andthen (attempt (fatal ''REPORT_CHUNK_PROGRESS_FAILED'') (call ops env wk c (\<lambda>s t. op_start_chunk ops s (r_id run) (wk_id wk) (cm_number m) t))) (\<lambda>_.
     case chunk_query_plan (r_key run) (r_period run) projection (cm_unit_keys m) of
       Inl _ \<Rightarrow> andthen (fail_chunk c ''REPORT_CONTRACT_INVALID'') (\<lambda>_. stop (fatal ''REPORT_CONTRACT_INVALID''))
     | Inr plan \<Rightarrow> andthen (rescue (execute_plan ops env wk c run d conn plan)
           (\<lambda>f. andthen (fail_chunk (DetachedCtx (r_id run)) (fl_code f)) (\<lambda>_. stop f))) (\<lambda>current.
       andthen (chunk_comparison ops env wk c run d conn projection comparison_p m) (\<lambda>(comparison, failed).
       andthen (attempt (fatal ''REPORT_CHUNK_PROGRESS_FAILED'') (call ops env wk c (\<lambda>s t. op_complete_chunk ops s (r_id run) (wk_id wk) (cm_number m)
          (current, comparison) (int (length (concat (map snd current)))) t))) (\<lambda>_.
       give (current, comparison, failed))))))"

fun execute_chunks :: "'s run_ops \<Rightarrow> ('s, 'c) env \<Rightarrow> report_worker \<Rightarrow> ctx \<Rightarrow> run_row \<Rightarrow> report_definition \<Rightarrow> 'c
    \<Rightarrow> result_kind \<Rightarrow> period \<Rightarrow> chunk_manifest list \<Rightarrow> steps list \<Rightarrow> steps list \<Rightarrow> bool
    \<Rightarrow> ('s, steps list \<times> steps list \<times> bool) task" where
  "execute_chunks ops env wk c run d conn projection comparison_p [] cur prev failed = give (cur, prev, failed)"
| "execute_chunks ops env wk c run d conn projection comparison_p (m # ms) cur prev failed =
     andthen (execute_chunk ops env wk c run d conn projection comparison_p m) (\<lambda>(current, comparison, f).
       execute_chunks ops env wk c run d conn projection comparison_p ms (cur @ [current])
         (if comparison_supported (r_key run) (r_period run) then prev @ [comparison] else prev) (failed \<or> f))"

definition merged_comparison :: "run_row \<Rightarrow> result_kind \<Rightarrow> steps list \<Rightarrow> bool \<Rightarrow> steps \<times> string" where
  "merged_comparison run projection prev failed = (
     let warning = (if failed then ''COMPARISON_QUERY_FAILED'' else []) in
     if \<not> comparison_supported (r_key run) (r_period run) then (empty_report_steps (r_key run), warning)
     else (case merge_chunked_steps (r_key run) projection prev of
       Inl _ \<Rightarrow> (empty_report_steps (r_key run), ''COMPARISON_QUERY_FAILED'') | Inr rows \<Rightarrow> (rows, warning)))"

definition chunked_report :: "'s run_ops \<Rightarrow> ('s, 'c) env \<Rightarrow> report_worker \<Rightarrow> ctx \<Rightarrow> run_row \<Rightarrow> report_definition \<Rightarrow> 'c
    \<Rightarrow> result_kind \<Rightarrow> ('s, summary_result) task" where
  "chunked_report ops env wk c run d conn projection =
     andthen (attempt (transient ''REPORT_PROGRESS_FAILED'') (progress ops env wk c run ProgressQueryingCurrent 2)) (\<lambda>_.
     andthen (need (fatal ''REPORT_CONTRACT_INVALID'') (chunk_manifest_query (r_key run) (r_period run))) (\<lambda>(manifest_query, chunk_size).
     andthen (run_query ops env wk c (def_summary_timeout d) conn manifest_query) (\<lambda>manifest_rows.
     andthen (need (fatal ''REPORT_OUTPUT_INVALID'') (chunk_keys manifest_rows)) (\<lambda>unit_keys.
     let manifests = build_manifests (e_digest env) chunk_size unit_keys in
     andthen (attempt (fatal ''REPORT_CHUNK_MANIFEST_PERSIST_FAILED'') (call ops env wk c (\<lambda>s t. op_prepare_chunks ops s (r_id run) (wk_id wk) manifests t))) (\<lambda>_.
     andthen (need (fatal ''REPORT_CONTRACT_INVALID'') (resolve_comparison_period (r_period run))) (\<lambda>comparison_p.
     andthen (execute_chunks ops env wk c run d conn projection comparison_p manifests [] [] False) (\<lambda>(cur, prev, failed).
     andthen (need (fatal ''REPORT_OUTPUT_INVALID'') (merge_chunked_steps (r_key run) projection cur)) (\<lambda>rows.
     if int (length (concat (map snd rows))) > def_max_rows d then stop (fatal ''REPORT_ROW_LIMIT_EXCEEDED'')
     else (let (comparison_rows, warning) = merged_comparison run projection prev failed in
     andthen (attempt (transient ''REPORT_PROGRESS_FAILED'') (progress ops env wk c run ProgressBuildingDashboard
        (if comparison_supported (r_key run) (r_period run) then 4 else 3))) (\<lambda>_.
     andthen (need (fatal ''REPORT_OUTPUT_INVALID'') (summarize (r_key run) rows)) (\<lambda>summary.
     need (fatal ''REPORT_OUTPUT_INVALID'') (with_dashboard run comparison_p rows comparison_rows warning summary))))))))))))"

definition execute_chunked :: "'s run_ops \<Rightarrow> ('s, 'c) env \<Rightarrow> report_worker \<Rightarrow> ctx \<Rightarrow> run_row \<Rightarrow> report_definition \<Rightarrow> 'c
    \<Rightarrow> result_kind \<Rightarrow> ('s, summary_result) task" where
  "execute_chunked ops env wk c run d conn projection w = (
     if op_chunks ops then chunked_report ops env wk (with_timeout env (10 * minute) c w) run d conn projection w
     else stop (fatal ''REPORT_CHUNK_STORE_UNAVAILABLE'') w)"

section \<open>One run\<close>

definition opened :: "'c open_answer \<Rightarrow> failure + 'c" where
  "opened answer = (case answer of
     Opened conn \<Rightarrow> Inr conn
   | OpenFailed code retryable \<Rightarrow> Inl ((fatal code)\<lparr>fl_retryable := retryable\<rparr>)
   | NotConfigured \<Rightarrow> Inl (fatal ''SML_NOT_CONFIGURED'')
   | OpenError \<Rightarrow> Inl (transient ''SML_CONNECTION_LOAD_FAILED''))"

definition open_connection :: "'s run_ops \<Rightarrow> ('s, 'c) env \<Rightarrow> report_worker \<Rightarrow> ctx \<Rightarrow> run_row \<Rightarrow> ('s, 'c) task" where
  "open_connection ops env wk c run w = (opened (e_open env (w_tick w) (r_tenant run)), advance ops env wk c w)"

definition total_timeout :: "run_row \<Rightarrow> report_definition \<Rightarrow> duration" where
  "total_timeout run d = (let t = (if uses_summary_budget run then def_summary_total_timeout d else def_detail_total_timeout d)
     in if t \<le> 0 then query_timeout run d else t)"

definition run_projection :: "report_worker \<Rightarrow> run_row \<Rightarrow> result_kind" where
  "run_projection wk run = (let p = (if r_kind run = ResultKindUnset then ResultDetail else r_kind run)
     in if p = ResultSummary \<and> \<not> wk_summary_queries wk then ResultDetail else p)"

definition execute :: "'s run_ops \<Rightarrow> ('s, 'c) env \<Rightarrow> report_worker \<Rightarrow> run_row \<Rightarrow> ('s, summary_result) task" where
  "execute ops env wk run = (\<lambda>w. case definition_for (r_key run) of
     None \<Rightarrow> stop (fatal ''REPORT_CONTRACT_INVALID'') w
   | Some d \<Rightarrow> (let c = with_timeout env (total_timeout run d) (ExecCtx (r_id run) []) w;
         projection = run_projection wk run
       in andthen (open_connection ops env wk c run) (\<lambda>conn.
          if should_use_chunks wk run d projection then execute_chunked ops env wk c run d conn projection
          else execute_direct ops env wk c run d conn projection) w))"

definition safe_failure_message :: "string \<Rightarrow> string" where
  "safe_failure_message code = (
     if code = ''REPORT_OUTPUT_INVALID'' then utf8 [224, 184, 130, 224, 185, 137, 224, 184, 173, 224, 184, 161, 224, 184, 185, 224, 184, 165, 224, 184, 149, 224, 184, 177, 224, 184, 167, 224, 185, 128, 224, 184, 165, 224, 184, 130, 224, 184, 136, 224, 184, 178, 224, 184, 129, 32, 83, 77, 76, 32, 224, 184, 173, 224, 184, 162, 224, 184, 185, 224, 185, 136, 224, 185, 131, 224, 184, 153, 224, 184, 163, 224, 184, 185, 224, 184, 155, 224, 185, 129, 224, 184, 154, 224, 184, 154, 224, 184, 151, 224, 184, 181, 224, 185, 136, 224, 184, 163, 224, 184, 176, 224, 184, 154, 224, 184, 154, 224, 185, 132, 224, 184, 161, 224, 185, 136, 224, 184, 163, 224, 184, 173, 224, 184, 135, 224, 184, 163, 224, 184, 177, 224, 184, 154]
     else
     if code = ''REPORT_SET_INCOMPLETE'' then utf8 [224, 184, 170, 224, 184, 163, 224, 185, 137, 224, 184, 178, 224, 184, 135, 224, 184, 163, 224, 184, 178, 224, 184, 162, 224, 184, 135, 224, 184, 178, 224, 184, 153, 224, 185, 131, 224, 184, 153, 224, 184, 163, 224, 184, 173, 224, 184, 154, 224, 184, 153, 224, 184, 181, 224, 185, 137, 224, 185, 132, 224, 184, 161, 224, 185, 136, 224, 184, 132, 224, 184, 163, 224, 184, 154, 32, 224, 184, 163, 224, 184, 176, 224, 184, 154, 224, 184, 154, 224, 184, 136, 224, 184, 182, 224, 184, 135, 224, 185, 132, 224, 184, 161, 224, 185, 136, 224, 184, 170, 224, 185, 136, 224, 184, 135, 32, 76, 73, 78, 69]
     else
     if code = ''SML_ZIP_FORMAT_INVALID'' then utf8 [83, 101, 114, 118, 101, 114, 32, 224, 184, 165, 224, 184, 185, 224, 184, 129, 224, 184, 132, 224, 185, 137, 224, 184, 178, 224, 184, 170, 224, 185, 136, 224, 184, 135, 224, 184, 156, 224, 184, 165, 224, 184, 165, 224, 184, 177, 224, 184, 158, 224, 184, 152, 224, 185, 140, 224, 184, 129, 224, 184, 165, 224, 184, 177, 224, 184, 154, 224, 184, 161, 224, 184, 178, 224, 185, 131, 224, 184, 153, 224, 184, 163, 224, 184, 185, 224, 184, 155, 224, 185, 129, 224, 184, 154, 224, 184, 154, 32, 90, 73, 80, 32, 224, 184, 151, 224, 184, 181, 224, 185, 136, 224, 185, 132, 224, 184, 161, 224, 185, 136, 224, 184, 150, 224, 184, 185, 224, 184, 129, 224, 184, 149, 224, 185, 137, 224, 184, 173, 224, 184, 135]
     else
     if code = ''SML_ZIP_EMPTY'' then utf8 [83, 101, 114, 118, 101, 114, 32, 224, 184, 165, 224, 184, 185, 224, 184, 129, 224, 184, 132, 224, 185, 137, 224, 184, 178, 224, 184, 170, 224, 185, 136, 224, 184, 135, 224, 184, 156, 224, 184, 165, 224, 184, 165, 224, 184, 177, 224, 184, 158, 224, 184, 152, 224, 185, 140, 32, 90, 73, 80, 32, 224, 184, 151, 224, 184, 181, 224, 185, 136, 224, 185, 132, 224, 184, 161, 224, 185, 136, 224, 184, 161, 224, 184, 181, 224, 184, 130, 224, 185, 137, 224, 184, 173, 224, 184, 161, 224, 184, 185, 224, 184, 165, 224, 184, 129, 224, 184, 165, 224, 184, 177, 224, 184, 154, 224, 184, 161, 224, 184, 178]
     else
     if code = ''SML_ZIP_TOO_LARGE'' then utf8 [224, 184, 156, 224, 184, 165, 224, 184, 165, 224, 184, 177, 224, 184, 158, 224, 184, 152, 224, 185, 140, 224, 184, 136, 224, 184, 178, 224, 184, 129, 32, 83, 101, 114, 118, 101, 114, 32, 224, 184, 165, 224, 184, 185, 224, 184, 129, 224, 184, 132, 224, 185, 137, 224, 184, 178, 224, 184, 161, 224, 184, 181, 224, 184, 130, 224, 184, 153, 224, 184, 178, 224, 184, 148, 224, 185, 131, 224, 184, 171, 224, 184, 141, 224, 185, 136, 224, 185, 128, 224, 184, 129, 224, 184, 180, 224, 184, 153, 224, 184, 130, 224, 184, 173, 224, 184, 154, 224, 185, 128, 224, 184, 130, 224, 184, 149, 224, 184, 151, 224, 184, 181, 224, 185, 136, 224, 184, 155, 224, 184, 165, 224, 184, 173, 224, 184, 148, 224, 184, 160, 224, 184, 177, 224, 184, 162]
     else
     if code = ''SML_ZIP_READ_FAILED'' then utf8 [224, 184, 163, 224, 184, 176, 224, 184, 154, 224, 184, 154, 224, 184, 173, 224, 185, 136, 224, 184, 178, 224, 184, 153, 224, 184, 156, 224, 184, 165, 224, 184, 165, 224, 184, 177, 224, 184, 158, 224, 184, 152, 224, 185, 140, 32, 90, 73, 80, 32, 224, 184, 136, 224, 184, 178, 224, 184, 129, 32, 83, 101, 114, 118, 101, 114, 32, 224, 184, 165, 224, 184, 185, 224, 184, 129, 224, 184, 132, 224, 185, 137, 224, 184, 178, 224, 185, 132, 224, 184, 161, 224, 185, 136, 224, 184, 170, 224, 184, 179, 224, 185, 128, 224, 184, 163, 224, 185, 135, 224, 184, 136]
     else
     if code = ''SML_ZIP_INVALID'' then utf8 [224, 184, 156, 224, 184, 165, 224, 184, 165, 224, 184, 177, 224, 184, 158, 224, 184, 152, 224, 185, 140, 32, 90, 73, 80, 32, 224, 184, 136, 224, 184, 178, 224, 184, 129, 32, 83, 101, 114, 118, 101, 114, 32, 224, 184, 165, 224, 184, 185, 224, 184, 129, 224, 184, 132, 224, 185, 137, 224, 184, 178, 224, 185, 132, 224, 184, 161, 224, 185, 136, 224, 184, 170, 224, 184, 161, 224, 184, 154, 224, 184, 185, 224, 184, 163, 224, 184, 147, 224, 185, 140]
     else
     ''Report run failed safely ('' @ code @ '').'')"

text \<open>What to do with a failed run.\<close>

datatype settlement = SettleRemoteUnknown | SettleRetryPreRequest | SettleFailPreRequest | SettleRetry duration | SettleFail

definition settlement_of :: "run_row \<Rightarrow> failure \<Rightarrow> settlement" where
  "settlement_of run f = (
     if fl_remote_unknown f then SettleRemoteUnknown
     else if fl_pre_request f then
       (if r_source run = SourceDashboard \<and> r_attempt run < 2 then SettleRetryPreRequest else SettleFailPreRequest)
     else if fl_retryable f \<and> fl_code f \<noteq> ''SML_TIMEOUT'' \<and> r_source run \<noteq> SourceBackground
       \<and> r_attempt run < maximum_attempts
     then SettleRetry (30 * second * 2 ^ nat (r_attempt run - 1))
     else SettleFail)"

definition settle_failure :: "'s run_ops \<Rightarrow> ('s, 'c) env \<Rightarrow> report_worker \<Rightarrow> run_row \<Rightarrow> failure
    \<Rightarrow> 's world \<Rightarrow> (run_error + unit) \<times> 's world" where
  "settle_failure ops env wk run f = call ops env wk RootCtx (\<lambda>s now. case settlement_of run f of
     SettleRemoteUnknown \<Rightarrow> op_fail_remote_unknown ops s (r_id run) (wk_id wk) (fl_code f) (safe_failure_message (fl_code f)) now (now + 10 * minute)
   | SettleRetryPreRequest \<Rightarrow> op_retry_pre_request ops s (r_id run) (wk_id wk) (fl_code f) (now + 30 * second) now
   | SettleFailPreRequest \<Rightarrow> op_fail_pre_request ops s (r_id run) (wk_id wk) (fl_code f) (safe_failure_message (fl_code f)) now
   | SettleRetry backoff \<Rightarrow> op_retry ops s (r_id run) (wk_id wk) (fl_code f) (now + backoff) now
   | SettleFail \<Rightarrow> op_fail ops s (r_id run) (wk_id wk) (fl_code f) (safe_failure_message (fl_code f)) now)"

definition persist_rows :: "run_row \<Rightarrow> bool" where
  "persist_rows run \<longleftrightarrow> r_source run = SourceDashboard \<and> r_kind run \<noteq> ResultSummary"

definition settle_success :: "'s run_ops \<Rightarrow> ('s, 'c) env \<Rightarrow> report_worker \<Rightarrow> run_row \<Rightarrow> summary_result
    \<Rightarrow> 's world \<Rightarrow> (run_error + unit) \<times> 's world" where
  "settle_success ops env wk run summary w = (
     case progress ops env wk RootCtx run ProgressSavingResult (total_progress_steps run - 1) w of
       (Inl e, w') \<Rightarrow> (Inl e, w')
     | (Inr _, w') \<Rightarrow> call ops env wk RootCtx (\<lambda>s now. op_complete ops s (r_id run) (wk_id wk) summary (persist_rows run) now) w')"

text \<open>The end of an execution: an error of the heartbeat or of the process comes first.\<close>

definition settle :: "'s run_ops \<Rightarrow> ('s, 'c) env \<Rightarrow> report_worker \<Rightarrow> run_row \<Rightarrow> failure + summary_result
    \<Rightarrow> 's world \<Rightarrow> (run_error + unit) \<times> 's world" where
  "settle ops env wk run result w = (case w_lease_error w of
     Some e \<Rightarrow> (Inl e, w)
   | None \<Rightarrow> if e_shutdown env (w_tick w) then (Inl (ErrRun ''context canceled''), w)
     else (case result of Inl f \<Rightarrow> settle_failure ops env wk run f w | Inr summary \<Rightarrow> settle_success ops env wk run summary w))"

definition process_claimed :: "'s run_ops \<Rightarrow> ('s, 'c) env \<Rightarrow> report_worker \<Rightarrow> run_row
    \<Rightarrow> 's world \<Rightarrow> (run_error + unit) \<times> 's world" where
  "process_claimed ops env wk run w = (
     case call ops env wk RootCtx (\<lambda>s now. op_mark_running ops s (r_id run) (wk_id wk) lease_duration now) w of
       (Inl e, w1) \<Rightarrow> (Inl e, w1)
     | (Inr _, w1) \<Rightarrow> (case progress ops env wk RootCtx run ProgressConnecting 1 w1 of
         (Inl e, w2) \<Rightarrow> (Inl e, w2)
       | (Inr _, w2) \<Rightarrow> (case execute ops env wk run (w2\<lparr>w_cancelled := False, w_lease_error := None\<rparr>) of
           (result, w3) \<Rightarrow> settle ops env wk run result w3)))"

text \<open>ProcessOne, and the run that it has claimed.\<close>

definition process_one :: "'s run_ops \<Rightarrow> ('s, 'c) env \<Rightarrow> report_worker \<Rightarrow> 's world \<Rightarrow> run_row option \<times> (run_error + unit) \<times> 's world" where
  "process_one ops env wk w = (let i = w_tick w; w1 = advance ops env wk RootCtx w in
     if ctx_done env RootCtx i False then (None, Inl (ErrRun ''context''), w1)
     else (case op_claim ops (w_store w1) (wk_id wk) lease_duration (e_clock env i) of
       Inl e \<Rightarrow> (None, Inl e, w1)
     | Inr (s, run) \<Rightarrow> (case e_fault env i of
         FaultBefore \<Rightarrow> (None, Inl (ErrRun ''store''), w1)
       | FaultAfter \<Rightarrow> (None, Inl (ErrRun ''store''), w1\<lparr>w_store := s\<rparr>)
       | NoFault \<Rightarrow> (Some run, process_claimed ops env wk run (w1\<lparr>w_store := s\<rparr>)))))"

section \<open>The store of the worker\<close>

text \<open>encoded_length and encode_chunk stand for encoding/json, locked for the rows that other
  transactions hold at each instant.\<close>

definition report_ops :: "store_config \<Rightarrow> (dashboard \<Rightarrow> nat) \<Rightarrow> (steps \<times> steps \<Rightarrow> string) \<Rightarrow> (instant \<Rightarrow> uuid list) \<Rightarrow> db run_ops" where
  "report_ops cfg encoded_length encode_chunk locked = \<lparr>
     op_claim = \<lambda>db worker lease now. claim_run cfg db (locked now) worker lease now,
     op_mark_running = mark_running, op_update_progress = update_progress, op_extend_lease = extend_lease,
     op_complete = complete_run encoded_length, op_retry = retry_run, op_retry_pre_request = retry_pre_request_failure,
     op_fail = fail_run, op_fail_pre_request = fail_pre_request_failure, op_fail_remote_unknown = fail_remote_unknown,
     op_set_consistency = Some set_source_consistency, op_chunks = True, op_prepare_chunks = prepare_chunks,
     op_start_chunk = start_chunk,
     op_complete_chunk = \<lambda>db run worker number payload row_count now. complete_chunk db run worker number (encode_chunk payload) row_count now,
     op_fail_chunk = fail_chunk\<rparr>"

end
