(* ===== verification/WorkerProps.thy ===== *)
theory WorkerProps
  imports Worker RunRecovery QueryPlanProps
begin

text \<open>
  What the worker guarantees: the log of its queries, the settlement of the run it has claimed, and the
  report as a function of the answers.
\<close>

section \<open>The log of the queries\<close>

lemma beat_log: "w_log (beat ops env wk run t w) = w_log w"
  by (simp add: beat_def split: sum.split)

lemma happen_log: "w_log (happen ops env wk c h w) = w_log w"
  by (cases h; cases c) (simp_all add: happen_def beat_log)

lemma advance_log [simp]: "w_log (advance ops env wk c w) = w_log w"
proof -
  have "w_log (fold (happen ops env wk c) hs w) = w_log w" for hs
    by (induction hs arbitrary: w) (simp_all add: happen_log)
  then show ?thesis by (simp add: advance_def)
qed

lemma call_log: "call ops env wk c f w = (r, w') \<Longrightarrow> w_log w' = w_log w"
  by (auto simp: call_def Let_def split: if_splits sum.splits fault.splits)

lemma call_log_snd [simp]: "w_log (snd (call ops env wk c f w)) = w_log w"
  by (cases "call ops env wk c f w") (simp add: call_log)

text \<open>A query whose outcome at the customer is known.\<close>

definition known :: "string \<times> query_answer \<Rightarrow> bool" where
  "known q = (case snd q of Answered _ \<Rightarrow> True | AnsweredError e \<Rightarrow> \<not> fl_remote_unknown (failure_of_error e))"

definition log_of :: "failure + 'a \<Rightarrow> (string \<times> query_answer) list \<Rightarrow> bool" where
  "log_of r entries = (case r of
     Inr _ \<Rightarrow> list_all known entries
   | Inl f \<Rightarrow> if fl_remote_unknown f then entries \<noteq> [] \<and> \<not> known (last entries) \<and> list_all known (butlast entries) else list_all known entries)"

definition careful :: "('s, 'a) task \<Rightarrow> bool" where
  "careful m \<longleftrightarrow> (\<forall>w. \<exists>entries. w_log (snd (m w)) = w_log w @ entries \<and> log_of (fst (m w)) entries)"

lemma carefulI: "(\<And>w. \<exists>entries. w_log (snd (m w)) = w_log w @ entries \<and> log_of (fst (m w)) entries) \<Longrightarrow> careful m"
  by (simp add: careful_def)

lemma careful_quiet: "(\<And>w. w_log (snd (m w)) = w_log w \<and> (\<forall>f. fst (m w) = Inl f \<longrightarrow> \<not> fl_remote_unknown f)) \<Longrightarrow> careful m"
  by (rule carefulI, rule exI[of _ "[]"]) (auto simp: log_of_def split: sum.split)

lemma careful_give: "careful (give x)"
  by (rule careful_quiet) (simp add: give_def)

lemma careful_stop: "\<not> fl_remote_unknown f \<Longrightarrow> careful (stop f)"
  by (rule careful_quiet) (simp add: stop_def)

lemma careful_need: "\<not> fl_remote_unknown f \<Longrightarrow> careful (need f r)"
  by (cases r) (simp_all add: need_def careful_give careful_stop)

lemma careful_attempt: "\<not> fl_remote_unknown f \<Longrightarrow> careful (attempt f (call ops env wk c g))"
  by (rule careful_quiet) (auto simp: attempt_def dest!: call_log split: prod.splits sum.splits)

lemma careful_ignoring: "careful (ignoring (call ops env wk c g))"
  by (rule careful_quiet) (auto simp: ignoring_def dest!: call_log split: prod.splits)

lemma log_of_append: "list_all known l \<Longrightarrow> log_of r k \<Longrightarrow> log_of r (l @ k)"
  by (auto simp: log_of_def butlast_append split: sum.splits if_splits)

lemma careful_andthen:
  assumes "careful m" "\<And>x. careful (k x)" shows "careful (andthen m k)"
proof (rule carefulI)
  fix w
  obtain r w1 where m: "m w = (r, w1)" by (cases "m w")
  obtain l where l: "w_log w1 = w_log w @ l" "log_of r l" using assms(1) m unfolding careful_def by (metis fst_conv snd_conv)
  show "\<exists>entries. w_log (snd (andthen m k w)) = w_log w @ entries \<and> log_of (fst (andthen m k w)) entries"
  proof (cases r)
    case (Inl f)
    then show ?thesis using m l by (auto simp: andthen_def log_of_def)
  next
    case (Inr x)
    obtain l2 where l2: "w_log (snd (k x w1)) = w_log w1 @ l2" "log_of (fst (k x w1)) l2" using assms(2) unfolding careful_def by blast
    have "list_all known l" using l(2) Inr by (simp add: log_of_def)
    then show ?thesis using m Inr l l2 log_of_append by (auto simp: andthen_def intro!: exI[of _ "l @ l2"])
  qed
qed

text \<open>A handler that passes on the failure it gets.\<close>

definition passes :: "failure \<Rightarrow> ('s, 'a) task \<Rightarrow> bool" where
  "passes f m \<longleftrightarrow> (\<forall>w. fst (m w) = Inl f \<and> w_log (snd (m w)) = w_log w)"

lemma passes_stop: "passes f (stop f)"
  by (simp add: passes_def stop_def)

lemma passes_ignoring: "passes f (andthen (ignoring (call ops env wk c g)) (\<lambda>_. stop f))"
  by (auto simp: passes_def andthen_def ignoring_def stop_def dest!: call_log split: prod.splits)

lemma careful_rescue:
  assumes "careful m" "\<And>f. fl_remote_unknown f \<Longrightarrow> passes f (h f)" "\<And>f. \<not> fl_remote_unknown f \<Longrightarrow> careful (h f)"
  shows "careful (rescue m h)"
proof (rule carefulI)
  fix w
  obtain r w1 where m: "m w = (r, w1)" by (cases "m w")
  obtain l where l: "w_log w1 = w_log w @ l" "log_of r l" using assms(1) m unfolding careful_def by (metis fst_conv snd_conv)
  show "\<exists>entries. w_log (snd (rescue m h w)) = w_log w @ entries \<and> log_of (fst (rescue m h w)) entries"
  proof (cases r)
    case (Inr x)
    then show ?thesis using m l by (auto simp: rescue_def log_of_def)
  next
    case (Inl f)
    show ?thesis
    proof (cases "fl_remote_unknown f")
      case True
      then have "fst (h f w1) = Inl f" "w_log (snd (h f w1)) = w_log w1" using assms(2) by (auto simp: passes_def)
      then show ?thesis using m Inl l by (auto simp: rescue_def)
    next
      case False
      obtain l2 where l2: "w_log (snd (h f w1)) = w_log w1 @ l2" "log_of (fst (h f w1)) l2" using assms(3)[OF False] unfolding careful_def by blast
      have "list_all known l" using l(2) Inl False by (simp add: log_of_def)
      then show ?thesis using m Inl l l2 log_of_append by (auto simp: rescue_def intro!: exI[of _ "l @ l2"])
    qed
  qed
qed

lemma failures_known [simp]: "\<not> fl_remote_unknown (fatal code)" "\<not> fl_remote_unknown (transient code)"
  by (simp_all add: fatal_def transient_def)

lemma careful_query: "careful (run_query ops env wk c timeout conn q)"
proof (cases "render_sql q")
  case (Inl e)
  then show ?thesis by (simp add: run_query_def careful_stop)
next
  case (Inr t)
  show ?thesis
  proof (rule carefulI)
    fix w
    show "\<exists>entries. w_log (snd (run_query ops env wk c timeout conn q w)) = w_log w @ entries
        \<and> log_of (fst (run_query ops env wk c timeout conn q w)) entries"
      using Inr by (auto simp: run_query_def ask_def Let_def log_of_def known_def split: query_answer.split)
  qed
qed

lemma careful_steps: "careful (execute_steps ops env wk c timeout max_rows conn ss sofar acc)"
  by (induction ss arbitrary: sofar acc) (auto intro!: careful_give careful_andthen careful_query careful_stop)

lemma careful_plan: "careful (execute_plan ops env wk c run d conn plan)"
  unfolding execute_plan_def by (rule careful_steps)

lemmas careful_rules = careful_give careful_stop careful_need careful_attempt careful_ignoring careful_andthen careful_query
  careful_plan passes_stop passes_ignoring failures_known

lemma careful_progress: "\<not> fl_remote_unknown f \<Longrightarrow> careful (attempt f (progress ops env wk c run phase n))"
  unfolding progress_def by (rule careful_attempt)

lemma careful_comparison: "careful (execute_comparison ops env wk c run d conn projection p)"
  unfolding execute_comparison_def
  by (auto intro!: careful_rules careful_progress careful_rescue)

lemma careful_direct: "careful (execute_direct ops env wk c run d conn projection)"
  unfolding execute_direct_def
  by (auto intro!: careful_rules careful_progress careful_comparison split: option.split)

lemma careful_chunk: "careful (execute_chunk ops env wk c run d conn projection p m)"
  unfolding execute_chunk_def chunk_comparison_def Let_def
  by (auto intro!: careful_rules careful_rescue split: sum.split)

lemma careful_chunks: "careful (execute_chunks ops env wk c run d conn projection p ms cur prev failed)"
  by (induction ms arbitrary: cur prev failed) (auto intro!: careful_rules careful_chunk)

lemma careful_chunked_report: "careful (chunked_report ops env wk c run d conn projection)"
  unfolding chunked_report_def Let_def
  by (auto intro!: careful_rules careful_progress careful_chunks split: prod.split)

lemma careful_chunked: "careful (execute_chunked ops env wk c run d conn projection)"
proof (rule carefulI)
  fix w
  show "\<exists>entries. w_log (snd (execute_chunked ops env wk c run d conn projection w)) = w_log w @ entries
      \<and> log_of (fst (execute_chunked ops env wk c run d conn projection w)) entries"
    using careful_chunked_report[of ops env wk "with_timeout env (10 * minute) c w" run d conn projection]
    by (auto simp: execute_chunked_def careful_def stop_def log_of_def)
qed

lemma careful_open: "careful (open_connection ops env wk c run)"
  by (rule careful_quiet) (simp add: open_connection_def opened_def fatal_def transient_def split: open_answer.split)

lemma careful_execute: "careful (execute ops env wk run)"
proof (cases "definition_for (r_key run)")
  case None
  then show ?thesis by (simp add: execute_def careful_stop)
next
  case (Some d)
  show ?thesis
  proof (rule carefulI)
    fix w
    have "careful (andthen (open_connection ops env wk c run) (\<lambda>conn.
        if should_use_chunks wk run d (run_projection wk run) then execute_chunked ops env wk c run d conn (run_projection wk run)
        else execute_direct ops env wk c run d conn (run_projection wk run)))" for c
      by (auto intro!: careful_andthen careful_open careful_chunked careful_direct)
    then show "\<exists>entries. w_log (snd (execute ops env wk run w)) = w_log w @ entries \<and> log_of (fst (execute ops env wk run w)) entries"
      using Some by (simp add: execute_def careful_def Let_def)
  qed
qed

section \<open>The settlement of a run\<close>

text \<open>
  What the worker needs of a store: the run has the outcome that the call names, and the call for an
  unknown outcome holds back the runs of the tenant until the given instant.
\<close>

locale run_service =
  fixes ops :: "'s run_ops"
    and outcome :: "'s \<Rightarrow> uuid \<Rightarrow> run_status \<Rightarrow> bool"
    and paused :: "'s \<Rightarrow> uuid \<Rightarrow> instant \<Rightarrow> bool"
  assumes completed: "op_complete ops s run worker summary persist now = Inr s' \<Longrightarrow> outcome s' run StatusSucceeded"
    and retried: "op_retry ops s run worker code available_at now = Inr s' \<Longrightarrow> outcome s' run StatusQueued"
    and retried_host: "op_retry_pre_request ops s run worker code available_at now = Inr s' \<Longrightarrow> outcome s' run StatusQueued"
    and failed: "op_fail ops s run worker code message now = Inr s' \<Longrightarrow> outcome s' run StatusFailed"
    and failed_host: "op_fail_pre_request ops s run worker code message now = Inr s' \<Longrightarrow> outcome s' run StatusFailed"
    and failed_remote: "op_fail_remote_unknown ops s run worker code message now until = Inr s' \<Longrightarrow>
      outcome s' run StatusFailed \<and> (\<forall>t < until. paused s' run t)"

definition retries :: "run_row \<Rightarrow> failure \<Rightarrow> bool" where
  "retries run f = (case settlement_of run f of SettleRetryPreRequest \<Rightarrow> True | SettleRetry _ \<Rightarrow> True | _ \<Rightarrow> False)"

lemma retries_limited:
  "retries run f \<Longrightarrow> r_attempt run < 3 \<and> r_source run \<noteq> SourceBackground \<and> \<not> fl_remote_unknown f"
  by (auto simp: retries_def settlement_of_def maximum_attempts_def split: if_splits)

lemma call_done:
  assumes "call ops env wk c f w = (Inr (), w')"
  shows "\<exists>s. f s (e_clock env (w_tick w)) = Inr (w_store w')" "w_tick w' = Suc (w_tick w)" "w_log w' = w_log w"
proof -
  have t: "w_tick (advance ops env wk c w) = Suc (w_tick w)" by (simp add: advance_def)
  show "\<exists>s. f s (e_clock env (w_tick w)) = Inr (w_store w')" "w_tick w' = Suc (w_tick w)" "w_log w' = w_log w"
    using assms t by (auto simp: call_def Let_def split: if_splits sum.splits fault.splits)
qed

context run_service
begin

definition settled :: "('s, 'c) env \<Rightarrow> run_row \<Rightarrow> failure + summary_result \<Rightarrow> 's world \<Rightarrow> bool" where
  "settled env run result w = (case result of
     Inr _ \<Rightarrow> outcome (w_store w) (r_id run) StatusSucceeded
   | Inl f \<Rightarrow> outcome (w_store w) (r_id run) (if retries run f then StatusQueued else StatusFailed)
       \<and> (fl_remote_unknown f \<longrightarrow> (\<forall>t < e_clock env (w_tick w - 1) + 10 * minute. paused (w_store w) (r_id run) t)))"

lemma failure_settled:
  assumes "settle_failure ops env wk run f w = (Inr (), w')"
  shows "settled env run (Inl f) w'" "w_log w' = w_log w"
proof -
  note d = call_done[OF assms[unfolded settle_failure_def]]
  show "w_log w' = w_log w" by (rule d)
  have tick: "w_tick w' - Suc 0 = w_tick w" using d(2) by simp
  show "settled env run (Inl f) w'"
  proof (cases "fl_remote_unknown f")
    case True
    then have "settlement_of run f = SettleRemoteUnknown" by (simp add: settlement_of_def)
    with d(1) True failed_remote show ?thesis by (auto simp: settled_def retries_def tick)
  next
    case False
    then have "settlement_of run f \<noteq> SettleRemoteUnknown" by (simp add: settlement_of_def)
    with d(1) False retried retried_host failed failed_host show ?thesis
      by (cases "settlement_of run f") (auto simp: settled_def retries_def)
  qed
qed

lemma result_settled:
  assumes "settle ops env wk run result w = (Inr (), w')"
  shows "settled env run result w' \<and> w_log w' = w_log w"
proof (cases result)
  case (Inl f)
  with assms have "settle_failure ops env wk run f w = (Inr (), w')"
    by (auto simp: settle_def split: option.splits if_splits)
  from failure_settled[OF this] Inl show ?thesis by simp
next
  case (Inr summary)
  with assms have "settle_success ops env wk run summary w = (Inr (), w')"
    by (auto simp: settle_def split: option.splits if_splits)
  then obtain w1 where p: "progress ops env wk RootCtx run ProgressSavingResult (total_progress_steps run - 1) w = (Inr (), w1)"
    and c: "call ops env wk RootCtx (\<lambda>s now. op_complete ops s (r_id run) (wk_id wk) summary (persist_rows run) now) w1 = (Inr (), w')"
    by (auto simp: settle_success_def split: prod.splits sum.splits)
  from call_done(1)[OF c] completed Inr have "settled env run result w'" by (auto simp: settled_def)
  with call_done(3)[OF c] call_done(3)[OF p[unfolded progress_def]] show ?thesis by simp
qed

lemma claimed_settled:
  assumes "process_claimed ops env wk run w = (Inr (), w')"
  shows "\<exists>result entries. w_log w' = w_log w @ entries \<and> log_of result entries \<and> settled env run result w'"
proof -
  obtain w1 w2 result w3 where m: "call ops env wk RootCtx (\<lambda>s now. op_mark_running ops s (r_id run) (wk_id wk) lease_duration now) w = (Inr (), w1)"
    and p: "progress ops env wk RootCtx run ProgressConnecting 1 w1 = (Inr (), w2)"
    and e: "execute ops env wk run (w2\<lparr>w_cancelled := False, w_lease_error := None\<rparr>) = (result, w3)"
    and s: "settle ops env wk run result w3 = (Inr (), w')"
    using assms by (auto simp: process_claimed_def split: prod.splits sum.splits)
  from careful_execute[of ops env wk run] obtain entries where "w_log w3 = w_log w2 @ entries" "log_of result entries"
    using e unfolding careful_def by (metis fst_conv snd_conv world.select_convs(5) world.surjective world.update_convs(3,4))
  with result_settled[OF s] call_done(3)[OF m] call_done(3)[OF p[unfolded progress_def]] show ?thesis by auto
qed

end

text \<open>The database is such a store.\<close>

definition has_status :: "db \<Rightarrow> uuid \<Rightarrow> run_status \<Rightarrow> bool" where
  "has_status db run st \<longleftrightarrow> (\<exists>r \<in> set (db_runs db). r_id r = run \<and> r_status r = st)"

definition tenant_paused :: "db \<Rightarrow> uuid \<Rightarrow> instant \<Rightarrow> bool" where
  "tenant_paused db run t \<longleftrightarrow> (\<exists>r \<in> set (db_runs db). r_id r = run \<and> tenant_circuit_open db (r_tenant r) t)"

lemma guarded_status:
  assumes "guarded_update run p f db = Inr db'" "\<And>r. r_id (f r) = r_id r \<and> r_status (f r) = st"
  shows "has_status db' run st"
proof -
  from assms(1) have c: "0 < count_where (\<lambda>r. r_id r = run \<and> p r) (db_runs db)" and d: "db' = update_run run p f db"
    by (simp_all add: guarded_update_Inr)
  from c obtain r where "r \<in> set (db_runs db)" "r_id r = run" "p r" by (auto simp: count_where_pos_iff)
  then have "f r \<in> set (db_runs db')" "r_id (f r) = run" using assms(2) by (auto simp: d set_update_where image_iff)
  with assms(2) show ?thesis unfolding has_status_def by blast
qed

lemma settle_keeps_terminal:
  assumes "runs_settle db db'" "has_status db run st" "st = StatusFailed \<or> st = StatusSucceeded"
  shows "has_status db' run st"
proof -
  obtain r where r: "r \<in> set (db_runs db)" "r_id r = run" "r_status r = st" using assms(2) unfolding has_status_def by blast
  with assms(3) have "is_terminal r" by (auto simp: is_terminal_def)
  with r(1) assms(1) have "r \<in> set (db_runs db')"
    by (auto simp: runs_settle_def settles_def follows_def list_all2_conv_all_nth in_set_conv_nth)
  with r show ?thesis unfolding has_status_def by blast
qed

lemma settle_keeps_run:
  assumes "runs_settle db db'" "r \<in> set (db_runs db)"
  shows "\<exists>r' \<in> set (db_runs db'). r_id r' = r_id r \<and> r_tenant r' = r_tenant r"
proof -
  obtain i where "i < length (db_runs db)" "r = db_runs db ! i" using assms(2) by (auto simp: in_set_conv_nth)
  with assms(1) have "db_runs db' ! i \<in> set (db_runs db')" "settles r (db_runs db' ! i)"
    by (auto simp: runs_settle_def list_all2_conv_all_nth)
  then show ?thesis by (auto simp: settles_def follows_def same_run_def)
qed

lemma fail_row_status: "r_id (fail_row code message now b r) = r_id r \<and> r_status (fail_row code message now b r) = StatusFailed"
  by (simp add: fail_row_def)

lemma failure_tail_status:
  "guarded_update run p (fail_row code message now b) db = Inr db1 \<Longrightarrow> db_runs db2 = db_runs db1
   \<Longrightarrow> has_status (update_generations run now (fail_occurrence_of src run now db2)) run StatusFailed"
  by (rule settle_keeps_terminal[OF failure_tail_settles])
    (use guarded_status[of run p "fail_row code message now b" db db1 StatusFailed] fail_row_status in \<open>auto simp: has_status_def\<close>)

lemma circuits_kept: "db_circuits (update_generations run now (fail_occurrence_of src run now db)) = db_circuits db"
  by (auto simp: update_generations_def fail_occurrence_of_def fail_scheduled_occurrence_def Let_def split: option.splits)

lemma fail_remote_unknown_pauses:
  assumes "fail_remote_unknown db run worker code message now until = Inr db'"
  shows "has_status db' run StatusFailed \<and> (\<forall>t < until. tenant_paused db' run t)"
proof -
  obtain tenant src where i: "run_identity db run = (tenant, src)" by (cases "run_identity db run")
  let ?fail = "fail_row code message now True"
  let ?p = "\<lambda>r. owned worker now r \<and> is_active r"
  obtain db1 where g: "guarded_update run ?p ?fail db = Inr db1"
    and d: "db' = update_generations run now (fail_occurrence_of src run now
        (db1\<lparr>db_circuits := open_circuit tenant now until (db_circuits db1)\<rparr>))"
    using assms i by (auto simp: fail_remote_unknown_def Let_def split: if_splits)
  have "holds_lease db run worker now" by (rule guarded_fence[OF g])
  then obtain r where r: "find_run db run = Some r" "r \<in> set (db_runs db)" "r_id r = run"
    using find_where_Some find_where_None unfolding holds_lease_def find_run_def
    by (metis (mono_tags, lifting) not_Some_eq)
  with i have t: "r_tenant r = tenant" by (simp add: run_identity_def)
  have "runs_settle db db1" by (rule guarded_settles[OF g]) (simp add: fail_row_settles)
  moreover have "runs_settle db1 db'" unfolding d
    by (rule runs_settle_trans[OF runs_settle_same failure_tail_settles]) simp
  ultimately have "runs_settle db db'" by (rule runs_settle_trans)
  from settle_keeps_run[OF this r(2)] r t obtain r' where r': "r' \<in> set (db_runs db')" "r_id r' = run" "r_tenant r' = tenant" by auto
  have "tenant_circuit_open db' tenant t" if "t < until" for t
    using open_circuit_opens[OF that, where db = db1 and tenant = tenant and now = now and cs = "db_circuits db1"] by (simp add: tenant_circuit_open_def d circuits_kept)
  with r' have "\<forall>t < until. tenant_paused db' run t" unfolding tenant_paused_def by blast
  moreover have "has_status db' run StatusFailed" unfolding d by (rule failure_tail_status[OF g]) simp
  ultimately show ?thesis by blast
qed

interpretation db_service: run_service "report_ops cfg enc enc_chunk locked" has_status tenant_paused
  for cfg enc enc_chunk locked
proof
  fix s run worker summary persist now s'
  assume "op_complete (report_ops cfg enc enc_chunk locked) s run worker summary persist now = Inr s'"
  from complete_run_Inr[of enc s run worker summary persist now s'] this
  obtain stored dash db1 where e: "db_runs s' = db_runs db1"
    and g: "guarded_update run (\<lambda>r. r_claimed_by r = Some worker \<and> r_status r = StatusRunning)
         (complete_row summary dash now (now + 24 * hour)) (s\<lparr>db_result_rows := stored\<rparr>) = Inr db1"
    by (auto simp: report_ops_def)
  have "has_status db1 run StatusSucceeded" by (rule guarded_status[OF g]) (simp add: complete_row_def)
  with e show "has_status s' run StatusSucceeded" by (simp add: has_status_def)
next
  fix s run worker code available_at now s'
  assume "op_retry (report_ops cfg enc enc_chunk locked) s run worker code available_at now = Inr s'"
  then show "has_status s' run StatusQueued" unfolding report_ops_def retry_run_def
    by (simp, elim guarded_status) (simp add: requeue_def)
next
  fix s run worker code available_at now s'
  assume "op_retry_pre_request (report_ops cfg enc enc_chunk locked) s run worker code available_at now = Inr s'"
  then obtain db1 where g: "guarded_update run (\<lambda>r. owned worker now r \<and> is_active r) (requeue code available_at now) s = Inr db1"
    and r: "db_runs s' = db_runs db1"
    by (auto simp: report_ops_def retry_pre_request_failure_def record_host_failure_runs)
  have "has_status db1 run StatusQueued" by (rule guarded_status[OF g]) (simp add: requeue_def)
  with r show "has_status s' run StatusQueued" by (simp add: has_status_def)
next
  fix s run worker code message now s'
  assume "op_fail (report_ops cfg enc enc_chunk locked) s run worker code message now = Inr s'"
  then show "has_status s' run StatusFailed"
    by (auto simp: report_ops_def fail_run_def Let_def split: prod.splits elim!: failure_tail_status)
next
  fix s run worker code message now s'
  assume "op_fail_pre_request (report_ops cfg enc enc_chunk locked) s run worker code message now = Inr s'"
  then show "has_status s' run StatusFailed"
    by (auto simp: report_ops_def fail_pre_request_failure_def record_host_failure_runs split: prod.splits elim!: failure_tail_status)
next
  fix s run worker code message now until s'
  assume "op_fail_remote_unknown (report_ops cfg enc enc_chunk locked) s run worker code message now until = Inr s'"
  then show "has_status s' run StatusFailed \<and> (\<forall>t < until. tenant_paused s' run t)"
    by (intro fail_remote_unknown_pauses) (simp add: report_ops_def)
qed

section \<open>Properties\<close>

text \<open>C6: When the processing of a claimed run ends without an error, the run has succeeded, has failed,
  or waits for another attempt; it waits only before its third attempt, if it is no background run, and
  if the outcome of every query it has sent is known.\<close>

theorem claimed_run_settled:
  assumes "process_claimed (report_ops cfg enc enc_chunk locked) env wk run w = (Inr (), w')"
  shows "has_status (w_store w') (r_id run) StatusSucceeded \<or> has_status (w_store w') (r_id run) StatusFailed
    \<or> has_status (w_store w') (r_id run) StatusQueued \<and> r_attempt run < 3 \<and> r_source run \<noteq> SourceBackground
      \<and> (\<exists>entries. w_log w' = w_log w @ entries \<and> list_all known entries)"
proof -
  obtain result entries where l: "w_log w' = w_log w @ entries" "log_of result entries" and s: "db_service.settled env run result w'"
    using db_service.claimed_settled[OF assms] by blast
  show ?thesis
  proof (cases result)
    case (Inr summary)
    with s show ?thesis by (simp add: db_service.settled_def)
  next
    case (Inl f)
    show ?thesis
    proof (cases "retries run f")
      case True
      from retries_limited[OF this] l Inl s True show ?thesis by (auto simp: db_service.settled_def log_of_def)
    next
      case False
      with s Inl show ?thesis by (simp add: db_service.settled_def)
    qed
  qed
qed

lemma paused_not_claimable: "tenant_circuit_open db (r_tenant r) t \<Longrightarrow> \<not> claimable cfg db t r"
  by (simp add: claimable_def)

lemma in_but_not_front: "q \<in> set xs \<Longrightarrow> q \<notin> set (butlast xs) \<Longrightarrow> q = last xs"
  by (cases xs rule: rev_cases) auto



section \<open>An example\<close>

text \<open>The customer's service does not answer in time, nothing else happens.\<close>

definition sample_time :: instant where "sample_time = 10 * hour + 2 * second"

definition quiet_env :: "(db, unit) env" where
  "quiet_env = \<lparr>e_clock = \<lambda>_. sample_time, e_between = \<lambda>_. [], e_shutdown = \<lambda>_. False, e_fault = \<lambda>_. NoFault,
     e_open = \<lambda>_ _. Opened (), e_client = \<lambda>_ _ _ _. AnsweredError DeadlinePassed, e_digest = \<lambda>s. s\<rparr>"

definition sample_worker :: report_worker where
  "sample_worker = \<lparr>wk_id = ''w1'', wk_summary_queries = True, wk_heavy_chunks = False, wk_schedule_chunks = False,
     wk_chunk_targets = []\<rparr>"

definition sample_ops :: "db run_ops" where
  "sample_ops = report_ops sample_config (\<lambda>_. 0) (\<lambda>_. '''') (\<lambda>_. [])"

definition claimed_run :: run_row where "claimed_run = hd (db_runs claimed_db)"

definition sample_world :: "db world" where
  "sample_world = \<lparr>w_store = claimed_db, w_tick = 0, w_cancelled = False, w_lease_error = None, w_log = []\<rparr>"

definition active_at :: "db \<Rightarrow> bool" where
  "active_at db \<longleftrightarrow> count_where (\<lambda>r. r_id r = 100 \<and> owned ''w1'' sample_time r \<and> is_active r) (db_runs db) = 1"

lemma sample_calls:
  "case mark_running claimed_db 100 ''w1'' lease_duration sample_time of Inl _ \<Rightarrow> False | Inr db1 \<Rightarrow>
   (case update_progress db1 100 ''w1'' ProgressConnecting 1 6 sample_time of Inl _ \<Rightarrow> False | Inr db2 \<Rightarrow>
   (case set_source_consistency db2 100 ''w1'' ConsistencySerialWindow sample_time of Inl _ \<Rightarrow> False | Inr db3 \<Rightarrow>
   (case update_progress db3 100 ''w1'' ProgressQueryingCurrent 2 6 sample_time of Inl _ \<Rightarrow> False | Inr db4 \<Rightarrow> active_at db4)))"
  by code_simp

lemma claimed_run_fields:
  "(r_id claimed_run, r_key claimed_run, r_kind claimed_run, r_period claimed_run)
     = (100, SalesGoodsServices, ResultSummary, in_period sample_input)"
  "comparison_supported SalesGoodsServices (in_period sample_input)"
  by code_simp+

lemma quiet_call:
  assumes "\<not> w_cancelled w" "f (w_store w) sample_time = Inr s"
    "case c of ExecCtx _ ds \<Rightarrow> list_all (\<lambda>d. sample_time < d) ds | _ \<Rightarrow> True"
  shows "call ops quiet_env wk c f w = (Inr (), w\<lparr>w_store := s, w_tick := Suc (w_tick w)\<rparr>)"
  using assms by (cases c) (auto simp: call_def advance_def ctx_done_def quiet_env_def Let_def list_ex_iff list_all_iff)

lemma summary_timeout_positive: "definition_for k = Some d \<Longrightarrow> 0 < def_summary_total_timeout d"
proof -
  have "\<forall>d \<in> set ordered_definitions. 0 < def_summary_total_timeout d"
    by (simp add: ordered_definitions_def report_def_def Let_def minute_def second_def)
  then show "definition_for k = Some d \<Longrightarrow> 0 < def_summary_total_timeout d" using definition_for_in by blast
qed

lemma active_can_fail:
  assumes "active_at db"
  shows "\<exists>db'. fail_remote_unknown db 100 ''w1'' code message sample_time (sample_time + 10 * minute) = Inr db'"
  using assms by (simp add: fail_remote_unknown_def guarded_update_def active_at_def minute_def second_def Let_def split: prod.split)

lemma sample_timeout: "failure_of_error DeadlinePassed
   = \<lparr>fl_code = ''SML_TIMEOUT'', fl_retryable = True, fl_remote_unknown = True, fl_pre_request = False\<rparr>"
  by (simp add: failure_of_error_def)

lemma sample_plan:
  "\<exists>plan s ss t. build_query_plan SalesGoodsServices (in_period sample_input) ResultSummary = Inr plan
     \<and> plan_steps plan = s # ss \<and> render_sql (step_query s) = Inr t"
proof -
  let ?p = "in_period sample_input"
  have "build_query_plan SalesGoodsServices ?p ResultSummary
      = Inr \<lparr>plan_key = SalesGoodsServices, plan_period = ?p, plan_steps = summary_steps SalesGoodsServices ?p\<rparr>"
    using sales_approved by (simp add: build_query_plan_def build_summary_query_plan_def sample_input_def)
  moreover obtain s ss where "summary_steps SalesGoodsServices ?p = s # ss" by (simp add: summary_steps_def)
  ultimately show ?thesis using summary_steps_render[OF sales_approved, of ?p] by (auto simp: renders_def)
qed

lemma sample_ops_simps:
  "op_mark_running sample_ops = mark_running" "op_update_progress sample_ops = update_progress"
  "op_set_consistency sample_ops = Some set_source_consistency" "op_fail_remote_unknown sample_ops = fail_remote_unknown"
  by (simp_all add: sample_ops_def report_ops_def)

lemma sample_worker_simps: "wk_id sample_worker = ''w1''" "\<not> wk_heavy_chunks sample_worker" "wk_summary_queries sample_worker"
  by (simp_all add: sample_worker_def)

lemma sample_processed:
  "\<exists>w' t. process_claimed sample_ops quiet_env sample_worker claimed_run sample_world = (Inr (), w')
     \<and> w_log w' = [(t, AnsweredError DeadlinePassed)]"
proof -
  have r: "r_id claimed_run = 100" "r_key claimed_run = SalesGoodsServices" "r_kind claimed_run = ResultSummary"
    "r_period claimed_run = in_period sample_input" and cs: "comparison_supported SalesGoodsServices (in_period sample_input)"
    using claimed_run_fields by (simp_all only: prod.inject)
  obtain db1 db2 db3 db4 where c: "mark_running claimed_db 100 ''w1'' lease_duration sample_time = Inr db1"
      "update_progress db1 100 ''w1'' ProgressConnecting 1 6 sample_time = Inr db2"
      "set_source_consistency db2 100 ''w1'' ConsistencySerialWindow sample_time = Inr db3"
      "update_progress db3 100 ''w1'' ProgressQueryingCurrent 2 6 sample_time = Inr db4" and a: "active_at db4"
    using sample_calls by (auto split: sum.splits)
  obtain plan s ss t where p: "build_query_plan SalesGoodsServices (in_period sample_input) ResultSummary = Inr plan"
      "plan_steps plan = s # ss" "render_sql (step_query s) = Inr t" using sample_plan by auto
  obtain d where d: "definition_for SalesGoodsServices = Some d" using sales_approved by auto
  have n: "total_progress_steps claimed_run = 6" by (simp add: total_progress_steps_def r cs)
  have j: "run_projection sample_worker claimed_run = ResultSummary" by (simp add: run_projection_def r sample_worker_simps)
  have late: "0 < total_timeout claimed_run d"
    using summary_timeout_positive[OF d] by (simp add: total_timeout_def uses_summary_budget_def r)
  let ?f = "failure_of_error DeadlinePassed" and ?c = "ExecCtx 100 [sample_time + total_timeout claimed_run d]"
  let ?w = "\<lambda>db n log. \<lparr>w_store = db, w_tick = n, w_cancelled = False, w_lease_error = None, w_log = log\<rparr>"
  let ?w3 = "?w db4 6 [(t, AnsweredError DeadlinePassed)]"
  note run = sample_ops_simps sample_worker_simps r n c cs p late
  have s0: "need (fatal ''REPORT_CONTRACT_INVALID'') (build_query_plan (r_key claimed_run) (r_period claimed_run) ResultSummary) (?w db2 3 [])
      = (Inr plan, ?w db2 3 [])" by (simp add: need_def give_def run)
  have s1: "(case op_set_consistency sample_ops of None \<Rightarrow> give ()
        | Some set_consistency \<Rightarrow> attempt (transient ''REPORT_PROGRESS_FAILED'') (call sample_ops quiet_env sample_worker ?c
            (\<lambda>s t. set_consistency s (r_id claimed_run) (wk_id sample_worker)
            (if length (plan_steps plan) > 1 \<or> comparison_supported (r_key claimed_run) (r_period claimed_run)
             then ConsistencySerialWindow else ConsistencyStatement) t))) (?w db2 3 []) = (Inr (), ?w db3 4 [])"
    by (simp add: attempt_def quiet_call run)
  have s2: "attempt (transient ''REPORT_PROGRESS_FAILED'') (progress sample_ops quiet_env sample_worker ?c claimed_run ProgressQueryingCurrent 2)
      (?w db3 4 []) = (Inr (), ?w db4 5 [])"
    by (simp add: attempt_def progress_def quiet_call run)
  have s3: "execute_plan sample_ops quiet_env sample_worker ?c claimed_run d () plan (?w db4 5 []) = (Inl ?f, ?w3)"
    by (simp add: execute_plan_def andthen_def run_query_def ask_def advance_def Let_def p quiet_env_def)
  have x: "execute_direct sample_ops quiet_env sample_worker ?c claimed_run d () ResultSummary (?w db2 3 []) = (Inl ?f, ?w3)"
    unfolding execute_direct_def by (simp only: andthen_def s0 s1 s2 s3 prod.case sum.case)
  have o: "open_connection sample_ops quiet_env sample_worker ?c claimed_run (?w db2 2 []) = (Inr (), ?w db2 3 [])"
    by (simp add: open_connection_def opened_def advance_def quiet_env_def)
  have "with_timeout quiet_env (total_timeout claimed_run d) (ExecCtx 100 []) (?w db2 2 []) = ?c"
    by (simp add: with_timeout_def quiet_env_def)
  then have e: "execute sample_ops quiet_env sample_worker claimed_run (?w db2 2 []) = (Inl ?f, ?w3)"
    using x o by (simp add: execute_def andthen_def r d j should_use_chunks_def sample_worker_simps)
  obtain db5 where "fail_remote_unknown db4 100 ''w1'' (fl_code ?f) (safe_failure_message (fl_code ?f)) sample_time (sample_time + 10 * minute) = Inr db5"
    using active_can_fail[OF a] by blast
  then have s: "settle sample_ops quiet_env sample_worker claimed_run (Inl ?f) ?w3 = (Inr (), ?w3\<lparr>w_store := db5, w_tick := 7\<rparr>)"
    by (simp add: settle_def settle_failure_def settlement_of_def sample_timeout quiet_call run quiet_env_def[THEN arg_cong[where f = e_shutdown]])
  have "process_claimed sample_ops quiet_env sample_worker claimed_run sample_world = (Inr (), ?w3\<lparr>w_store := db5, w_tick := 7\<rparr>)"
    using e s by (simp add: process_claimed_def progress_def quiet_call run sample_world_def numeral_2_eq_2)
  then show ?thesis by (intro exI conjI) (assumption, simp)
qed

lemma claimed_run_settled_witness:
  "\<exists>w'. process_claimed sample_ops quiet_env sample_worker claimed_run sample_world = (Inr (), w')
     \<and> (has_status (w_store w') 100 StatusSucceeded \<or> has_status (w_store w') 100 StatusFailed)"
proof -
  obtain w' t where p: "process_claimed sample_ops quiet_env sample_worker claimed_run sample_world = (Inr (), w')"
      "w_log w' = [(t, AnsweredError DeadlinePassed)]" using sample_processed by auto
  have "\<not> (\<exists>entries. w_log w' = w_log sample_world @ entries \<and> list_all known entries)"
    by (simp add: p(2) sample_world_def known_def sample_timeout)
  with claimed_run_settled[OF p(1)[unfolded sample_ops_def]] p(1) claimed_run_fields(1) show ?thesis by auto
qed


end
