(* ===== verification/WorkerRefines.thy ===== *)
theory WorkerRefines
  imports Worker
begin

text \<open>
  The report as a function of the answers of the customer's service.  However the store, the clock, the
  heartbeat and other processes behave, the worker either stops because a call of the store has failed
  or returns what report_value gives for the answers it has logged.
\<close>

section \<open>The report of given answers\<close>

definition needr :: "failure \<Rightarrow> 'e + 'a \<Rightarrow> failure + 'a" where
  "needr f r = (case r of Inl _ \<Rightarrow> Inl f | Inr x \<Rightarrow> Inr x)"

definition query_value :: "(string \<Rightarrow> query_answer) \<Rightarrow> query \<Rightarrow> failure + row list" where
  "query_value ans q = bindr (needr (fatal ''REPORT_QUERY_RENDER_FAILED'') (render_sql q)) (\<lambda>t.
     case ans t of Answered rows \<Rightarrow> Inr rows | AnsweredError e \<Rightarrow> Inl (failure_of_error e))"

fun steps_value :: "(string \<Rightarrow> query_answer) \<Rightarrow> int \<Rightarrow> query_step list \<Rightarrow> int \<Rightarrow> steps \<Rightarrow> failure + steps" where
  "steps_value ans limit [] sofar acc = Inr acc"
| "steps_value ans limit (s # ss) sofar acc = bindr (query_value ans (step_query s)) (\<lambda>rows.
     if sofar + int (length rows) > limit then Inl (fatal ''REPORT_ROW_LIMIT_EXCEEDED'')
     else steps_value ans limit ss (sofar + int (length rows)) (AList.update (step_name s) rows acc))"

definition plan_value :: "(string \<Rightarrow> query_answer) \<Rightarrow> report_definition \<Rightarrow> query_plan \<Rightarrow> failure + steps" where
  "plan_value ans d plan = steps_value ans (def_max_rows d) (plan_steps plan) 0 []"

text \<open>A comparison: an unknown outcome stops the report, any other failure leaves the comparison
  empty and marks it as failed.\<close>

definition or_empty :: "key \<Rightarrow> failure + steps \<Rightarrow> failure + (steps \<times> bool)" where
  "or_empty k r = (case r of Inr rows \<Rightarrow> Inr (rows, False)
     | Inl f \<Rightarrow> if fl_remote_unknown f then Inl f else Inr (empty_report_steps k, True))"

definition warning_of :: "bool \<Rightarrow> string" where
  "warning_of failed = (if failed then ''COMPARISON_QUERY_FAILED'' else [])"

definition comparison_value :: "(string \<Rightarrow> query_answer) \<Rightarrow> run_row \<Rightarrow> report_definition \<Rightarrow> result_kind \<Rightarrow> period \<Rightarrow> failure + (steps \<times> bool)" where
  "comparison_value ans run d projection p = (
     if comparison_supported (r_key run) (r_period run)
     then bindr (needr (fatal ''REPORT_CONTRACT_INVALID'') (build_query_plan (r_key run) p projection)) (\<lambda>plan.
       or_empty (r_key run) (plan_value ans d plan))
     else Inr (empty_report_steps (r_key run), False))"

definition direct_value :: "(string \<Rightarrow> query_answer) \<Rightarrow> run_row \<Rightarrow> report_definition \<Rightarrow> result_kind \<Rightarrow> failure + summary_result" where
  "direct_value ans run d projection =
     bindr (needr (fatal ''REPORT_CONTRACT_INVALID'') (build_query_plan (r_key run) (r_period run) projection)) (\<lambda>plan.
     bindr (plan_value ans d plan) (\<lambda>rows.
     bindr (needr (fatal ''REPORT_OUTPUT_INVALID'') (summarize (r_key run) rows)) (\<lambda>summary.
     bindr (needr (fatal ''REPORT_CONTRACT_INVALID'') (resolve_comparison_period (r_period run))) (\<lambda>p.
     bindr (comparison_value ans run d projection p) (\<lambda>(comparison, failed).
     needr (fatal ''REPORT_OUTPUT_INVALID'') (with_dashboard run p rows comparison (warning_of failed) summary))))))"

text \<open>The chunked report: the chunks one after the other, their rows merged.\<close>

definition chunk_plan :: "run_row \<Rightarrow> result_kind \<Rightarrow> chunk_manifest \<Rightarrow> period \<Rightarrow> failure + query_plan" where
  "chunk_plan run projection m p = needr (fatal ''REPORT_CONTRACT_INVALID'') (chunk_query_plan (r_key run) p projection (cm_unit_keys m))"

definition chunk_value :: "(string \<Rightarrow> query_answer) \<Rightarrow> run_row \<Rightarrow> report_definition \<Rightarrow> result_kind \<Rightarrow> period \<Rightarrow> chunk_manifest
    \<Rightarrow> failure + (steps \<times> steps \<times> bool)" where
  "chunk_value ans run d projection p m =
     bindr (chunk_plan run projection m (r_period run)) (\<lambda>plan.
     bindr (plan_value ans d plan) (\<lambda>current.
     bindr (if comparison_supported (r_key run) (r_period run)
            then bindr (chunk_plan run projection m p) (\<lambda>plan. or_empty (r_key run) (plan_value ans d plan))
            else Inr ([], False)) (\<lambda>(comparison, failed).
     Inr (current, comparison, failed))))"

definition chunked_value :: "(string \<Rightarrow> query_answer) \<Rightarrow> (string \<Rightarrow> string) \<Rightarrow> run_row \<Rightarrow> report_definition \<Rightarrow> result_kind
    \<Rightarrow> failure + summary_result" where
  "chunked_value ans digest run d projection =
     bindr (needr (fatal ''REPORT_CONTRACT_INVALID'') (chunk_manifest_query (r_key run) (r_period run))) (\<lambda>(manifest_query, chunk_size).
     bindr (query_value ans manifest_query) (\<lambda>manifest_rows.
     bindr (needr (fatal ''REPORT_OUTPUT_INVALID'') (chunk_keys manifest_rows)) (\<lambda>unit_keys.
     bindr (needr (fatal ''REPORT_CONTRACT_INVALID'') (resolve_comparison_period (r_period run))) (\<lambda>p.
     bindr (map_res (chunk_value ans run d projection p) (build_manifests digest chunk_size unit_keys)) (\<lambda>parts.
     bindr (needr (fatal ''REPORT_OUTPUT_INVALID'') (merge_chunked_steps (r_key run) projection (map fst parts))) (\<lambda>rows.
     if int (length (concat (map snd rows))) > def_max_rows d then Inl (fatal ''REPORT_ROW_LIMIT_EXCEEDED'')
     else (let (comparison, warning) = merged_comparison run projection
             (if comparison_supported (r_key run) (r_period run) then map (fst \<circ> snd) parts else []) (list_ex (snd \<circ> snd) parts)
       in bindr (needr (fatal ''REPORT_OUTPUT_INVALID'') (summarize (r_key run) rows)) (\<lambda>summary.
          needr (fatal ''REPORT_OUTPUT_INVALID'') (with_dashboard run p rows comparison warning summary)))))))))"

definition report_value :: "(string \<Rightarrow> query_answer) \<Rightarrow> (string \<Rightarrow> string) \<Rightarrow> report_worker \<Rightarrow> run_row \<Rightarrow> failure + summary_result" where
  "report_value ans digest wk run = (case definition_for (r_key run) of
     None \<Rightarrow> Inl (fatal ''REPORT_CONTRACT_INVALID'')
   | Some d \<Rightarrow> if should_use_chunks wk run d (run_projection wk run) then chunked_value ans digest run d (run_projection wk run)
       else direct_value ans run d (run_projection wk run))"

section \<open>Refinement of a value by a task\<close>

definition interrupted :: "failure \<Rightarrow> bool" where
  "interrupted f \<longleftrightarrow> f \<in> {transient ''REPORT_PROGRESS_FAILED'', fatal ''REPORT_CHUNK_PROGRESS_FAILED'',
     fatal ''REPORT_CHUNK_MANIFEST_PERSIST_FAILED'', fatal ''REPORT_CHUNK_STORE_UNAVAILABLE''}"

definition agrees :: "(string \<Rightarrow> query_answer) \<Rightarrow> (string \<times> query_answer) list \<Rightarrow> bool" where
  "agrees ans entries \<longleftrightarrow> list_all (\<lambda>(t, answer). ans t = answer) entries"

definition refines :: "(failure \<Rightarrow> bool) \<Rightarrow> ('s, 'a) task \<Rightarrow> ((string \<Rightarrow> query_answer) \<Rightarrow> failure + 'a) \<Rightarrow> bool" where
  "refines stops m v \<longleftrightarrow> (\<forall>w. \<exists>entries. w_log (snd (m w)) = w_log w @ entries
     \<and> (\<forall>ans. agrees ans entries \<longrightarrow> fst (m w) = v ans \<or> (\<exists>f. fst (m w) = Inl f \<and> stops f)))"

lemma refinesI:
  "(\<And>w. \<exists>entries. w_log (snd (m w)) = w_log w @ entries
     \<and> (\<forall>ans. agrees ans entries \<longrightarrow> fst (m w) = v ans \<or> (\<exists>f. fst (m w) = Inl f \<and> stops f))) \<Longrightarrow> refines stops m v"
  by (simp add: refines_def)

lemma refinesE:
  assumes "refines stops m v" "m w = (r, w1)"
  obtains entries where "w_log w1 = w_log w @ entries"
    "\<And>ans. agrees ans entries \<Longrightarrow> r = v ans \<or> (\<exists>f. r = Inl f \<and> stops f)"
  using assms unfolding refines_def by (metis fst_conv snd_conv)

lemma refines_quiet:
  "(\<And>w. w_log (snd (m w)) = w_log w \<and> ((\<forall>ans. fst (m w) = v ans) \<or> (\<exists>f. fst (m w) = Inl f \<and> stops f))) \<Longrightarrow> refines stops m v"
  by (rule refinesI, rule exI[of _ "[]"]) auto

lemma refines_eq: "refines stops m v \<Longrightarrow> (\<And>ans. v ans = u ans) \<Longrightarrow> refines stops m u"
  by (simp add: refines_def)

lemma refines_give: "refines stops (give x) (\<lambda>_. Inr x)"
  by (rule refines_quiet) (simp add: give_def)

lemma refines_stop: "refines stops (stop f) (\<lambda>_. Inl f)"
  by (rule refines_quiet) (simp add: stop_def)

lemma refines_need: "refines stops (need f r) (\<lambda>_. needr f r)"
  by (cases r) (simp_all add: need_def needr_def refines_give refines_stop)

lemma advance_keeps_log: "w_log (advance ops env wk c w) = w_log w"
proof -
  have "w_log (happen ops env wk c h w) = w_log w" for h w
    by (cases h; cases c) (simp_all add: happen_def beat_def split: sum.split)
  then have "w_log (fold (happen ops env wk c) hs w) = w_log w" for hs w
    by (induction hs arbitrary: w) simp_all
  then show ?thesis by (simp add: advance_def)
qed

lemma call_keeps_log: "w_log (snd (call ops env wk c f w)) = w_log w"
  by (simp add: call_def advance_keeps_log Let_def split: sum.split fault.split)

lemma refines_attempt: "stops f \<Longrightarrow> refines stops (attempt f (call ops env wk c g)) (\<lambda>_. Inr ())"
proof (rule refines_quiet)
  fix w
  assume "stops f"
  obtain r w1 where "call ops env wk c g w = (r, w1)" by (cases "call ops env wk c g w")
  with \<open>stops f\<close> call_keeps_log[of ops env wk c g w] show "w_log (snd (attempt f (call ops env wk c g) w)) = w_log w
      \<and> ((\<forall>ans. fst (attempt f (call ops env wk c g) w) = Inr ()) \<or> (\<exists>e. fst (attempt f (call ops env wk c g) w) = Inl e \<and> stops e))"
    by (cases r) (auto simp: attempt_def)
qed

lemma refines_ignoring: "refines stops (ignoring (call ops env wk c g)) (\<lambda>_. Inr ())"
  by (rule refines_quiet) (simp add: ignoring_def call_keeps_log)

lemma agrees_append [simp]: "agrees ans (l @ k) \<longleftrightarrow> agrees ans l \<and> agrees ans k"
  by (simp add: agrees_def)

lemma refines_andthen:
  assumes "refines stops m v" "\<And>x. refines stops (k x) (u x)"
  shows "refines stops (andthen m k) (\<lambda>ans. bindr (v ans) (\<lambda>x. u x ans))"
proof (rule refinesI)
  fix w
  obtain r w1 where m: "m w = (r, w1)" by (cases "m w")
  obtain l where l: "w_log w1 = w_log w @ l" "\<And>ans. agrees ans l \<Longrightarrow> r = v ans \<or> (\<exists>f. r = Inl f \<and> stops f)"
    using refinesE[OF assms(1) m] by blast
  show "\<exists>l. w_log (snd (andthen m k w)) = w_log w @ l \<and> (\<forall>ans. agrees ans l \<longrightarrow>
      fst (andthen m k w) = bindr (v ans) (\<lambda>x. u x ans) \<or> (\<exists>f. fst (andthen m k w) = Inl f \<and> stops f))"
  proof (cases r)
    case (Inl f)
    have "Inl f = bindr (v ans) (\<lambda>x. u x ans) \<or> stops f" if "agrees ans l" for ans
      using l(2)[OF that] Inl by (metis bindr.simps(1) sum.inject(1))
    then show ?thesis using m Inl l(1) by (auto simp: andthen_def)
  next
    case (Inr x)
    obtain r2 w2 where k: "k x w1 = (r2, w2)" by (cases "k x w1")
    obtain l2 where l2: "w_log w2 = w_log w1 @ l2" "\<And>ans. agrees ans l2 \<Longrightarrow> r2 = u x ans \<or> (\<exists>f. r2 = Inl f \<and> stops f)"
      using refinesE[OF assms(2) k] by blast
    have "v ans = Inr x" if "agrees ans l" for ans using l(2)[OF that] Inr by auto
    then show ?thesis using m k Inr l(1) l2 by (intro exI[of _ "l @ l2"]) (auto simp: andthen_def)
  qed
qed

lemma refines_rescue:
  assumes "refines (\<lambda>_. False) m v" "\<And>f. refines stops (h f) (g f)"
  shows "refines stops (rescue m h) (\<lambda>ans. case v ans of Inl f \<Rightarrow> g f ans | Inr x \<Rightarrow> Inr x)"
proof (rule refinesI)
  fix w
  obtain r w1 where m: "m w = (r, w1)" by (cases "m w")
  obtain l where l: "w_log w1 = w_log w @ l" "\<And>ans. agrees ans l \<Longrightarrow> v ans = r"
    using refinesE[OF assms(1) m] by metis
  show "\<exists>l. w_log (snd (rescue m h w)) = w_log w @ l \<and> (\<forall>ans. agrees ans l \<longrightarrow>
      fst (rescue m h w) = (case v ans of Inl f \<Rightarrow> g f ans | Inr x \<Rightarrow> Inr x) \<or> (\<exists>f. fst (rescue m h w) = Inl f \<and> stops f))"
  proof (cases r)
    case (Inr x)
    then show ?thesis using m l by (intro exI[of _ l]) (auto simp: rescue_def)
  next
    case (Inl f)
    obtain r2 w2 where k: "h f w1 = (r2, w2)" by (cases "h f w1")
    obtain l2 where l2: "w_log w2 = w_log w1 @ l2" "\<And>ans. agrees ans l2 \<Longrightarrow> r2 = g f ans \<or> (\<exists>e. r2 = Inl e \<and> stops e)"
      using refinesE[OF assms(2) k] by blast
    show ?thesis using m k Inl l l2 by (intro exI[of _ "l @ l2"]) (auto simp: rescue_def)
  qed
qed

lemma refines_if: "(b \<Longrightarrow> refines stops m v) \<Longrightarrow> (\<not> b \<Longrightarrow> refines stops n u) \<Longrightarrow>
    refines stops (if b then m else n) (\<lambda>ans. if b then v ans else u ans)"
  by simp

section \<open>The worker\<close>

lemma refines_query: "refines stops (run_query ops env wk c timeout conn q) (\<lambda>ans. query_value ans q)"
proof (cases "render_sql q")
  case (Inl e)
  have "refines stops (stop (fatal ''REPORT_QUERY_RENDER_FAILED'')) (\<lambda>ans. query_value ans q)"
    by (rule refines_eq[OF refines_stop]) (simp add: query_value_def needr_def Inl)
  with Inl show ?thesis by (simp add: run_query_def)
next
  case (Inr t)
  show ?thesis
  proof (rule refinesI)
    fix w
    let ?a = "fst (ask ops env wk c timeout conn t w)"
    have "w_log (snd (run_query ops env wk c timeout conn q w)) = w_log w @ [(t, ?a)]"
      using Inr by (simp add: run_query_def ask_def advance_keeps_log Let_def split: query_answer.split)
    moreover have "fst (run_query ops env wk c timeout conn q w) = query_value ans q" if "agrees ans [(t, ?a)]" for ans
      using that Inr by (auto simp: run_query_def ask_def Let_def query_value_def needr_def agrees_def split: query_answer.split)
    ultimately show "\<exists>l. w_log (snd (run_query ops env wk c timeout conn q w)) = w_log w @ l \<and> (\<forall>ans. agrees ans l \<longrightarrow>
        fst (run_query ops env wk c timeout conn q w) = query_value ans q
        \<or> (\<exists>f. fst (run_query ops env wk c timeout conn q w) = Inl f \<and> stops f))" by blast
  qed
qed

lemma refines_steps:
  "refines stops (execute_steps ops env wk c timeout limit conn ss sofar acc) (\<lambda>ans. steps_value ans limit ss sofar acc)"
proof (induction ss arbitrary: sofar acc)
  case Nil
  show ?case by (simp add: refines_give)
next
  case (Cons s ss)
  have "refines stops (if sofar + int (length rows) > limit then stop (fatal ''REPORT_ROW_LIMIT_EXCEEDED'')
      else execute_steps ops env wk c timeout limit conn ss (sofar + int (length rows)) (AList.update (step_name s) rows acc))
    (\<lambda>ans. if sofar + int (length rows) > limit then Inl (fatal ''REPORT_ROW_LIMIT_EXCEEDED'')
      else steps_value ans limit ss (sofar + int (length rows)) (AList.update (step_name s) rows acc))" for rows
    by (rule refines_if[OF refines_stop Cons])
  from refines_andthen[OF refines_query this] show ?case by simp
qed

lemma refines_plan: "refines stops (execute_plan ops env wk c run d conn plan) (\<lambda>ans. plan_value ans d plan)"
  unfolding execute_plan_def plan_value_def by (rule refines_steps)

lemma interrupted_simps [simp]:
  "interrupted (transient ''REPORT_PROGRESS_FAILED'')" "interrupted (fatal ''REPORT_CHUNK_PROGRESS_FAILED'')"
  "interrupted (fatal ''REPORT_CHUNK_MANIFEST_PERSIST_FAILED'')" "interrupted (fatal ''REPORT_CHUNK_STORE_UNAVAILABLE'')"
  by (simp_all add: interrupted_def)

lemma refines_progress:
  "refines interrupted (attempt (transient ''REPORT_PROGRESS_FAILED'') (progress ops env wk c run phase n)) (\<lambda>_. Inr ())"
  unfolding progress_def by (rule refines_attempt) simp

lemma bindr_bindr: "bindr (bindr m f) g = bindr m (\<lambda>x. bindr (f x) g)"
  by (cases m) simp_all

lemma refines_prod:
  "(\<And>a b. refines stops (k a b) (u a b)) \<Longrightarrow> refines stops (case x of (a, b) \<Rightarrow> k a b) (\<lambda>ans. case x of (a, b) \<Rightarrow> u a b ans)"
  by (cases x) simp

lemma refines_or_empty:
  "refines stops (rescue (andthen (execute_plan ops env wk c run d conn plan) (\<lambda>rows. give (rows, g False)))
       (\<lambda>f. if fl_remote_unknown f then andthen (m f) (\<lambda>_. stop f) else give (empty_report_steps k, g True)))
     (\<lambda>ans. bindr (or_empty k (plan_value ans d plan)) (\<lambda>(rows, failed). Inr (rows, g failed)))"
  if "\<And>f. refines stops (m f) (\<lambda>_. Inr ())"
proof (rule refines_eq[OF refines_rescue])
  show "refines (\<lambda>_. False) (andthen (execute_plan ops env wk c run d conn plan) (\<lambda>rows. give (rows, g False)))
      (\<lambda>ans. bindr (plan_value ans d plan) (\<lambda>rows. Inr (rows, g False)))"
    by (rule refines_andthen[OF refines_plan refines_give])
  show "refines stops (if fl_remote_unknown f then andthen (m f) (\<lambda>_. stop f) else give (empty_report_steps k, g True))
      (\<lambda>ans. if fl_remote_unknown f then bindr (Inr ()) (\<lambda>_. Inl f) else Inr (empty_report_steps k, g True))" for f
    by (rule refines_if[OF refines_andthen[OF that refines_stop] refines_give])
  show "(case bindr (plan_value ans d plan) (\<lambda>rows. Inr (rows, g False)) of
        Inl f \<Rightarrow> if fl_remote_unknown f then bindr (Inr ()) (\<lambda>_. Inl f) else Inr (empty_report_steps k, g True) | Inr x \<Rightarrow> Inr x)
      = bindr (or_empty k (plan_value ans d plan)) (\<lambda>(rows, failed). Inr (rows, g failed))" for ans
    by (cases "plan_value ans d plan") (auto simp: or_empty_def)
qed

lemma andthen_give_stop: "andthen (give ()) (\<lambda>_. stop f) = stop f"
  by (rule ext) (simp add: andthen_def give_def)

lemma refines_comparison:
  "refines interrupted (execute_comparison ops env wk c run d conn projection p)
     (\<lambda>ans. bindr (comparison_value ans run d projection p) (\<lambda>(rows, failed). Inr (rows, warning_of failed)))"
proof (cases "comparison_supported (r_key run) (r_period run)")
  case False
  then show ?thesis by (simp add: execute_comparison_def comparison_value_def warning_of_def refines_give)
next
  case True
  have "refines interrupted (rescue (andthen (execute_plan ops env wk c run d conn plan) (\<lambda>rows. give (rows, [])))
       (\<lambda>f. if fl_remote_unknown f then stop f else give (empty_report_steps (r_key run), ''COMPARISON_QUERY_FAILED'')))
     (\<lambda>ans. bindr (or_empty (r_key run) (plan_value ans d plan)) (\<lambda>(rows, failed). Inr (rows, warning_of failed)))" for plan
    using refines_or_empty[where g = warning_of, OF refines_give] by (simp add: warning_of_def andthen_give_stop cong: if_cong)
  from refines_andthen[OF refines_progress refines_andthen[OF refines_need this]] True show ?thesis
    by (simp add: execute_comparison_def comparison_value_def bindr_bindr)
qed

lemma refines_consistency:
  "refines interrupted (case op_set_consistency ops of None \<Rightarrow> give ()
     | Some set_consistency \<Rightarrow> attempt (transient ''REPORT_PROGRESS_FAILED'') (call ops env wk c (g set_consistency))) (\<lambda>_. Inr ())"
  by (cases "op_set_consistency ops") (simp_all add: refines_give refines_attempt)

lemma refines_direct: "refines interrupted (execute_direct ops env wk c run d conn projection) (\<lambda>ans. direct_value ans run d projection)"
  unfolding execute_direct_def
  by (rule refines_eq, (rule refines_need refines_consistency refines_progress refines_plan refines_comparison refines_prod refines_andthen)+)
    (simp add: direct_value_def bindr_bindr case_prod_beta')

section \<open>The chunked report\<close>

lemma refines_fail_chunk:
  "refines stops (andthen (ignoring (call ops env wk c g)) (\<lambda>_. stop f)) (\<lambda>_. Inl f)"
  by (rule refines_eq[OF refines_andthen[OF refines_ignoring refines_stop]]) simp

lemma refines_chunk_plan:
  assumes "\<And>plan. refines stops (k plan) (u plan)"
  shows "refines stops (case chunk_query_plan (r_key run) p projection (cm_unit_keys m) of
      Inl _ \<Rightarrow> andthen (ignoring (call ops env wk c g)) (\<lambda>_. stop (fatal ''REPORT_CONTRACT_INVALID'')) | Inr plan \<Rightarrow> k plan)
    (\<lambda>ans. bindr (chunk_plan run projection m p) (\<lambda>plan. u plan ans))"
  using assms by (cases "chunk_query_plan (r_key run) p projection (cm_unit_keys m)")
    (simp_all add: chunk_plan_def needr_def refines_fail_chunk)

lemma refines_chunk_comparison:
  "refines interrupted (chunk_comparison ops env wk c run d conn projection p m)
     (\<lambda>ans. if comparison_supported (r_key run) (r_period run)
        then bindr (chunk_plan run projection m p) (\<lambda>plan. or_empty (r_key run) (plan_value ans d plan)) else Inr ([], False))"
proof (cases "comparison_supported (r_key run) (r_period run)")
  case False
  then show ?thesis by (simp add: chunk_comparison_def refines_give Let_def)
next
  case True
  have "bindr x (\<lambda>(rows, failed). Inr (rows, failed)) = x" for x :: "failure + (steps \<times> bool)" by (cases x) auto
  with refines_or_empty[where g = "\<lambda>b. b" and stops = interrupted and k = "r_key run", OF refines_ignoring]
  have "refines interrupted (rescue (andthen (execute_plan ops env wk c run d conn plan) (\<lambda>rows. give (rows, False)))
       (\<lambda>f. if fl_remote_unknown f then andthen (ignoring (call ops env wk (DetachedCtx (r_id run)) (g f))) (\<lambda>_. stop f)
          else give (empty_report_steps (r_key run), True)))
     (\<lambda>ans. or_empty (r_key run) (plan_value ans d plan))" for g plan
    by simp
  from refines_chunk_plan[OF this] True show ?thesis by (simp add: chunk_comparison_def Let_def)
qed

lemma refines_failing_chunk:
  "refines stops (rescue (execute_plan ops env wk c run d conn plan)
     (\<lambda>f. andthen (ignoring (call ops env wk c' (g f))) (\<lambda>_. stop f))) (\<lambda>ans. plan_value ans d plan)"
  by (rule refines_eq[OF refines_rescue[OF refines_plan refines_fail_chunk]]) (simp split: sum.split)

lemma refines_chunk:
  "refines interrupted (execute_chunk ops env wk c run d conn projection p m) (\<lambda>ans. chunk_value ans run d projection p m)"
proof -
  have a: "refines interrupted (attempt (fatal ''REPORT_CHUNK_PROGRESS_FAILED'') (call ops env wk c g)) (\<lambda>_. Inr ())" for g
    by (rule refines_attempt) simp
  show ?thesis unfolding execute_chunk_def Let_def
    by (rule refines_eq, (rule a refines_chunk_plan refines_failing_chunk refines_chunk_comparison refines_give refines_prod refines_andthen)+)
      (simp add: chunk_value_def case_prod_beta')
qed

lemma refines_chunks:
  "refines interrupted (execute_chunks ops env wk c run d conn projection p ms cur prev failed)
     (\<lambda>ans. bindr (map_res (chunk_value ans run d projection p) ms) (\<lambda>parts. Inr (cur @ map fst parts,
        prev @ (if comparison_supported (r_key run) (r_period run) then map (fst \<circ> snd) parts else []),
        failed \<or> list_ex (snd \<circ> snd) parts)))"
proof (induction ms arbitrary: cur prev failed)
  case Nil
  show ?case by (simp add: refines_give)
next
  case (Cons m ms)
  show ?case unfolding execute_chunks.simps
    by (rule refines_eq, (rule refines_chunk refines_prod refines_andthen Cons)+)
      (auto simp: bindr_bindr case_prod_beta' comp_def intro!: arg_cong2[where f = bindr] ext)
qed

lemma refines_chunked_report:
  "refines interrupted (chunked_report ops env wk c run d conn projection)
     (\<lambda>ans. chunked_value ans (e_digest env) run d projection)"
proof -
  have a: "refines interrupted (attempt (fatal ''REPORT_CHUNK_MANIFEST_PERSIST_FAILED'') (call ops env wk c g)) (\<lambda>_. Inr ())" for g
    by (rule refines_attempt) simp
  show ?thesis unfolding chunked_report_def Let_def
    by (rule refines_eq, (rule a refines_need refines_progress refines_query refines_chunks refines_prod refines_if refines_stop refines_andthen)+)
      (simp add: chunked_value_def bindr_bindr case_prod_beta' Let_def cong: if_cong)
qed

lemma refines_chunked:
  "refines interrupted (execute_chunked ops env wk c run d conn projection) (\<lambda>ans. chunked_value ans (e_digest env) run d projection)"
proof (rule refinesI)
  fix w
  show "\<exists>l. w_log (snd (execute_chunked ops env wk c run d conn projection w)) = w_log w @ l \<and> (\<forall>ans. agrees ans l \<longrightarrow>
      fst (execute_chunked ops env wk c run d conn projection w) = chunked_value ans (e_digest env) run d projection
      \<or> (\<exists>f. fst (execute_chunked ops env wk c run d conn projection w) = Inl f \<and> interrupted f))"
    using refines_chunked_report[of ops env wk "with_timeout env (10 * minute) c w" run d conn projection]
    by (cases "op_chunks ops") (auto simp: execute_chunked_def refines_def stop_def)
qed

section \<open>The execution of a run\<close>

definition execution_stops :: "('s, 'c) env \<Rightarrow> run_row \<Rightarrow> failure \<Rightarrow> bool" where
  "execution_stops env run f \<longleftrightarrow> interrupted f \<or> (\<exists>i. opened (e_open env i (r_tenant run)) = Inl f)"

lemma refines_weaken: "refines stops m v \<Longrightarrow> (\<And>f. stops f \<Longrightarrow> stops' f) \<Longrightarrow> refines stops' m v"
  unfolding refines_def by meson

lemma refines_opened:
  assumes "\<And>conn. refines (execution_stops env run) (k conn) v"
  shows "refines (execution_stops env run) (andthen (open_connection ops env wk c run) k) v"
proof (rule refinesI)
  fix w
  let ?w = "advance ops env wk c w"
  show "\<exists>l. w_log (snd (andthen (open_connection ops env wk c run) k w)) = w_log w @ l \<and> (\<forall>ans. agrees ans l \<longrightarrow>
      fst (andthen (open_connection ops env wk c run) k w) = v ans
      \<or> (\<exists>f. fst (andthen (open_connection ops env wk c run) k w) = Inl f \<and> execution_stops env run f))"
  proof (cases "opened (e_open env (w_tick w) (r_tenant run))")
    case (Inl f)
    then have "execution_stops env run f" by (auto simp: execution_stops_def)
    with Inl show ?thesis by (intro exI[of _ "[]"]) (simp add: andthen_def open_connection_def advance_keeps_log)
  next
    case (Inr conn)
    then have "andthen (open_connection ops env wk c run) k w = k conn ?w" by (simp add: andthen_def open_connection_def)
    then show ?thesis using assms[of conn] unfolding refines_def by (metis advance_keeps_log)
  qed
qed

text \<open>C7: Whatever the store, the clock, the heartbeat, a shutdown and other processes do while a run is
  executed, the result is the one that report_value computes from the answers the worker has logged, or
  the failure of the call of the store, or of the opening of the connection, that has stopped it.\<close>

theorem execute_refines_report:
  "refines (execution_stops env run) (execute ops env wk run) (\<lambda>ans. report_value ans (e_digest env) wk run)"
proof (cases "definition_for (r_key run)")
  case None
  then show ?thesis using refines_stop by (simp add: execute_def report_value_def)
next
  case (Some d)
  let ?p = "run_projection wk run"
  have "refines (execution_stops env run) (if should_use_chunks wk run d ?p then execute_chunked ops env wk c run d conn ?p
      else execute_direct ops env wk c run d conn ?p) (\<lambda>ans. report_value ans (e_digest env) wk run)" for c conn
    using Some by (auto simp: report_value_def execution_stops_def intro: refines_weaken[OF refines_chunked] refines_weaken[OF refines_direct])
  then have body: "refines (execution_stops env run) (andthen (open_connection ops env wk c run) (\<lambda>conn.
      if should_use_chunks wk run d ?p then execute_chunked ops env wk c run d conn ?p
      else execute_direct ops env wk c run d conn ?p)) (\<lambda>ans. report_value ans (e_digest env) wk run)" for c
    by (rule refines_opened)
  show ?thesis unfolding refines_def
  proof
    fix w
    from body[of "with_timeout env (total_timeout run d) (ExecCtx (r_id run) []) w"] Some
    show "\<exists>l. w_log (snd (execute ops env wk run w)) = w_log w @ l \<and> (\<forall>ans. agrees ans l \<longrightarrow>
        fst (execute ops env wk run w) = report_value ans (e_digest env) wk run
        \<or> (\<exists>f. fst (execute ops env wk run w) = Inl f \<and> execution_stops env run f))"
      unfolding refines_def by (simp add: execute_def Let_def)
  qed
qed

end
