(* ===== verification/Deliveries.thy ===== *)
theory Deliveries
  imports RunStore
begin

text \<open>
  Deliveries to LINE: the outbox (database/delivery_store.go), the worker that empties it
  (delivery/worker.go) and the classification of LINE's answers (line/messaging.go).  A delivery is
  claimed under a lease, pushed with its retry key, and accepted, released for another attempt or
  failed; the last delivery of a notification to end finalizes it.
\<close>

section \<open>The push\<close>

datatype push_outcome = PushAccepted | PushRetryable | PushPermanent

record push_result =
  pr_outcome :: push_outcome
  pr_code :: string
  pr_request :: string
  pr_retry_after :: duration
  pr_uncertain :: bool

definition pushed :: "push_outcome \<Rightarrow> string \<Rightarrow> push_result" where
  "pushed outcome code = \<lparr>pr_outcome = outcome, pr_code = code, pr_request = '''', pr_retry_after = 0, pr_uncertain = False\<rparr>"

definition retry_after :: "string \<Rightarrow> duration" where
  "retry_after v = (case atoi (trim_space v) of
     None \<Rightarrow> 30 * second
   | Some n \<Rightarrow> if n < 1 then 30 * second else min 3600 n * second)"

text \<open>What the network does with the request: it cannot be built, there is no answer, or the answer has a
  status, an X-Line-Request-Id and a Retry-After.\<close>

datatype push_exchange = RequestNotBuilt | NoAnswer | Answer int string string

definition push_answer :: "int \<Rightarrow> string \<Rightarrow> string \<Rightarrow> push_result" where
  "push_answer status request_id after = (let request = take 128 (trim_space request_id) in
     if 200 \<le> status \<and> status < 300 then (pushed PushAccepted ''LINE_PUSH_ACCEPTED'')\<lparr>pr_request := request\<rparr>
     else if status = 409 then (pushed PushAccepted ''LINE_PUSH_ALREADY_ACCEPTED'')\<lparr>pr_request := request\<rparr>
     else if status = 429 then (pushed PushRetryable ''LINE_PUSH_RATE_LIMITED'')\<lparr>pr_request := request, pr_retry_after := retry_after after\<rparr>
     else if status \<ge> 500 then (pushed PushRetryable ''LINE_PUSH_UNAVAILABLE'')\<lparr>pr_request := request, pr_retry_after := 30 * second\<rparr>
     else if status = 401 \<or> status = 403 then (pushed PushPermanent ''LINE_PUSH_AUTH_REJECTED'')\<lparr>pr_request := request\<rparr>
     else (pushed PushPermanent ''LINE_PUSH_REJECTED'')\<lparr>pr_request := request\<rparr>)"

text \<open>maximumFlexPayloadBytes is 30 KiB; valid is json.Valid.\<close>

definition push :: "(string \<Rightarrow> bool) \<Rightarrow> string \<Rightarrow> string \<Rightarrow> uuid \<Rightarrow> string \<Rightarrow> push_exchange \<Rightarrow> push_result" where
  "push valid token user retry_key message exchange = (
     if length token < 32 \<or> length user < 2 \<or> length user > 128 \<or> retry_key = nil_uuid
        \<or> message = [] \<or> length message > 30 * 1024 \<or> \<not> valid message
     then pushed PushPermanent ''LINE_PUSH_INPUT_INVALID''
     else (case exchange of
       RequestNotBuilt \<Rightarrow> pushed PushPermanent ''LINE_PUSH_REQUEST_INVALID''
     | NoAnswer \<Rightarrow> (pushed PushRetryable ''LINE_PUSH_UNCERTAIN'')\<lparr>pr_retry_after := 30 * second, pr_uncertain := True\<rparr>
     | Answer status request_id after \<Rightarrow> push_answer status request_id after))"

section \<open>The outbox\<close>

datatype delivery_error = NoDeliveryReady | DeliveryLeaseLost | DeliveryFailure string

record delivery_work =
  dw_id :: uuid
  dw_recipient :: uuid
  dw_retry_key :: uuid
  dw_payload :: string
  dw_attempt :: int
  dw_tenant_active :: bool

definition is_open :: "delivery_row \<Rightarrow> bool" where
  "is_open d \<longleftrightarrow> dl_status d \<in> {DeliveryPending, DeliveryRetryWait, DeliveryUncertain, DeliverySending}"

definition find_delivery :: "db \<Rightarrow> uuid \<Rightarrow> delivery_row option" where
  "find_delivery db i = find_where (\<lambda>d. dl_id d = i) (db_deliveries db)"

definition ready_outbox :: "db \<Rightarrow> uuid list \<Rightarrow> instant \<Rightarrow> outbox_row \<Rightarrow> bool" where
  "ready_outbox db locked now b \<longleftrightarrow> o_completed_at b = None \<and> o_available_at b \<le> now
     \<and> (o_claimed_by b = None \<or> opt_rel (\<lambda>l. l < now) (o_lease b))
     \<and> opt_rel is_open (find_delivery db (o_delivery b)) \<and> o_id b \<notin> set locked"

definition outbox_before :: "outbox_row \<Rightarrow> outbox_row \<Rightarrow> bool" where
  "outbox_before a b \<longleftrightarrow> (if o_available_at a \<noteq> o_available_at b then o_available_at a < o_available_at b else o_id a < o_id b)"

definition update_delivery :: "uuid \<Rightarrow> (delivery_row \<Rightarrow> delivery_row) \<Rightarrow> db \<Rightarrow> db" where
  "update_delivery i f db = db\<lparr>db_deliveries := update_where (\<lambda>d. dl_id d = i) f (db_deliveries db)\<rparr>"

definition update_outbox :: "uuid \<Rightarrow> (outbox_row \<Rightarrow> outbox_row) \<Rightarrow> db \<Rightarrow> db" where
  "update_outbox i f db = db\<lparr>db_outbox := update_where (\<lambda>b. o_delivery b = i) f (db_outbox db)\<rparr>"

definition claim_delivery :: "db \<Rightarrow> uuid list \<Rightarrow> string \<Rightarrow> duration \<Rightarrow> instant \<Rightarrow> delivery_error + (db \<times> delivery_work)" where
  "claim_delivery db locked worker lease now = (case select_first outbox_before (ready_outbox db locked now) (db_outbox db) of
     None \<Rightarrow> Inl NoDeliveryReady
   | Some b \<Rightarrow> (case find_delivery db (o_delivery b) of
       None \<Rightarrow> Inl (DeliveryFailure ''claim LINE delivery outbox'')
     | Some d \<Rightarrow> if find_where (\<lambda>t. t_id t = dl_tenant d) (db_tenants db) = None
         then Inl (DeliveryFailure ''claim LINE delivery outbox'')
         else Inr (update_delivery (dl_id d) (\<lambda>d. d\<lparr>dl_status := DeliverySending, dl_attempt := dl_attempt d + 1, dl_updated_at := now\<rparr>)
              (db\<lparr>db_outbox := update_where (\<lambda>x. o_id x = o_id b)
                 (\<lambda>x. x\<lparr>o_claimed_by := Some worker, o_claimed_at := Some now, o_lease := Some (now + lease), o_attempt := o_attempt x + 1\<rparr>)
                 (db_outbox db)\<rparr>),
            \<lparr>dw_id = dl_id d, dw_recipient = dl_recipient d, dw_retry_key = dl_retry_key d, dw_payload = o_payload b,
             dw_attempt = dl_attempt d + 1, dw_tenant_active = tenant_open db (dl_tenant d) now\<rparr>)))"

text \<open>lockDeliveryOutbox: the notification of a delivery that this worker is sending under an unexpired lease.\<close>

definition lock_outbox :: "db \<Rightarrow> uuid \<Rightarrow> string \<Rightarrow> instant \<Rightarrow> delivery_error + uuid" where
  "lock_outbox db delivery worker now = (case find_delivery db delivery of
     None \<Rightarrow> Inl DeliveryLeaseLost
   | Some d \<Rightarrow> if dl_status d = DeliverySending \<and> list_ex (\<lambda>b. o_delivery b = delivery \<and> o_claimed_by b = Some worker
          \<and> o_completed_at b = None \<and> opt_rel (\<lambda>l. l \<ge> now) (o_lease b)) (db_outbox db)
       then Inr (dl_notification d) else Inl DeliveryLeaseLost)"

section \<open>The end of a notification\<close>

definition deliveries_of :: "db \<Rightarrow> uuid \<Rightarrow> delivery_row list" where
  "deliveries_of db n = filter (\<lambda>d. dl_notification d = n) (db_deliveries db)"

text \<open>The status the counts ask for, None while a delivery is open.\<close>

definition final_status :: "db \<Rightarrow> uuid \<Rightarrow> delivery_error + notification_status option" where
  "final_status db n = (
     let active = count_where is_open (deliveries_of db n);
         accepted = count_where (\<lambda>d. dl_status d = DeliveryAccepted) (deliveries_of db n);
         failed = count_where (\<lambda>d. dl_status d = DeliveryFailedPermanent) (deliveries_of db n)
     in if active > 0 then Inr None
        else if failed > 0 \<and> accepted > 0 then Inr (Some NotificationPartialFailed)
        else if failed > 0 then Inr (Some NotificationFailed)
        else (case find_where (\<lambda>r. n_id r = n) (db_notifications db) of
          None \<Rightarrow> Inl (DeliveryFailure ''read notification partial status'')
        | Some r \<Rightarrow> Inr (Some (if n_error_code r = Some ''REPORT_PARTIAL_FAILURE'' then NotificationPartialFailed else NotificationCompleted))))"

definition set_final :: "uuid \<Rightarrow> instant \<Rightarrow> notification_status option \<Rightarrow> db \<Rightarrow> db" where
  "set_final n now status db = (case status of
     None \<Rightarrow> db
   | Some s \<Rightarrow> db\<lparr>db_notifications := update_where (\<lambda>r. n_id r = n)
       (\<lambda>r. r\<lparr>n_status := s, n_finished_at := Some now, n_updated_at := now\<rparr>) (db_notifications db)\<rparr>)"

definition finalize_notification :: "uuid \<Rightarrow> instant \<Rightarrow> db \<Rightarrow> delivery_error + db" where
  "finalize_notification n now db = bindr (final_status db n) (\<lambda>s. Inr (set_final n now s db))"

section \<open>Accept, retry, fail\<close>

definition complete_outbox :: "uuid \<Rightarrow> instant \<Rightarrow> db \<Rightarrow> db" where
  "complete_outbox delivery now = update_outbox delivery (\<lambda>b. b\<lparr>o_completed_at := Some now, o_lease := None\<rparr>)"

definition month_start :: "instant \<Rightarrow> instant" where
  "month_start now = (let n = local_day 0 now in local_instant 0 (go_date (year_of n) (month_of n) 1) 0)"

definition count_accepted :: "instant \<Rightarrow> db \<Rightarrow> db" where
  "count_accepted now db = db\<lparr>db_quota := upsert_where (\<lambda>q. qt_month q = month_start now)
     (\<lambda>q. q\<lparr>qt_accepted := qt_accepted q + 1, qt_updated_at := now\<rparr>)
     \<lparr>qt_month = month_start now, qt_limit = None, qt_consumed = None, qt_accepted = 1, qt_reserve_percent = 10,
      qt_synced_at = None, qt_updated_at = now\<rparr> (db_quota db)\<rparr>"

definition accept_writes :: "uuid \<Rightarrow> string \<Rightarrow> instant \<Rightarrow> db \<Rightarrow> db" where
  "accept_writes delivery request now db = count_accepted now (complete_outbox delivery now (update_delivery delivery
     (\<lambda>d. d\<lparr>dl_status := DeliveryAccepted, dl_provider_request := (if request = [] then None else Some request),
       dl_error_code := None, dl_next_attempt_at := None, dl_accepted_at := Some now, dl_updated_at := now\<rparr>) db))"

definition accept_delivery :: "db \<Rightarrow> uuid \<Rightarrow> string \<Rightarrow> string \<Rightarrow> instant \<Rightarrow> delivery_error + db" where
  "accept_delivery db delivery worker request now = bindr (lock_outbox db delivery worker now) (\<lambda>n.
     finalize_notification n now (accept_writes delivery request now db))"

definition retry_delivery :: "db \<Rightarrow> uuid \<Rightarrow> string \<Rightarrow> string \<Rightarrow> bool \<Rightarrow> instant \<Rightarrow> instant \<Rightarrow> delivery_error + db" where
  "retry_delivery db delivery worker code uncertain available_at now = bindr (lock_outbox db delivery worker now) (\<lambda>_.
     Inr (update_outbox delivery (\<lambda>b. b\<lparr>o_available_at := available_at, o_claimed_by := None, o_claimed_at := None, o_lease := None\<rparr>)
       (update_delivery delivery (\<lambda>d. d\<lparr>dl_status := (if uncertain then DeliveryUncertain else DeliveryRetryWait),
          dl_error_code := Some code, dl_next_attempt_at := Some available_at, dl_updated_at := now\<rparr>) db)))"

definition fail_writes :: "uuid \<Rightarrow> string \<Rightarrow> instant \<Rightarrow> db \<Rightarrow> db" where
  "fail_writes delivery code now db = complete_outbox delivery now (update_delivery delivery
     (\<lambda>d. d\<lparr>dl_status := DeliveryFailedPermanent, dl_error_code := Some code, dl_next_attempt_at := None, dl_updated_at := now\<rparr>) db)"

definition fail_delivery :: "db \<Rightarrow> uuid \<Rightarrow> string \<Rightarrow> string \<Rightarrow> instant \<Rightarrow> delivery_error + db" where
  "fail_delivery db delivery worker code now = bindr (lock_outbox db delivery worker now) (\<lambda>n.
     finalize_notification n now (fail_writes delivery code now db))"

section \<open>The worker\<close>

text \<open>A Duration is a signed integer of 64 bits.\<close>

definition retry_delay :: "int \<Rightarrow> duration" where
  "retry_delay attempt = (let delay = signed_take_bit 63 (30 * second * 2 ^ nat (max 1 attempt - 1)) in min delay (15 * minute))"

datatype delivery_action = ActAccept string | ActRetry string bool duration | ActFail string

text \<open>What becomes of a claimed delivery.  user is the outcome of OutboundLineUserID, result that of the push.\<close>

definition delivery_action_of :: "delivery_work \<Rightarrow> string option \<Rightarrow> (string \<Rightarrow> push_result) \<Rightarrow> delivery_action" where
  "delivery_action_of work user result = (
     if \<not> dw_tenant_active work then ActFail ''TENANT_INACTIVE''
     else (case user of
       None \<Rightarrow> ActFail ''RECIPIENT_INACTIVE''
     | Some u \<Rightarrow> (let r = result u in case pr_outcome r of
         PushAccepted \<Rightarrow> ActAccept (pr_request r)
       | PushRetryable \<Rightarrow>
           if dw_attempt work \<ge> 5 then ActFail ''LINE_PUSH_RETRY_EXHAUSTED''
           else ActRetry (pr_code r) (pr_uncertain r)
             (if pr_retry_after r \<le> 0 then retry_delay (dw_attempt work) else pr_retry_after r)
       | PushPermanent \<Rightarrow> ActFail (pr_code r))))"

definition perform_action :: "db \<Rightarrow> uuid \<Rightarrow> string \<Rightarrow> delivery_action \<Rightarrow> instant \<Rightarrow> delivery_error + db" where
  "perform_action db delivery worker action now = (case action of
     ActAccept request \<Rightarrow> accept_delivery db delivery worker request now
   | ActRetry code uncertain delay \<Rightarrow> retry_delivery db delivery worker code uncertain (now + delay) now
   | ActFail code \<Rightarrow> fail_delivery db delivery worker code now)"

text \<open>ProcessOne reads the clock once.  others is what the other processes do between the claim and the end,
  user and exchange are the answers of the recipient store and of LINE.\<close>

definition process_delivery :: "(string \<Rightarrow> bool) \<Rightarrow> string \<Rightarrow> string \<Rightarrow> (db \<Rightarrow> uuid \<Rightarrow> string option) \<Rightarrow> push_exchange
    \<Rightarrow> (db \<Rightarrow> db) \<Rightarrow> db \<Rightarrow> uuid list \<Rightarrow> instant \<Rightarrow> delivery_error + (db \<times> delivery_work \<times> db)" where
  "process_delivery valid token worker user exchange others db locked now =
     bindr (claim_delivery db locked worker minute now) (\<lambda>(db1, work).
       let db2 = others db1;
           action = delivery_action_of work (user db1 (dw_recipient work)) (\<lambda>u. push valid token u (dw_retry_key work) (dw_payload work) exchange)
       in bindr (perform_action db2 (dw_id work) worker action now) (\<lambda>db3. Inr (db1, work, db3)))"

end
