(* ===== verification/DeliveryProps.thy ===== *)
theory DeliveryProps
  imports Deliveries Sample
begin

text \<open>
  What the outbox promises: a delivery keeps its retry key and payload and is never pushed again once it
  has ended, at most five attempts of it are released for another one, and the last delivery to end
  finalizes its notification, unless two of them end in transactions that overlap.
\<close>

section \<open>One transaction\<close>

inductive delivery_step :: "db \<Rightarrow> db \<Rightarrow> bool" where
  claimed: "claim_delivery db locked worker lease now = Inr (db', work) \<Longrightarrow> delivery_step db db'"
| accepted: "accept_delivery db i worker request now = Inr db' \<Longrightarrow> delivery_step db db'"
| retried: "retry_delivery db i worker code uncertain available_at now = Inr db' \<Longrightarrow> delivery_step db db'"
| failed: "fail_delivery db i worker code now = Inr db' \<Longrightarrow> delivery_step db db'"

definition same_delivery :: "delivery_row \<Rightarrow> delivery_row \<Rightarrow> bool" where
  "same_delivery d d' \<longleftrightarrow> dl_id d' = dl_id d \<and> dl_tenant d' = dl_tenant d \<and> dl_notification d' = dl_notification d
     \<and> dl_recipient d' = dl_recipient d \<and> dl_retry_key d' = dl_retry_key d \<and> dl_attempt d \<le> dl_attempt d'"

lemma same_delivery_refl [simp]: "same_delivery d d"
  by (simp add: same_delivery_def)

lemma same_delivery_trans: "same_delivery a b \<Longrightarrow> same_delivery b c \<Longrightarrow> same_delivery a c"
  by (simp add: same_delivery_def)

definition payloads :: "db \<Rightarrow> (uuid \<times> uuid \<times> string) list" where
  "payloads db = map (\<lambda>b. (o_id b, o_delivery b, o_payload b)) (db_outbox db)"

lemma lock_outbox_Inr:
  assumes "lock_outbox db i worker now = Inr n"
  obtains d where "find_delivery db i = Some d" "dl_status d = DeliverySending" "dl_notification d = n" "is_open d"
  using assms by (auto simp: lock_outbox_def is_open_def split: option.splits if_splits)

text \<open>A transaction changes one open delivery.  Its notification changes, and is then no longer being sent,
  exactly when it has no open delivery left.\<close>

definition notified :: "db \<Rightarrow> db \<Rightarrow> uuid \<Rightarrow> bool" where
  "notified db db' n \<longleftrightarrow> (if \<exists>x \<in> set (deliveries_of db' n). is_open x then db_notifications db' = db_notifications db
     else \<exists>g. db_notifications db' = update_where (\<lambda>r. n_id r = n) g (db_notifications db)
        \<and> (\<forall>r. n_id (g r) = n_id r \<and> n_status (g r) \<noteq> NotificationSending))"

definition touches :: "db \<Rightarrow> db \<Rightarrow> uuid \<Rightarrow> bool" where
  "touches db db' i \<longleftrightarrow> (\<exists>d f. find_delivery db i = Some d \<and> is_open d \<and> (\<forall>x. same_delivery x (f x))
     \<and> db_deliveries db' = update_where (\<lambda>x. dl_id x = i) f (db_deliveries db)
     \<and> payloads db' = payloads db
     \<and> notified db db' (dl_notification d))"

lemma payloads_update: "(\<And>b. (o_id (f b), o_delivery (f b), o_payload (f b)) = (o_id b, o_delivery b, o_payload b)) \<Longrightarrow>
    map (\<lambda>b. (o_id b, o_delivery b, o_payload b)) (update_where p f rows) = map (\<lambda>b. (o_id b, o_delivery b, o_payload b)) rows"
  by (rule map_update_where)

lemma find_delivery_id: "find_delivery db i = Some d \<Longrightarrow> dl_id d = i \<and> d \<in> set (db_deliveries db)"
  unfolding find_delivery_def using find_where_Some by fastforce

abbreviation sending :: "instant \<Rightarrow> delivery_row \<Rightarrow> delivery_row" where
  "sending now d \<equiv> d\<lparr>dl_status := DeliverySending, dl_attempt := dl_attempt d + 1, dl_updated_at := now\<rparr>"

lemma claim_effect:
  assumes "claim_delivery db locked worker lease now = Inr (db', work)"
  obtains box d where "box \<in> set (db_outbox db)" "ready_outbox db locked now box" "find_delivery db (o_delivery box) = Some d" "is_open d"
    "dl_id d = o_delivery box" "dw_id work = dl_id d" "dw_retry_key work = dl_retry_key d" "dw_attempt work = dl_attempt d + 1"
    "dw_payload work = o_payload box"
    "db_deliveries db' = update_where (\<lambda>x. dl_id x = dl_id d) (sending now) (db_deliveries db)"
    "payloads db' = payloads db" "db_notifications db' = db_notifications db"
proof -
  obtain box d where o: "select_first outbox_before (ready_outbox db locked now) (db_outbox db) = Some box"
    and d: "find_delivery db (o_delivery box) = Some d"
    and db': "db' = update_delivery (dl_id d) (sending now)
              (db\<lparr>db_outbox := update_where (\<lambda>x. o_id x = o_id box)
                 (\<lambda>x. x\<lparr>o_claimed_by := Some worker, o_claimed_at := Some now, o_lease := Some (now + lease), o_attempt := o_attempt x + 1\<rparr>)
                 (db_outbox db)\<rparr>)"
    and w: "dw_id work = dl_id d" "dw_retry_key work = dl_retry_key d" "dw_attempt work = dl_attempt d + 1" "dw_payload work = o_payload box"
    using assms by (auto simp: claim_delivery_def split: option.splits if_splits)
  have b: "box \<in> set (db_outbox db)" "ready_outbox db locked now box" using select_first_Some[OF o] by simp_all
  then have "is_open d" using d by (simp add: ready_outbox_def opt_rel_def)
  then show thesis using that[of box d] b d w find_delivery_id[OF d]
    by (simp add: db' update_delivery_def payloads_def payloads_update)
qed

lemma still_open:
  assumes "find_delivery db i = Some d" "is_open (f d)" "dl_notification (f d) = dl_notification d"
    "db_deliveries db' = update_where (\<lambda>x. dl_id x = i) f (db_deliveries db)" "db_notifications db' = db_notifications db"
  shows "notified db db' (dl_notification d)"
proof -
  have "f d \<in> set (deliveries_of db' (dl_notification d))"
    using find_delivery_id[OF assms(1)] assms(3) by (auto simp: deliveries_of_def assms(4) set_update_where)
  then show ?thesis using assms(2,5) by (auto simp: notified_def)
qed

lemma claim_touches:
  assumes "claim_delivery db locked worker lease now = Inr (db', work)"
  shows "touches db db' (dw_id work)"
proof (rule claim_effect[OF assms])
  fix box d
  assume a: "find_delivery db (o_delivery box) = Some d" "is_open d" "dl_id d = o_delivery box" "dw_id work = dl_id d"
    "db_deliveries db' = update_where (\<lambda>x. dl_id x = dl_id d) (sending now) (db_deliveries db)"
    "payloads db' = payloads db" "db_notifications db' = db_notifications db"
  then have f: "find_delivery db (dl_id d) = Some d" by simp
  have "notified db db' (dl_notification d)" by (rule still_open[OF f, where f = "sending now"]) (simp_all add: a is_open_def)
  then show ?thesis using a by (auto simp: touches_def same_delivery_def intro!: exI[of _ "sending now"])
qed

lemma final_status_open:
  assumes "final_status db n = Inr s"
  shows "(\<exists>d \<in> set (deliveries_of db n). is_open d) \<longleftrightarrow> s = None" "s \<noteq> Some NotificationSending"
proof -
  have "0 < count_where is_open (deliveries_of db n) \<longleftrightarrow> s = None" using assms
    by (auto simp: final_status_def Let_def split: if_splits option.splits)
  then show "(\<exists>d \<in> set (deliveries_of db n). is_open d) \<longleftrightarrow> s = None" by (simp add: count_where_pos_iff)
  show "s \<noteq> Some NotificationSending" using assms by (auto simp: final_status_def Let_def split: if_splits option.splits)
qed

lemma finalize_effect:
  assumes "finalize_notification n now db1 = Inr db'" "db_notifications db1 = db_notifications db"
  shows "db_deliveries db' = db_deliveries db1" "db_outbox db' = db_outbox db1" "notified db db' n"
proof -
  obtain s where s: "final_status db1 n = Inr s" "db' = set_final n now s db1" using assms(1) by (auto simp: finalize_notification_def)
  show 1: "db_deliveries db' = db_deliveries db1" "db_outbox db' = db_outbox db1" by (simp_all add: s(2) set_final_def split: option.split)
  have "(\<exists>d \<in> set (deliveries_of db' n). is_open d) \<longleftrightarrow> s = None" using final_status_open(1)[OF s(1)] 1(1) by (simp add: deliveries_of_def)
  then show "notified db db' n" using final_status_open(2)[OF s(1)] assms(2)
    by (cases s) (auto simp: notified_def s(2) set_final_def
      intro!: exI[of _ "\<lambda>r. r\<lparr>n_status := the s, n_finished_at := Some now, n_updated_at := now\<rparr>"])
qed

lemma finished_touches:
  assumes "lock_outbox db i worker now = Inr n" "finalize_notification n now db1 = Inr db'"
    "db_deliveries db1 = update_where (\<lambda>d. dl_id d = i) f (db_deliveries db)" "\<And>x. same_delivery x (f x)"
    "payloads db1 = payloads db" "db_notifications db1 = db_notifications db"
  shows "touches db db' i"
proof -
  obtain d where d: "find_delivery db i = Some d" "dl_notification d = n" "is_open d" using lock_outbox_Inr[OF assms(1)] by metis
  show ?thesis unfolding touches_def using d finalize_effect[OF assms(2,6)] assms(3-5)
    by (intro exI[of _ d] exI[of _ f]) (simp add: payloads_def)
qed

lemma write_simps:
  "db_deliveries (fail_writes i code now db) = update_where (\<lambda>d. dl_id d = i) (\<lambda>d. d\<lparr>dl_status := DeliveryFailedPermanent,
     dl_error_code := Some code, dl_next_attempt_at := None, dl_updated_at := now\<rparr>) (db_deliveries db)"
  "db_notifications (fail_writes i code now db) = db_notifications db" "payloads (fail_writes i code now db) = payloads db"
  "db_deliveries (accept_writes i request now db) = update_where (\<lambda>d. dl_id d = i) (\<lambda>d. d\<lparr>dl_status := DeliveryAccepted,
     dl_provider_request := (if request = [] then None else Some request), dl_error_code := None, dl_next_attempt_at := None,
     dl_accepted_at := Some now, dl_updated_at := now\<rparr>) (db_deliveries db)"
  "db_notifications (accept_writes i request now db) = db_notifications db" "payloads (accept_writes i request now db) = payloads db"
  by (simp_all add: fail_writes_def accept_writes_def count_accepted_def complete_outbox_def update_delivery_def update_outbox_def
      payloads_def payloads_update)

lemma accept_touches:
  assumes "accept_delivery db i worker request now = Inr db'"
  shows "touches db db' i"
  using assms by (auto simp: accept_delivery_def write_simps same_delivery_def intro: finished_touches)

lemma fail_touches:
  assumes "fail_delivery db i worker code now = Inr db'"
  shows "touches db db' i"
  using assms by (auto simp: fail_delivery_def write_simps same_delivery_def intro: finished_touches)

lemma retry_touches:
  assumes "retry_delivery db i worker code uncertain available_at now = Inr db'"
  shows "touches db db' i"
proof -
  obtain n where n: "lock_outbox db i worker now = Inr n" using assms by (auto simp: retry_delivery_def)
  obtain d where d: "find_delivery db i = Some d" "is_open d" using lock_outbox_Inr[OF n] by metis
  define f where "f = (\<lambda>d :: delivery_row. d\<lparr>dl_status := (if uncertain then DeliveryUncertain else DeliveryRetryWait),
          dl_error_code := Some code, dl_next_attempt_at := Some available_at, dl_updated_at := now\<rparr>)"
  have db': "db_deliveries db' = update_where (\<lambda>x. dl_id x = i) f (db_deliveries db)" "payloads db' = payloads db"
    "db_notifications db' = db_notifications db"
    using assms by (auto simp: retry_delivery_def n update_delivery_def update_outbox_def payloads_def payloads_update f_def)
  have "notified db db' (dl_notification d)" by (rule still_open[OF d(1) _ _ db'(1,3)]) (simp_all add: f_def is_open_def)
  then show ?thesis unfolding touches_def using d db' by (intro exI[of _ d] exI[of _ f]) (simp add: f_def same_delivery_def)
qed

lemma step_touches: "delivery_step db db' \<Longrightarrow> \<exists>i. touches db db' i"
  by (induction rule: delivery_step.induct) (blast intro: claim_touches accept_touches retry_touches fail_touches)+

section \<open>Any number of transactions\<close>

lemma touches_keep:
  assumes "touches db db' i" "distinct (map dl_id (db_deliveries db))"
  shows "distinct (map dl_id (db_deliveries db'))" "payloads db' = payloads db"
    "d \<in> set (db_deliveries db) \<Longrightarrow> \<exists>d' \<in> set (db_deliveries db'). same_delivery d d' \<and> (\<not> is_open d \<longrightarrow> d' = d)"
proof -
  obtain e f where e: "find_delivery db i = Some e" "is_open e" "\<And>x. same_delivery x (f x)"
    and rows: "db_deliveries db' = update_where (\<lambda>x. dl_id x = i) f (db_deliveries db)" and p: "payloads db' = payloads db"
    using assms(1) unfolding touches_def by metis
  have ids: "map dl_id (db_deliveries db') = map dl_id (db_deliveries db)"
    unfolding rows using e(3) by (intro map_update_where) (simp add: same_delivery_def)
  then show "distinct (map dl_id (db_deliveries db'))" using assms(2) by simp
  show "payloads db' = payloads db" by (rule p)
  assume d: "d \<in> set (db_deliveries db)"
  show "\<exists>d' \<in> set (db_deliveries db'). same_delivery d d' \<and> (\<not> is_open d \<longrightarrow> d' = d)"
  proof (cases "dl_id d = i")
    case True
    then have "d = e" using find_delivery_id[OF e(1)] d assms(2) by (metis distinct_map inj_onD)
    moreover have "f d \<in> set (db_deliveries db')" using d True by (auto simp: rows set_update_where)
    ultimately show ?thesis using e(2,3) by blast
  next
    case False
    then have "d \<in> set (db_deliveries db')" using d by (auto simp: rows set_update_where)
    then show ?thesis by (intro bexI[of _ d]) auto
  qed
qed

lemma steps_keep:
  assumes "delivery_step\<^sup>*\<^sup>* db db'" "distinct (map dl_id (db_deliveries db))"
  shows "distinct (map dl_id (db_deliveries db')) \<and> payloads db' = payloads db
    \<and> (\<forall>d \<in> set (db_deliveries db). \<exists>d' \<in> set (db_deliveries db'). same_delivery d d' \<and> (\<not> is_open d \<longrightarrow> d' = d))"
  using assms
proof (induction rule: rtranclp_induct)
  case (step y z)
  then obtain i where i: "touches y z i" using step_touches by blast
  have y: "distinct (map dl_id (db_deliveries y))" "payloads y = payloads db" using step by auto
  have "\<exists>d'' \<in> set (db_deliveries z). same_delivery d d'' \<and> (\<not> is_open d \<longrightarrow> d'' = d)" if d: "d \<in> set (db_deliveries db)" for d
  proof -
    obtain d' where d': "d' \<in> set (db_deliveries y)" "same_delivery d d'" "\<not> is_open d \<longrightarrow> d' = d" using step d by blast
    then obtain d'' where "d'' \<in> set (db_deliveries z)" "same_delivery d' d''" "\<not> is_open d' \<longrightarrow> d'' = d'"
      using touches_keep(3)[OF i y(1)] by blast
    with d' show ?thesis using same_delivery_trans by metis
  qed
  with touches_keep(1,2)[OF i y(1)] y(2) show ?case by simp
next
  case base
  then show ?case using same_delivery_refl by blast
qed

text \<open>C9: Every push of a delivery, by whatever worker and after whatever other transactions, uses the retry key
  and the payload that the first one used, each claim counts one more attempt, and a delivery that LINE has
  accepted or that has failed for good is never claimed again.\<close>

theorem delivery_retry_key_stable:
  assumes "distinct (map dl_id (db_deliveries db))" "distinct (map o_delivery (db_outbox db))"
    "claim_delivery db locked worker lease now = Inr (db1, work)" "delivery_step\<^sup>*\<^sup>* db1 db2"
    "claim_delivery db2 locked' worker' lease' now' = Inr (db3, work')" "dw_id work' = dw_id work"
  shows "dw_retry_key work' = dw_retry_key work \<and> dw_payload work' = dw_payload work \<and> dw_attempt work < dw_attempt work'
    \<and> (\<exists>d \<in> set (db_deliveries db2). dl_id d = dw_id work \<and> dl_status d \<noteq> DeliveryAccepted \<and> dl_status d \<noteq> DeliveryFailedPermanent)"
proof -
  obtain box d where d: "box \<in> set (db_outbox db)" "dl_id d = o_delivery box" "find_delivery db (o_delivery box) = Some d"
    "dw_id work = dl_id d" "dw_retry_key work = dl_retry_key d" "dw_attempt work = dl_attempt d + 1" "dw_payload work = o_payload box"
    "db_deliveries db1 = update_where (\<lambda>x. dl_id x = dl_id d) (sending now) (db_deliveries db)"
    by (rule claim_effect[OF assms(3)]) (rule that; assumption)
  note k = touches_keep[OF claim_touches[OF assms(3)] assms(1)]
  have "sending now d \<in> set (db_deliveries db1)" using find_delivery_id[OF d(3)] by (auto simp: d(8) set_update_where)
  then obtain e where e: "e \<in> set (db_deliveries db2)" "same_delivery (sending now d) e" using steps_keep[OF assms(4) k(1)] by blast
  have s: "distinct (map dl_id (db_deliveries db2))" "payloads db2 = payloads db" using steps_keep[OF assms(4) k(1)] k(2) by simp_all
  obtain box2 d2 where d2: "box2 \<in> set (db_outbox db2)" "dl_id d2 = o_delivery box2" "find_delivery db2 (o_delivery box2) = Some d2"
    "is_open d2" "dw_id work' = dl_id d2" "dw_retry_key work' = dl_retry_key d2" "dw_attempt work' = dl_attempt d2 + 1" "dw_payload work' = o_payload box2"
    by (rule claim_effect[OF assms(5)]) (rule that; assumption)
  have "dl_id d2 = dl_id e" using d2(5) e(2) d(4) assms(6) by (simp add: same_delivery_def)
  then have "d2 = e" using find_delivery_id[OF d2(3)] e(1) s(1) by (meson distinct_map inj_onD)
  moreover have "o_payload box2 = o_payload box"
  proof -
    have "inj_on (fst \<circ> snd) (set (payloads db))" using assms(2) by (fastforce simp: payloads_def distinct_map inj_on_def)
    moreover have "(o_id box2, o_delivery box2, o_payload box2) \<in> set (payloads db)" unfolding s(2)[symmetric] using d2(1) by (auto simp: payloads_def)
    moreover have "(o_id box, o_delivery box, o_payload box) \<in> set (payloads db)" using d(1) by (auto simp: payloads_def)
    moreover have "o_delivery box2 = o_delivery box" using d(2,4) d2(2,5) assms(6) by simp
    ultimately show ?thesis unfolding inj_on_def by fastforce
  qed
  ultimately show ?thesis using d d2 e find_delivery_id[OF d2(3)] by (auto simp: same_delivery_def is_open_def)
qed

section \<open>One delivery at the worker\<close>

lemma retry_delay_positive: "attempt < 5 \<Longrightarrow> 0 < retry_delay attempt"
proof -
  assume "attempt < 5"
  then have "max 1 attempt - 1 \<in> {0, 1, 2, 3}" by auto
  then show ?thesis by (auto simp: retry_delay_def duration_defs Let_def signed_take_bit_int_eq_self)
qed

lemma find_update:
  assumes "find_delivery db i = Some d" "dl_id (f d) = i" "db_deliveries db' = update_where (\<lambda>x. dl_id x = i) f (db_deliveries db)"
  shows "find_delivery db' i = Some (f d)"
proof -
  have "find_where (\<lambda>d. dl_id d = i) rows = Some d \<Longrightarrow> find_where (\<lambda>d. dl_id d = i) (update_where (\<lambda>x. dl_id x = i) f rows) = Some (f d)" for rows
    using assms(2) by (induction rows) (auto simp: update_where_def split: if_splits)
  then show ?thesis using assms(1) by (simp add: find_delivery_def assms(3))
qed

lemma perform_effect:
  assumes "perform_action db i worker action now = Inr db'"
  obtains d where "find_delivery db' i = Some d"
    "case action of ActAccept request \<Rightarrow> dl_status d = DeliveryAccepted \<and> dl_accepted_at d = Some now
       | ActRetry code uncertain delay \<Rightarrow> dl_status d = (if uncertain then DeliveryUncertain else DeliveryRetryWait)
           \<and> dl_next_attempt_at d = Some (now + delay) \<and> dl_error_code d = Some code
       | ActFail code \<Rightarrow> dl_status d = DeliveryFailedPermanent \<and> dl_error_code d = Some code"
proof (cases action)
  case (ActAccept request)
  then obtain n where n: "lock_outbox db i worker now = Inr n" "finalize_notification n now (accept_writes i request now db) = Inr db'"
    using assms by (auto simp: perform_action_def accept_delivery_def)
  obtain d where "find_delivery db i = Some d" using lock_outbox_Inr[OF n(1)] by metis
  from find_update[OF this _ finalize_effect(1)[OF n(2) write_simps(5), unfolded write_simps]] find_delivery_id[OF this]
  show thesis using that ActAccept by simp
next
  case (ActFail code)
  then obtain n where n: "lock_outbox db i worker now = Inr n" "finalize_notification n now (fail_writes i code now db) = Inr db'"
    using assms by (auto simp: perform_action_def fail_delivery_def)
  obtain d where "find_delivery db i = Some d" using lock_outbox_Inr[OF n(1)] by metis
  from find_update[OF this _ finalize_effect(1)[OF n(2) write_simps(2), unfolded write_simps]] find_delivery_id[OF this]
  show thesis using that ActFail by simp
next
  case (ActRetry code uncertain delay)
  then obtain n where n: "lock_outbox db i worker now = Inr n"
    and db': "db_deliveries db' = update_where (\<lambda>d. dl_id d = i) (\<lambda>d. d\<lparr>dl_status := (if uncertain then DeliveryUncertain else DeliveryRetryWait),
          dl_error_code := Some code, dl_next_attempt_at := Some (now + delay), dl_updated_at := now\<rparr>) (db_deliveries db)"
    using assms by (auto simp: perform_action_def retry_delivery_def update_delivery_def update_outbox_def)
  obtain d where "find_delivery db i = Some d" using lock_outbox_Inr[OF n] by metis
  from find_update[OF this _ db'] find_delivery_id[OF this] show thesis using that ActRetry by simp
qed


section \<open>The end of a notification\<close>

definition all_served :: "db \<Rightarrow> bool" where
  "all_served db \<longleftrightarrow> (\<forall>r \<in> set (db_notifications db). n_status r = NotificationSending
     \<longrightarrow> (\<exists>d \<in> set (deliveries_of db (n_id r)). is_open d))"

lemma touches_others:
  assumes "touches db db' i" "distinct (map dl_id (db_deliveries db))" "find_delivery db i = Some e" "n \<noteq> dl_notification e"
  shows "deliveries_of db' n = deliveries_of db n"
proof -
  obtain f where f: "\<And>x. same_delivery x (f x)" "db_deliveries db' = update_where (\<lambda>x. dl_id x = i) f (db_deliveries db)"
    using assms(1) unfolding touches_def by metis
  have "dl_id x = i \<Longrightarrow> x \<in> set (db_deliveries db) \<Longrightarrow> dl_notification x \<noteq> n" for x
    using find_delivery_id[OF assms(3)] assms(2,4) by (metis distinct_map inj_onD)
  moreover have "(\<And>x. dl_id x = i \<Longrightarrow> x \<in> set rows \<Longrightarrow> dl_notification x \<noteq> n) \<Longrightarrow>
      filter (\<lambda>d. dl_notification d = n) (update_where (\<lambda>x. dl_id x = i) f rows) = filter (\<lambda>d. dl_notification d = n) rows" for rows
    using f(1) by (induction rows) (auto simp: update_where_def same_delivery_def)
  ultimately show ?thesis by (simp add: deliveries_of_def f(2))
qed

lemma touches_served:
  assumes "touches db db' i" "distinct (map dl_id (db_deliveries db))" "all_served db"
  shows "all_served db'"
proof -
  obtain e where e: "find_delivery db i = Some e" "notified db db' (dl_notification e)" using assms(1) unfolding touches_def by metis
  have "\<exists>d \<in> set (deliveries_of db' (n_id r)). is_open d"
    if r: "r \<in> set (db_notifications db')" "n_status r = NotificationSending" for r
  proof (cases "n_id r = dl_notification e")
    case True
    show ?thesis
    proof (rule ccontr)
      assume no: "\<not> ?thesis"
      then obtain g where g: "db_notifications db' = update_where (\<lambda>r. n_id r = dl_notification e) g (db_notifications db)"
        "\<forall>r. n_id (g r) = n_id r \<and> n_status (g r) \<noteq> NotificationSending"
        using e(2) True by (auto simp: notified_def split: if_splits)
      then show False using r True by (auto simp: set_update_where split: if_splits)
    qed
  next
    case False
    have "r \<in> set (db_notifications db)" using e(2) r(1) False
      by (auto simp: notified_def set_update_where split: if_splits)
    then show ?thesis using assms(3) r(2) touches_others[OF assms(1,2) e(1) False] by (auto simp: all_served_def)
  qed
  then show ?thesis by (simp add: all_served_def)
qed

text \<open>C8: Transactions that run one after the other never leave a notification behind: whatever they are, a
  notification that is being sent has an open delivery, so that the last delivery to end finalizes it.\<close>

theorem sending_has_open_delivery:
  assumes "distinct (map dl_id (db_deliveries db))" "delivery_step\<^sup>*\<^sup>* db db'"
    "\<forall>r \<in> set (db_notifications db). n_status r = NotificationSending \<longrightarrow> (\<exists>d \<in> set (deliveries_of db (n_id r)). is_open d)"
    "r \<in> set (db_notifications db')" "n_status r = NotificationSending"
  shows "\<exists>d \<in> set (db_deliveries db'). dl_notification d = n_id r \<and> dl_status d \<noteq> DeliveryAccepted \<and> dl_status d \<noteq> DeliveryFailedPermanent"
proof -
  have "all_served db' \<and> distinct (map dl_id (db_deliveries db'))" using assms(2)
  proof (induction rule: rtranclp_induct)
    case base
    then show ?case using assms(1,3) by (simp add: all_served_def)
  next
    case (step y z)
    then obtain i where "touches y z i" using step_touches by blast
    with step touches_served touches_keep(1) show ?case by blast
  qed
  then show ?thesis using assms(4,5) by (fastforce simp: all_served_def deliveries_of_def is_open_def)
qed

section \<open>Overlapping transactions\<close>

text \<open>Two failures of different deliveries that overlap, at the isolation level read committed: each locks and
  writes its own rows, counts the deliveries in what is committed and in its own writes, and both commit.\<close>

definition overlapping_failures :: "db \<Rightarrow> uuid \<times> string \<times> string \<times> instant \<Rightarrow> uuid \<times> string \<times> string \<times> instant
    \<Rightarrow> delivery_error + db" where
  "overlapping_failures db = (\<lambda>(i, worker, code, now) (j, worker', code', now').
     bindr (lock_outbox db i worker now) (\<lambda>n. bindr (lock_outbox db j worker' now') (\<lambda>m.
     bindr (final_status (fail_writes i code now db) n) (\<lambda>s.
     bindr (final_status (fail_writes j code' now' db) m) (\<lambda>t.
     Inr (set_final m now' t (set_final n now s (fail_writes j code' now' (fail_writes i code now db)))))))))"

lemma overlap_misses:
  assumes "lock_outbox db j worker now = Inr n" "i \<noteq> j" "final_status (fail_writes i code t db) n = Inr s"
  shows "s = None"
proof -
  obtain d where d: "find_delivery db j = Some d" "dl_notification d = n" "is_open d" using lock_outbox_Inr[OF assms(1)] by metis
  then have "d \<in> set (deliveries_of (fail_writes i code t db) n)"
    using find_delivery_id[OF d(1)] assms(2) by (auto simp: deliveries_of_def write_simps set_update_where)
  then show ?thesis using final_status_open(1)[OF assms(3)] d(3) by auto
qed

lemma closed_for_good:
  assumes "delivery_step\<^sup>*\<^sup>* db db'" "distinct (map dl_id (db_deliveries db))"
    "\<forall>d \<in> set (deliveries_of db n). \<not> is_open d" "r \<in> set (db_notifications db)" "n_id r = n"
  shows "r \<in> set (db_notifications db') \<and> (\<forall>d \<in> set (deliveries_of db' n). \<not> is_open d) \<and> distinct (map dl_id (db_deliveries db'))"
  using assms(1)
proof (induction rule: rtranclp_induct)
  case base
  then show ?case using assms by simp
next
  case (step y z)
  then obtain i where i: "touches y z i" using step_touches by blast
  then obtain e where e: "find_delivery y i = Some e" "is_open e" "notified y z (dl_notification e)" unfolding touches_def by metis
  then have ne: "n \<noteq> dl_notification e" using step.IH find_delivery_id[OF e(1)] by (auto simp: deliveries_of_def)
  have "r \<in> set (db_notifications z)" using step.IH e(3) ne assms(5)
    by (auto simp: notified_def set_update_where image_iff split: if_splits intro!: bexI[of _ r])
  then show ?case using touches_others[OF i _ e(1) ne] touches_keep(1)[OF i] step.IH by simp
qed

text \<open>C39: When the last two deliveries of a notification fail in transactions that overlap, each of them still
  counts the other delivery as open, and neither finalizes the notification: all its deliveries have
  ended, it stays as it was, SENDING, and no later transaction on deliveries ever finalizes it.\<close>

theorem overlapping_failures_strand:
  assumes "distinct (map dl_id (db_deliveries db))" "i \<noteq> j"
    "lock_outbox db i worker now = Inr n" "lock_outbox db j worker' now' = Inr n"
    "\<forall>d \<in> set (deliveries_of db n). is_open d \<longrightarrow> dl_id d = i \<or> dl_id d = j"
    "r \<in> set (db_notifications db)" "n_id r = n" "n_status r = NotificationSending"
    "overlapping_failures db (i, worker, code, now) (j, worker', code', now') = Inr db1" "delivery_step\<^sup>*\<^sup>* db1 db2"
  shows "(\<forall>d \<in> set (db_deliveries db2). dl_notification d = n \<longrightarrow> dl_status d = DeliveryAccepted \<or> dl_status d = DeliveryFailedPermanent)
    \<and> r \<in> set (db_notifications db2) \<and> n_status r = NotificationSending"
proof -
  obtain s t where st: "final_status (fail_writes i code now db) n = Inr s" "final_status (fail_writes j code' now' db) n = Inr t"
    "db1 = set_final n now' t (set_final n now s (fail_writes j code' now' (fail_writes i code now db)))"
    using assms(9) by (auto simp: overlapping_failures_def assms(3,4))
  have "s = None" "t = None" using overlap_misses[OF assms(4) assms(2) st(1)] overlap_misses[OF assms(3) _ st(2)] assms(2) by auto
  then have db1: "db1 = fail_writes j code' now' (fail_writes i code now db)" by (simp add: st(3) set_final_def)
  have closed: "\<forall>d \<in> set (deliveries_of db1 n). \<not> is_open d"
    using assms(5) by (auto simp: db1 write_simps deliveries_of_def set_update_where is_open_def split: if_splits)
  have ids: "distinct (map dl_id (db_deliveries db1))" using assms(1) by (simp add: db1 write_simps map_update_where)
  have "r \<in> set (db_notifications db1)" using assms(6) by (simp add: db1 write_simps)
  from closed_for_good[OF assms(10) ids closed this assms(7)]
  have "r \<in> set (db_notifications db2)" "\<forall>d \<in> set (deliveries_of db2 n). \<not> is_open d" by auto
  moreover have "\<not> is_open d \<longleftrightarrow> dl_status d = DeliveryAccepted \<or> dl_status d = DeliveryFailedPermanent" for d
    by (cases "dl_status d") (simp_all add: is_open_def)
  ultimately show ?thesis using assms(8) by (auto simp: deliveries_of_def)
qed

section \<open>Two deliveries\<close>

definition sample_delivery :: "uuid \<Rightarrow> uuid \<Rightarrow> delivery_row" where
  "sample_delivery i key = \<lparr>dl_id = i, dl_tenant = 1, dl_notification = 9, dl_recipient = 7, dl_status = DeliveryPending,
     dl_retry_key = key, dl_attempt = 0, dl_provider_request = None, dl_error_code = None, dl_next_attempt_at = Some 0,
     dl_accepted_at = None, dl_created_at = 0, dl_updated_at = 0, dl_expires_at = 1000 * hour\<rparr>"

definition sample_outbox :: "uuid \<Rightarrow> uuid \<Rightarrow> outbox_row" where
  "sample_outbox i delivery = \<lparr>o_id = i, o_delivery = delivery, o_tenant = 1, o_payload = ''{}'', o_available_at = 0,
     o_claimed_by = None, o_claimed_at = None, o_lease = None, o_attempt = 0, o_completed_at = None, o_created_at = 0\<rparr>"

definition delivery_db :: db where
  "delivery_db = sample_db\<lparr>
     db_deliveries := [sample_delivery 21 51, sample_delivery 22 52], db_outbox := [sample_outbox 31 21, sample_outbox 32 22],
     db_notifications := [\<lparr>n_id = 9, n_tenant = 1, n_schedule = 8, n_scheduled_for = 0, n_materialization = 2,
       n_status = NotificationSending, n_attempt = 1, n_next_attempt_at = 0, n_claimed_by = None, n_claimed_at = None,
       n_lease = None, n_error_code = None, n_finished_at = None, n_updated_at = 0\<rparr>]\<rparr>"

definition db_of :: "delivery_error + (db \<times> 'a) \<Rightarrow> db" where
  "db_of r = (case r of Inr (db, _) \<Rightarrow> db | Inl _ \<Rightarrow> empty_db)"

definition one_claimed :: db where "one_claimed = db_of (claim_delivery delivery_db [] ''d1'' minute (10 * hour))"
definition both_claimed :: db where "both_claimed = db_of (claim_delivery one_claimed [] ''d1'' minute (10 * hour))"
definition released :: db where
  "released = (case retry_delivery one_claimed 21 ''d1'' ''LINE_PUSH_UNCERTAIN'' True (11 * hour) (10 * hour) of Inr db \<Rightarrow> db | Inl _ \<Rightarrow> empty_db)"

lemma claimed_evaluated:
  assumes "case r of Inr (db, w) \<Rightarrow> dw_id w = i | Inl e \<Rightarrow> False"
  shows "\<exists>w. r = Inr (db_of r, w) \<and> dw_id w = i"
  using assms by (auto simp: db_of_def split: sum.splits)

lemma sample_claims:
  "\<exists>w. claim_delivery delivery_db [] ''d1'' minute (10 * hour) = Inr (one_claimed, w) \<and> dw_id w = 21"
  "\<exists>w. claim_delivery one_claimed [] ''d1'' minute (10 * hour) = Inr (both_claimed, w) \<and> dw_id w = 22"
  "\<exists>w. claim_delivery released [32] ''d2'' minute (12 * hour) = Inr (db_of (claim_delivery released [32] ''d2'' minute (12 * hour)), w) \<and> dw_id w = 21"
  unfolding one_claimed_def both_claimed_def by (rule claimed_evaluated; code_simp)+

lemma sample_release: "retry_delivery one_claimed 21 ''d1'' ''LINE_PUSH_UNCERTAIN'' True (11 * hour) (10 * hour) = Inr released"
proof -
  have "\<not> isl (retry_delivery one_claimed 21 ''d1'' ''LINE_PUSH_UNCERTAIN'' True (11 * hour) (10 * hour))" by code_simp
  then show ?thesis by (auto simp: released_def split: sum.splits)
qed

lemma sample_rows:
  "distinct (map dl_id (db_deliveries delivery_db))" "distinct (map o_delivery (db_outbox delivery_db))"
  "distinct (map dl_id (db_deliveries both_claimed))"
  by code_simp+

theorem delivery_retry_key_stable_witness:
  "\<exists>w db' w'. claim_delivery delivery_db [] ''d1'' minute (10 * hour) = Inr (one_claimed, w)
     \<and> claim_delivery released [32] ''d2'' minute (12 * hour) = Inr (db', w') \<and> dw_id w' = dw_id w \<and> dw_retry_key w' = dw_retry_key w"
proof -
  obtain w w' where w: "claim_delivery delivery_db [] ''d1'' minute (10 * hour) = Inr (one_claimed, w)" "dw_id w = 21"
    "claim_delivery released [32] ''d2'' minute (12 * hour) = Inr (db_of (claim_delivery released [32] ''d2'' minute (12 * hour)), w')" "dw_id w' = 21"
    using sample_claims by metis
  have "delivery_step\<^sup>*\<^sup>* one_claimed released" using delivery_step.retried[OF sample_release] by blast
  from delivery_retry_key_stable[OF sample_rows(1,2) w(1) this w(3)] w show ?thesis by metis
qed


lemma sample_served: "\<forall>r \<in> set (db_notifications delivery_db). n_status r = NotificationSending \<longrightarrow> (\<exists>d \<in> set (deliveries_of delivery_db (n_id r)). is_open d)"
  by code_simp

lemma both_claimed_state: "map (\<lambda>r. (n_id r, n_status r)) (db_notifications both_claimed) = [(9, NotificationSending)]"
  "list_all (\<lambda>d. dl_id d = 21 \<or> dl_id d = 22) (db_deliveries both_claimed)"
  "lock_outbox both_claimed 21 ''d1'' (10 * hour) = Inr 9" "lock_outbox both_claimed 22 ''d1'' (10 * hour) = Inr 9"
  by code_simp+

lemma both_claimed_notification: obtains r where "r \<in> set (db_notifications both_claimed)" "n_id r = 9" "n_status r = NotificationSending"
  using both_claimed_state(1) by (cases "db_notifications both_claimed") auto

theorem sending_has_open_delivery_witness:
  "\<exists>r \<in> set (db_notifications both_claimed). n_status r = NotificationSending
     \<and> (\<exists>d \<in> set (db_deliveries both_claimed). dl_notification d = n_id r \<and> dl_status d \<noteq> DeliveryAccepted \<and> dl_status d \<noteq> DeliveryFailedPermanent)"
proof -
  obtain r where r: "r \<in> set (db_notifications both_claimed)" "n_status r = NotificationSending" using both_claimed_notification by metis
  have "delivery_step delivery_db one_claimed" "delivery_step one_claimed both_claimed"
    using sample_claims(1,2) by (auto intro: delivery_step.claimed)
  then have "delivery_step\<^sup>*\<^sup>* delivery_db both_claimed" by (meson converse_rtranclp_into_rtranclp rtranclp.rtrancl_refl)
  from sending_has_open_delivery[OF sample_rows(1) this sample_served r] r show ?thesis by blast
qed

theorem overlapping_failures_strand_witness:
  "\<exists>db1. overlapping_failures both_claimed (21, ''d1'', ''TENANT_INACTIVE'', 10 * hour) (22, ''d1'', ''TENANT_INACTIVE'', 10 * hour) = Inr db1
     \<and> (\<exists>r \<in> set (db_notifications db1). n_status r = NotificationSending)
     \<and> (\<forall>d \<in> set (db_deliveries db1). dl_notification d = 9 \<longrightarrow> dl_status d = DeliveryAccepted \<or> dl_status d = DeliveryFailedPermanent)"
proof -
  have "\<not> isl (overlapping_failures both_claimed (21, ''d1'', ''TENANT_INACTIVE'', 10 * hour) (22, ''d1'', ''TENANT_INACTIVE'', 10 * hour))" by code_simp
  then obtain db1 where ov: "overlapping_failures both_claimed (21, ''d1'', ''TENANT_INACTIVE'', 10 * hour) (22, ''d1'', ''TENANT_INACTIVE'', 10 * hour) = Inr db1"
    by (cases "overlapping_failures both_claimed (21, ''d1'', ''TENANT_INACTIVE'', 10 * hour) (22, ''d1'', ''TENANT_INACTIVE'', 10 * hour)") auto
  obtain r where r: "r \<in> set (db_notifications both_claimed)" "n_id r = 9" "n_status r = NotificationSending" using both_claimed_notification by metis
  have op: "\<forall>d \<in> set (deliveries_of both_claimed 9). is_open d \<longrightarrow> dl_id d = 21 \<or> dl_id d = 22"
    using both_claimed_state(2) by (auto simp: list_all_iff deliveries_of_def)
  have e: "(\<forall>d \<in> set (db_deliveries db1). dl_notification d = 9 \<longrightarrow> dl_status d = DeliveryAccepted \<or> dl_status d = DeliveryFailedPermanent)
    \<and> r \<in> set (db_notifications db1) \<and> n_status r = NotificationSending"
    by (rule overlapping_failures_strand[OF sample_rows(3) _ both_claimed_state(3,4) op r ov rtranclp.rtrancl_refl]) simp
  show ?thesis by (intro exI[of _ db1] conjI ov bexI[of _ r]) (use e in auto)
qed

end
